(* ===== verification/Prelude.thy ===== *)
theory Prelude
  imports Main "HOL-Library.Word" "HOL-Library.AList"
begin

text \<open>
  The prelude of the development: the machine types of the Rust sources, the
  collections of simplification rules the component theories extend, the way a
  panic of the program is represented, and the generic facts on lists, maps and
  words which more than one component uses.
\<close>

section \<open>Machine types\<close>

type_synonym byte = "8 word"
type_synonym bytes = "8 word list"
type_synonym u8 = "8 word"
type_synonym u16 = "16 word"
type_synonym u32 = "32 word"
type_synonym u64 = "64 word"

text \<open>
  \<open>world_simps\<close> collects the equations that say which field of the state an
  effect of the program writes and which it leaves alone. \<open>handler_defs\<close>
  collects the definitions of the message and connection handlers.
\<close>

named_theorems world_simps
named_theorems handler_defs

section \<open>Panics\<close>

text \<open>
  A Rust panic ends the event loop thread. Every operation that may panic returns
  \<open>panic + 'a\<close>, with the panic on the left. The constructors are the
  \<open>panic!\<close>, \<open>unreachable!\<close> and \<open>unwrap!\<close> sites of the sources.
\<close>

datatype panic =
    LogicErrorReverseConnectToClient
  | UnreachableNoConnectionForMessage
  | UnreachableHandshakeDispatch
  | UnreachableNotInitiated
  | ContextNotInitialised
  | ContextAlreadyInitialised
  | CouldNotBindUserPort
  | UnwrapOnError
  | ArithmeticOverflow
  | OnlyNodePeersExpected
  | AssertionFailed
  | IndexOutOfBounds

definition bind_p :: "panic + 'a \<Rightarrow> ('a \<Rightarrow> panic + 'b) \<Rightarrow> panic + 'b" where
  "bind_p r f = (case r of Inl p \<Rightarrow> Inl p | Inr x \<Rightarrow> f x)"

lemma bind_p_simps [simp]:
  "bind_p (Inl p) f = Inl p"
  "bind_p (Inr x) f = f x"
  by (simp_all add: bind_p_def)

lemma bind_p_Inr_conv: "bind_p r f = Inr y \<longleftrightarrow> (\<exists>x. r = Inr x \<and> f x = Inr y)"
  by (cases r) auto

lemma bind_p_assoc: "bind_p (bind_p r f) g = bind_p r (\<lambda>x. bind_p (f x) g)"
  by (cases r) auto

text \<open>\<open>assert!\<close> and \<open>unwrap!\<close>\<close>

definition assert_p :: "bool \<Rightarrow> panic + unit" where
  "assert_p b = (if b then Inr () else Inl AssertionFailed)"

definition unwrap_p :: "'e + 'a \<Rightarrow> panic + 'a" where
  "unwrap_p r = (case r of Inl e \<Rightarrow> Inl UnwrapOnError | Inr v \<Rightarrow> Inr v)"

text \<open>A loop whose body may panic: \<open>for x in xs { body }\<close>.\<close>

fun fold_p :: "('x \<Rightarrow> 's \<Rightarrow> panic + 's) \<Rightarrow> 'x list \<Rightarrow> 's \<Rightarrow> panic + 's" where
  "fold_p f [] s = Inr s"
| "fold_p f (x # xs) s = bind_p (f x s) (fold_p f xs)"

lemma fold_p_append:
  "fold_p f (xs @ ys) s = bind_p (fold_p f xs s) (fold_p f ys)"
  by (induction xs arbitrary: s) (simp_all add: bind_p_assoc bind_p_def split: sum.splits)

lemma fold_p_invariant:
  assumes "fold_p f xs s = Inr s'" and "I s"
    and "\<And>x s s'. x \<in> set xs \<Longrightarrow> I s \<Longrightarrow> f x s = Inr s' \<Longrightarrow> I s'"
  shows "I s'"
  using assms
proof (induction xs arbitrary: s)
  case Nil
  then show ?case by simp
next
  case (Cons x xs)
  from Cons.prems(1) obtain t where t: "f x s = Inr t" "fold_p f xs t = Inr s'"
    by (auto simp: bind_p_Inr_conv)
  have "I t" using Cons.prems(2,3) t(1) by (meson list.set_intros(1))
  with t(2) show ?case using Cons.IH Cons.prems(3) by (meson list.set_intros(2))
qed

lemma fold_p_no_panic:
  assumes "I s"
    and "\<And>x s. x \<in> set xs \<Longrightarrow> I s \<Longrightarrow> \<exists>s'. f x s = Inr s' \<and> I s'"
  shows "\<exists>s'. fold_p f xs s = Inr s' \<and> I s'"
  using assms
proof (induction xs arbitrary: s)
  case Nil
  then show ?case by simp
next
  case (Cons x xs)
  from Cons.prems obtain t where t: "f x s = Inr t" "I t"
    by (meson list.set_intros(1))
  from Cons.IH [OF t(2)] Cons.prems(2) obtain s' where "fold_p f xs t = Inr s'" "I s'"
    by (meson list.set_intros(2))
  with t(1) show ?case by auto
qed

section \<open>Lists\<close>

text \<open>
  \<open>position\<close> is \<open>Iterator::position\<close>: the index of the first element that
  satisfies the test. \<open>remove_at\<close> is \<open>VecDeque::remove\<close>: out of range it
  removes nothing.
\<close>

fun position :: "('a \<Rightarrow> bool) \<Rightarrow> 'a list \<Rightarrow> nat option" where
  "position P [] = None"
| "position P (x # xs) = (if P x then Some 0 else map_option Suc (position P xs))"

definition remove_at :: "nat \<Rightarrow> 'a list \<Rightarrow> 'a list" where
  "remove_at i xs = take i xs @ drop (Suc i) xs"

lemma position_None_conv: "position P xs = None \<longleftrightarrow> (\<forall>x \<in> set xs. \<not> P x)"
  by (induction xs) auto

lemma position_SomeD: "position P xs = Some i \<Longrightarrow> i < length xs \<and> P (xs ! i)"
  by (induction xs arbitrary: i) (auto split: if_splits)

lemma remove_at_position:
  "position (\<lambda>y. y = x) xs = Some i \<Longrightarrow> remove_at i xs = remove1 x xs"
  by (induction xs arbitrary: i) (auto simp: remove_at_def split: if_splits)

lemma position_eq_Some_iff: "(\<exists>i. position (\<lambda>y. y = x) xs = Some i) \<longleftrightarrow> x \<in> set xs"
  using position_None_conv [of "\<lambda>y. y = x" xs] by auto

lemma distinct_remove1_snoc:
  "distinct xs \<Longrightarrow> distinct (remove1 x xs @ [x])"
  by simp

lemma distinct_remove1_removeAll_filter:
  "distinct xs \<Longrightarrow> remove1 x xs = filter (\<lambda>y. y \<noteq> x) xs"
  by (simp add: distinct_remove1_removeAll removeAll_filter_not_eq eq_commute)

section \<open>Maps with a counted set of keys\<close>

text \<open>
  A reference count is compared with the number of keys whose entry satisfies a
  test. These facts say how that number changes under an update of one key.
\<close>

definition count_keys :: "('v \<Rightarrow> bool) \<Rightarrow> ('k \<rightharpoonup> 'v) \<Rightarrow> nat" where
  "count_keys P m = card {k. \<exists>v. m k = Some v \<and> P v}"

lemma finite_matching_keys [simp]:
  "finite (dom m) \<Longrightarrow> finite {k. \<exists>v. m k = Some v \<and> P v}"
  by (rule finite_subset [of _ "dom m"]) auto

lemma count_keys_upd:
  assumes "finite (dom m)"
  shows "count_keys P (m(k := w)) + (case m k of Some v \<Rightarrow> of_bool (P v) | None \<Rightarrow> 0)
       = count_keys P m + (case w of Some v \<Rightarrow> of_bool (P v) | None \<Rightarrow> 0)"
proof -
  let ?A = "{k'. \<exists>v. m k' = Some v \<and> P v}"
  have fin: "finite ?A" using assms by simp
  have rem: "card (?A - {k}) + of_bool (k \<in> ?A) = card ?A"
    using fin card_Suc_Diff1 [of ?A k] by (auto simp: card_gt_0_iff Suc_diff_1)
  have upd: "{k'. \<exists>v. (m(k := w)) k' = Some v \<and> P v} =
      (if \<exists>v. w = Some v \<and> P v then insert k (?A - {k}) else ?A - {k})"
    by auto
  have new: "count_keys P (m(k := w)) = card (?A - {k}) + of_bool (\<exists>v. w = Some v \<and> P v)"
    unfolding count_keys_def upd using fin by (simp del: insert_Diff_single)
  have "(case m k of Some v \<Rightarrow> of_bool (P v) | None \<Rightarrow> (0::nat)) = of_bool (k \<in> ?A)"
    by (simp split: option.splits)
  moreover have "(case w of Some v \<Rightarrow> of_bool (P v) | None \<Rightarrow> (0::nat)) =
      of_bool (\<exists>v. w = Some v \<and> P v)"
    by (simp split: option.splits)
  ultimately show ?thesis using rem new unfolding count_keys_def by linarith
qed

lemma count_keys_empty [simp]: "count_keys P Map.empty = 0"
  by (simp add: count_keys_def)

lemma count_keys_0: "finite (dom m) \<Longrightarrow> count_keys P m = 0 \<longleftrightarrow> (\<forall>k v. m k = Some v \<longrightarrow> \<not> P v)"
  by (auto simp: count_keys_def card_eq_0_iff)

end
