(* ===== verification/Net_Types.thy ===== *)
theory Net_Types
  imports Prelude
begin

text \<open>
  The data types the components exchange: endpoints (\<open>std::net\<close>), peers
  (\<open>src/peer.rs\<close>), events to the user (\<open>src/event.rs\<close>), errors
  (\<open>src/error.rs\<close>), the two enumerations of \<open>src/wire_msg.rs\<close> and the
  data of \<open>src/config.rs\<close>.
\<close>

section \<open>Endpoints\<close>

datatype ip_addr = V4 u32 | V6 "128 word"

text \<open>\<open>std::net::SocketAddr\<close>; the V6 form carries flow information and a scope id.\<close>

datatype socket_addr =
    SocketAddrV4 u32 u16
  | SocketAddrV6 "128 word" u16 u32 u32

fun ip :: "socket_addr \<Rightarrow> ip_addr" where
  "ip (SocketAddrV4 a p) = V4 a"
| "ip (SocketAddrV6 a p fl sc) = V6 a"

fun port :: "socket_addr \<Rightarrow> u16" where
  "port (SocketAddrV4 a p) = p"
| "port (SocketAddrV6 a p fl sc) = p"

fun is_unspecified :: "ip_addr \<Rightarrow> bool" where
  "is_unspecified (V4 a) = (a = 0)"
| "is_unspecified (V6 a) = (a = 0)"

section \<open>Peers (src/peer.rs)\<close>

record node_info =
  ni_peer_addr :: socket_addr
  ni_peer_cert_der :: bytes

datatype peer = PeerNode node_info | PeerClient socket_addr

fun peer_addr :: "peer \<Rightarrow> socket_addr" where
  "peer_addr (PeerNode node_info) = ni_peer_addr node_info"
| "peer_addr (PeerClient a) = a"

fun peer_cert_der :: "peer \<Rightarrow> bytes option" where
  "peer_cert_der (PeerNode node_info) = Some (ni_peer_cert_der node_info)"
| "peer_cert_der (PeerClient a) = None"

definition node_info_into_peer :: "node_info \<Rightarrow> peer" where
  "node_info_into_peer ni = PeerNode ni"

lemma peer_addr_node_info_into_peer [simp]:
  "peer_addr (node_info_into_peer ni) = ni_peer_addr ni"
  by (simp add: node_info_into_peer_def)

section \<open>Events (src/event.rs)\<close>

datatype event =
    BootstrapFailure
  | BootstrappedTo node_info
  | ConnectionFailure socket_addr
  | ConnectedTo peer
  | NewMessage socket_addr bytes
  | Finish

section \<open>Errors (src/error.rs)\<close>

text \<open>
  An error that wraps an error of another crate carries what that error
  displays as.
\<close>

datatype error =
    Io string
  | Read string
  | BiDirectionalStreamAttempted socket_addr
  | Connect string
  | ConnectionErr string
  | Endpoint string
  | CertificateParseError string
  | DuplicateConnectionToPeer socket_addr
  | NoEndpointEchoServerFound
  | OneShotRx string
  | TLS string
  | Bincode string
  | OperationNotAllowed
  | ConnectionCancelled
  | ChannelRecv string

text \<open>\<open>R<T>\<close> of \<open>src/utils.rs\<close>.\<close>

type_synonym 'a R = "error + 'a"

section \<open>Wire messages (src/wire_msg.rs)\<close>

datatype handshake = HandshakeNode bytes | HandshakeClient

datatype wire_msg =
    Handshake handshake
  | EndpointEchoReq
  | EndpointEchoResp socket_addr
  | UserMsg bytes

fun is_handshake :: "wire_msg \<Rightarrow> bool" where
  "is_handshake (Handshake h) = True"
| "is_handshake _ = False"

section \<open>Configuration data (src/config.rs)\<close>

datatype our_type = OurClient | OurNode

text \<open>\<open>impl Default for OurType\<close>\<close>

definition our_type_default :: our_type where
  "our_type_default = OurNode"

instantiation our_type :: default
begin

definition default_our_type :: our_type where
  "default_our_type = our_type_default"

instance ..

end

record serialisable_certificate =
  cert_der :: bytes
  key_der :: bytes

text \<open>
  A \<open>HashSet<NodeInfo>\<close> is the list of its elements in iteration order, which
  Rust leaves open; statements about it hold for every order.
\<close>

record config =
  cfg_hard_coded_contacts :: "node_info list"
  cfg_port :: "u16 option"
  cfg_ip :: "ip_addr option"
  cfg_max_msg_size_allowed :: "u32 option"
  cfg_idle_timeout_msec :: "u64 option"
  cfg_keep_alive_interval_msec :: "u32 option"
  cfg_our_complete_cert :: "serialisable_certificate option"
  cfg_our_type :: our_type

end
