(* ===== verification/Wire_Msg.thy ===== *)
theory Wire_Msg
  imports Net_Types
begin

text \<open>
  The wire format of \<open>src/wire_msg.rs\<close>: a user message above the threshold
  travels as its raw bytes, everything else is serialised by \<open>bincode\<close>, and
  the receiver decides by the length of what arrived. \<open>bincode\<close> is a parameter
  (a \<open>codec\<close>); what the code relies on is the locale \<open>bincode_wire\<close>.
\<close>

section \<open>Serialisation (src/wire_msg.rs)\<close>

record 'a codec =
  serialize :: "'a \<Rightarrow> string + bytes"
  deserialize :: "bytes \<Rightarrow> string + 'a"

definition MAX_MESSAGE_SIZE_FOR_SERIALISATION :: nat where
  "MAX_MESSAGE_SIZE_FOR_SERIALISATION = 1024"

text \<open>\<open>impl Into<Bytes> for WireMsg\<close>: a failing serialisation is an \<open>unwrap!\<close> panic.\<close>

definition into_bytes :: "wire_msg codec \<Rightarrow> wire_msg \<Rightarrow> panic + bytes" where
  "into_bytes C self =
    (let serialised = (case serialize C self of Inl e \<Rightarrow> Inl UnwrapOnError | Inr b \<Rightarrow> Inr b)
     in case self of
          UserMsg m \<Rightarrow>
            if length m > MAX_MESSAGE_SIZE_FOR_SERIALISATION then Inr m else serialised
        | _ \<Rightarrow> serialised)"

definition from_raw :: "wire_msg codec \<Rightarrow> bytes \<Rightarrow> wire_msg R" where
  "from_raw C raw =
    (if length raw > MAX_MESSAGE_SIZE_FOR_SERIALISATION then Inr (UserMsg raw)
     else case deserialize C raw of Inl e \<Rightarrow> Inl (Bincode e) | Inr m \<Rightarrow> Inr m)"

section \<open>What the code relies on from bincode\<close>

text \<open>
  Values that exist in Rust and that the serialisation keeps: the lengths fit a
  \<open>u64\<close>, and a V6 address carries no flow information or scope id (serde writes
  only address and port).
\<close>

fun addr_ok :: "socket_addr \<Rightarrow> bool" where
  "addr_ok (SocketAddrV4 a p) = True"
| "addr_ok (SocketAddrV6 a p fl sc) = (fl = 0 \<and> sc = 0)"

fun wire_ok :: "wire_msg \<Rightarrow> bool" where
  "wire_ok (Handshake (HandshakeNode c)) = (length c < 2 ^ 64)"
| "wire_ok (Handshake HandshakeClient) = True"
| "wire_ok EndpointEchoReq = True"
| "wire_ok (EndpointEchoResp a) = addr_ok a"
| "wire_ok (UserMsg m) = (length m < 2 ^ 64)"

text \<open>
  The layout \<open>bincode\<close> documents: an enum is its variant index as a \<open>u32\<close>
  followed by its fields, a byte string is its length as a \<open>u64\<close> followed by
  the bytes, and decoding inverts encoding.
\<close>

locale bincode_wire =
  fixes C :: "wire_msg codec"
  assumes ser_user: "\<exists>h. length h = 12 \<and> serialize C (UserMsg m) = Inr (h @ m)"
    and ser_node: "\<exists>h. length h = 16 \<and> serialize C (Handshake (HandshakeNode c)) = Inr (h @ c)"
    and ser_client: "\<exists>h. length h = 8 \<and> serialize C (Handshake HandshakeClient) = Inr h"
    and ser_req: "\<exists>h. length h = 4 \<and> serialize C EndpointEchoReq = Inr h"
    and ser_resp: "\<exists>h. length h \<le> 26 \<and> serialize C (EndpointEchoResp a) = Inr h"
    and deser_ser: "wire_ok w \<Longrightarrow> serialize C w = Inr bs \<Longrightarrow> deserialize C bs = Inr w"
begin

lemma serialize_total: "\<exists>bs. serialize C w = Inr bs"
proof (cases w)
  case (Handshake h)
  then show ?thesis using ser_node ser_client by (cases h) blast+
next
  case (EndpointEchoResp a)
  then show ?thesis using ser_resp by blast
qed (use ser_req ser_user in blast)+

lemma into_bytes_total: "\<exists>bs. into_bytes C w = Inr bs"
proof -
  obtain bs where "serialize C w = Inr bs" using serialize_total by blast
  then show ?thesis by (cases w) (simp_all add: into_bytes_def)
qed

lemma from_raw_small:
  "wire_ok w \<Longrightarrow> serialize C w = Inr bs \<Longrightarrow> length bs \<le> 1024 \<Longrightarrow> from_raw C bs = Inr w"
  by (simp add: from_raw_def MAX_MESSAGE_SIZE_FOR_SERIALISATION_def deser_ser)

lemma from_raw_large:
  "length bs > 1024 \<Longrightarrow> from_raw C bs = Inr (UserMsg bs)"
  by (simp add: from_raw_def MAX_MESSAGE_SIZE_FOR_SERIALISATION_def)

lemma user_msg_raw:
  assumes "length m > 1024"
  shows "into_bytes C (UserMsg m) = Inr m \<and> from_raw C m = Inr (UserMsg m)"
  using assms from_raw_large
  by (simp add: into_bytes_def MAX_MESSAGE_SIZE_FOR_SERIALISATION_def)

lemma user_msg_serialised:
  assumes "length m \<le> 1024"
  obtains h where "length h = 12" and "serialize C (UserMsg m) = Inr (h @ m)"
    and "into_bytes C (UserMsg m) = Inr (h @ m)"
proof -
  obtain h where "length h = 12" "serialize C (UserMsg m) = Inr (h @ m)"
    using ser_user by blast
  with assms show thesis
    by (intro that [of h]) (simp_all add: into_bytes_def MAX_MESSAGE_SIZE_FOR_SERIALISATION_def)
qed

lemma user_msg_roundtrip:
  assumes "length m \<le> 1012 \<or> 1024 < length m"
  shows "\<exists>bs. into_bytes C (UserMsg m) = Inr bs \<and> from_raw C bs = Inr (UserMsg m)"
proof (cases "1024 < length m")
  case True
  then show ?thesis using user_msg_raw by blast
next
  case False
  with assms have len: "length m \<le> 1012" by simp
  then obtain h where "length h = 12" "serialize C (UserMsg m) = Inr (h @ m)"
      "into_bytes C (UserMsg m) = Inr (h @ m)"
    using user_msg_serialised [of m] by auto
  with len show ?thesis using from_raw_small [of "UserMsg m"] by auto
qed

text \<open>
  Between 1013 and 1024 bytes the serialised form is longer than the threshold,
  so the receiver takes header and message together for a raw user message.
\<close>

lemma user_msg_header_kept:
  assumes "1012 < length m" and "length m \<le> 1024"
  shows "\<exists>h. length h = 12 \<and> into_bytes C (UserMsg m) = Inr (h @ m) \<and>
    from_raw C (h @ m) = Inr (UserMsg (h @ m))"
proof -
  obtain h where "length h = 12" "into_bytes C (UserMsg m) = Inr (h @ m)"
    using user_msg_serialised [OF assms(2)] by blast
  moreover from this have "from_raw C (h @ m) = Inr (UserMsg (h @ m))"
    using assms(1) by (intro from_raw_large) simp
  ultimately show ?thesis by blast
qed

lemma handshake_node_roundtrip:
  assumes "length c \<le> 1008"
  shows "\<exists>bs. into_bytes C (Handshake (HandshakeNode c)) = Inr bs \<and>
    from_raw C bs = Inr (Handshake (HandshakeNode c))"
proof -
  obtain h where h: "length h = 16" "serialize C (Handshake (HandshakeNode c)) = Inr (h @ c)"
    using ser_node by blast
  with assms have "from_raw C (h @ c) = Inr (Handshake (HandshakeNode c))"
    by (intro from_raw_small) auto
  with h(2) show ?thesis by (auto simp: into_bytes_def)
qed

text \<open>What is written for a message, with its length\<close>

lemma user_msg_stream:
  assumes "length m \<le> 1012 \<or> 1024 < length m"
  shows "\<exists>raw. into_bytes C (UserMsg m) = Inr raw \<and> length raw \<le> length m + 12 \<and> from_raw C raw = Inr (UserMsg m)"
proof (cases "1024 < length m")
  case True
  then show ?thesis using user_msg_raw by auto
next
  case False
  then obtain h where "length h = 12" "into_bytes C (UserMsg m) = Inr (h @ m)"
    using user_msg_serialised [of m] by (metis not_less)
  then show ?thesis using user_msg_roundtrip [OF assms] by auto
qed

lemma handshake_node_stream:
  assumes "length c \<le> 1008"
  shows "\<exists>raw. into_bytes C (Handshake (HandshakeNode c)) = Inr raw \<and> length raw \<le> 1024 \<and>
    from_raw C raw = Inr (Handshake (HandshakeNode c))"
proof -
  obtain h where "length h = 16" "serialize C (Handshake (HandshakeNode c)) = Inr (h @ c)"
    using ser_node by blast
  then have "into_bytes C (Handshake (HandshakeNode c)) = Inr (h @ c) \<and> length (h @ c) \<le> 1024"
    using assms by (simp add: into_bytes_def)
  then show ?thesis using handshake_node_roundtrip [OF assms] by auto
qed

lemma handshake_node_lost:
  assumes "1008 < length c"
  shows "\<exists>bs. into_bytes C (Handshake (HandshakeNode c)) = Inr bs \<and>
    from_raw C bs = Inr (UserMsg bs)"
proof -
  obtain h where h: "length h = 16" "serialize C (Handshake (HandshakeNode c)) = Inr (h @ c)"
    using ser_node by blast
  with assms have "from_raw C (h @ c) = Inr (UserMsg (h @ c))"
    by (intro from_raw_large) simp
  with h(2) show ?thesis by (auto simp: into_bytes_def)
qed

lemma control_msg_roundtrip:
  assumes "w = Handshake HandshakeClient \<or> w = EndpointEchoReq \<or>
    (\<exists>a. w = EndpointEchoResp a \<and> addr_ok a)"
  shows "\<exists>bs. into_bytes C w = Inr bs \<and> from_raw C bs = Inr w"
proof -
  obtain bs where "serialize C w = Inr bs" "length bs \<le> 1024"
    using assms ser_client ser_req ser_resp by fastforce
  moreover from assms have "wire_ok w" by auto
  ultimately have "from_raw C bs = Inr w" by (intro from_raw_small)
  with \<open>serialize C w = Inr bs\<close> assms show ?thesis
    by (auto simp: into_bytes_def)
qed

end

end
