(* ===== verification/Bincode_Format.thy ===== *)
theory Bincode_Format
  imports Wire_Msg
begin

text \<open>
  A codec with the layout that \<open>bincode\<close> 1.x documents for its default
  configuration (little-endian fixed-width integers, \<open>u32\<close> variant indices,
  \<open>u64\<close> lengths, trailing input ignored), for the types this program
  serialises. It is no translation of a source file: it instantiates the
  parameters of \<open>Wire_Msg\<close>, \<open>Bootstrap_Cache\<close> and \<open>Config_Store\<close>, which
  shows that what those theories assume of the serialisation can be met.
\<close>

section \<open>Prefix codecs\<close>

text \<open>
  A decoder takes its value off the front of the input and hands back the rest.
  \<open>ok\<close> singles out the values the encoding can represent.
\<close>

locale prefix_codec =
  fixes enc :: "'a \<Rightarrow> bytes"
    and dec :: "bytes \<Rightarrow> ('a \<times> bytes) option"
    and ok :: "'a \<Rightarrow> bool"
  assumes dec_enc: "ok x \<Longrightarrow> dec (enc x @ rest) = Some (x, rest)"
begin

lemma dec_enc_Nil: "ok x \<Longrightarrow> dec (enc x) = Some (x, [])"
  using dec_enc [of x "[]"] by simp

lemma enc_inj: "ok x \<Longrightarrow> ok y \<Longrightarrow> enc x = enc y \<Longrightarrow> x = y"
  by (metis dec_enc_Nil option.inject prod.inject)

end

section \<open>Fixed-width integers\<close>

fun enc_le :: "nat \<Rightarrow> nat \<Rightarrow> bytes" where
  "enc_le 0 k = []"
| "enc_le (Suc n) k = of_nat (k mod 256) # enc_le n (k div 256)"

fun dec_le :: "nat \<Rightarrow> bytes \<Rightarrow> (nat \<times> bytes) option" where
  "dec_le 0 bs = Some (0, bs)"
| "dec_le (Suc n) [] = None"
| "dec_le (Suc n) (b # bs) =
     (case dec_le n bs of None \<Rightarrow> None | Some (k, rest) \<Rightarrow> Some (unat b + 256 * k, rest))"

lemma length_enc_le [simp]: "length (enc_le n k) = n"
  by (induction n arbitrary: k) auto

lemma unat_byte_mod [simp]: "unat (of_nat (k mod 256) :: byte) = k mod 256"
  by (simp add: unat_of_nat)

lemma dec_enc_le: "k < 256 ^ n \<Longrightarrow> dec_le n (enc_le n k @ rest) = Some (k, rest)"
proof (induction n arbitrary: k)
  case 0
  then show ?case by simp
next
  case (Suc n)
  then have "k div 256 < 256 ^ n"
    by (simp add: less_mult_imp_div_less mult.commute)
  from Suc.IH [OF this] show ?case by simp
qed

interpretation le_int: prefix_codec "enc_le n" "dec_le n" "\<lambda>k. k < 256 ^ n" for n
  by unfold_locales (rule dec_enc_le)

section \<open>Byte strings\<close>

definition enc_bytes :: "bytes \<Rightarrow> bytes" where
  "enc_bytes b = enc_le 8 (length b) @ b"

definition dec_bytes :: "bytes \<Rightarrow> (bytes \<times> bytes) option" where
  "dec_bytes bs =
    (case dec_le 8 bs of
       None \<Rightarrow> None
     | Some (n, rest) \<Rightarrow> if n \<le> length rest then Some (take n rest, drop n rest) else None)"

interpretation byte_string: prefix_codec enc_bytes dec_bytes "\<lambda>b. length b < 2 ^ 64"
proof
  fix b rest :: bytes
  assume "length b < 2 ^ 64"
  then have "length b < 256 ^ 8" by simp
  from dec_enc_le [OF this, of "b @ rest"]
  show "dec_bytes (enc_bytes b @ rest) = Some (b, rest)"
    by (simp add: dec_bytes_def enc_bytes_def)
qed

section \<open>Socket addresses\<close>

text \<open>
  Octets are in network order; serde writes address and port only.
\<close>

fun enc_addr :: "socket_addr \<Rightarrow> bytes" where
  "enc_addr (SocketAddrV4 a p) = enc_le 4 0 @ rev (enc_le 4 (unat a)) @ enc_le 2 (unat p)"
| "enc_addr (SocketAddrV6 a p fl sc) = enc_le 4 1 @ rev (enc_le 16 (unat a)) @ enc_le 2 (unat p)"

definition dec_be :: "nat \<Rightarrow> bytes \<Rightarrow> (nat \<times> bytes) option" where
  "dec_be n bs =
    (if length bs < n then None
     else case dec_le n (rev (take n bs)) of
            None \<Rightarrow> None | Some (k, _) \<Rightarrow> Some (k, drop n bs))"

lemma dec_be_rev_enc_le:
  "k < 256 ^ n \<Longrightarrow> dec_be n (rev (enc_le n k) @ rest) = Some (k, rest)"
  using dec_enc_le [of k n "[]"] by (simp add: dec_be_def)

definition dec_ip_port :: "nat \<Rightarrow> bytes \<Rightarrow> ((nat \<times> u16) \<times> bytes) option" where
  "dec_ip_port n bs =
    (case dec_be n bs of
       None \<Rightarrow> None
     | Some (a, r) \<Rightarrow>
         (case dec_le 2 r of None \<Rightarrow> None | Some (p, r') \<Rightarrow> Some ((a, of_nat p), r')))"

lemma unat_u16_256: "unat (w :: u16) < 256 ^ 2"
  using unsigned_less [where ?'a = nat, of w] by simp

lemma unat_u32_256: "unat (w :: u32) < 256 ^ 4"
  using unsigned_less [where ?'a = nat, of w] by simp

lemma unat_u64_256: "unat (w :: u64) < 256 ^ 8"
  using unsigned_less [where ?'a = nat, of w] by simp

lemma unat_u128_256: "unat (w :: 128 word) < 256 ^ 16"
  using unsigned_less [where ?'a = nat, of w] by simp

lemma dec_ip_port_enc:
  "a < 256 ^ n \<Longrightarrow>
    dec_ip_port n (rev (enc_le n a) @ enc_le 2 (unat (p::u16)) @ rest) = Some ((a, p), rest)"
  using dec_be_rev_enc_le [of a n] dec_enc_le [OF unat_u16_256 [of p], of rest]
  by (simp add: dec_ip_port_def)

definition dec_addr :: "bytes \<Rightarrow> (socket_addr \<times> bytes) option" where
  "dec_addr bs =
    (case dec_le 4 bs of
       None \<Rightarrow> None
     | Some (v, r) \<Rightarrow>
         if v = 0 then
           (case dec_ip_port 4 r of
              None \<Rightarrow> None | Some ((a, p), r') \<Rightarrow> Some (SocketAddrV4 (of_nat a) p, r'))
         else if v = 1 then
           (case dec_ip_port 16 r of
              None \<Rightarrow> None | Some ((a, p), r') \<Rightarrow> Some (SocketAddrV6 (of_nat a) p 0 0, r'))
         else None)"

lemma dec_le_tag: "k < 256 ^ 4 \<Longrightarrow> dec_le 4 (enc_le 4 k @ rest) = Some (k, rest)"
  by (rule dec_enc_le)

interpretation sock_addr: prefix_codec enc_addr dec_addr addr_ok
proof
  fix x rest
  assume ok: "addr_ok x"
  show "dec_addr (enc_addr x @ rest) = Some (x, rest)"
  proof (cases x)
    case (SocketAddrV4 a p)
    then show ?thesis
      using dec_ip_port_enc [OF unat_u32_256 [of a]] by (simp add: dec_addr_def dec_le_tag)
  next
    case (SocketAddrV6 a p fl sc)
    then show ?thesis
      using ok dec_ip_port_enc [OF unat_u128_256 [of a]] by (simp add: dec_addr_def dec_le_tag)
  qed
qed

lemma length_enc_addr: "length (enc_addr a) \<le> 22"
  by (cases a) simp_all

section \<open>Wire messages\<close>

fun enc_wire :: "wire_msg \<Rightarrow> bytes" where
  "enc_wire (Handshake (HandshakeNode c)) = enc_le 4 0 @ enc_le 4 0 @ enc_bytes c"
| "enc_wire (Handshake HandshakeClient) = enc_le 4 0 @ enc_le 4 1"
| "enc_wire EndpointEchoReq = enc_le 4 1"
| "enc_wire (EndpointEchoResp a) = enc_le 4 2 @ enc_addr a"
| "enc_wire (UserMsg m) = enc_le 4 3 @ enc_bytes m"

definition dec_handshake :: "bytes \<Rightarrow> (handshake \<times> bytes) option" where
  "dec_handshake bs =
    (case dec_le 4 bs of
       None \<Rightarrow> None
     | Some (v, r) \<Rightarrow>
         if v = 0 then map_option (map_prod HandshakeNode id) (dec_bytes r)
         else if v = 1 then Some (HandshakeClient, r)
         else None)"

definition dec_wire :: "bytes \<Rightarrow> (wire_msg \<times> bytes) option" where
  "dec_wire bs =
    (case dec_le 4 bs of
       None \<Rightarrow> None
     | Some (v, r) \<Rightarrow>
         if v = 0 then map_option (map_prod Handshake id) (dec_handshake r)
         else if v = 1 then Some (EndpointEchoReq, r)
         else if v = 2 then map_option (map_prod EndpointEchoResp id) (dec_addr r)
         else if v = 3 then map_option (map_prod UserMsg id) (dec_bytes r)
         else None)"

interpretation wire: prefix_codec enc_wire dec_wire wire_ok
proof
  fix x rest
  assume ok: "wire_ok x"
  show "dec_wire (enc_wire x @ rest) = Some (x, rest)"
  proof (cases x)
    case (Handshake h)
    then show ?thesis
      using ok by (cases h)
        (simp_all add: dec_wire_def dec_handshake_def dec_le_tag byte_string.dec_enc)
  qed (use ok in \<open>simp_all add: dec_wire_def dec_le_tag byte_string.dec_enc sock_addr.dec_enc\<close>)
qed

text \<open>A prefix codec read as a \<open>bincode\<close> codec: trailing bytes are ignored.\<close>

definition prefix_to_codec ::
  "('a \<Rightarrow> bytes) \<Rightarrow> (bytes \<Rightarrow> ('a \<times> bytes) option) \<Rightarrow> 'a codec" where
  "prefix_to_codec enc dec =
    \<lparr>serialize = (\<lambda>x. Inr (enc x)),
     deserialize = (\<lambda>bs. case dec bs of None \<Rightarrow> Inl ''io error: unexpected end of file''
                                    | Some (x, _) \<Rightarrow> Inr x)\<rparr>"

context prefix_codec
begin

lemma deserialize_serialize:
  "ok x \<Longrightarrow> serialize (prefix_to_codec enc dec) x = Inr bs \<Longrightarrow>
    deserialize (prefix_to_codec enc dec) bs = Inr x"
  by (auto simp: prefix_to_codec_def dec_enc_Nil)

end

definition bincode_codec :: "wire_msg codec" where
  "bincode_codec = prefix_to_codec enc_wire dec_wire"

interpretation bincode: bincode_wire bincode_codec
proof
  fix m c a
  show "\<exists>h. length h = 12 \<and> serialize bincode_codec (UserMsg m) = Inr (h @ m)"
    by (rule exI [of _ "enc_le 4 3 @ enc_le 8 (length m)"])
      (simp add: bincode_codec_def prefix_to_codec_def enc_bytes_def)
  show "\<exists>h. length h = 16 \<and> serialize bincode_codec (Handshake (HandshakeNode c)) = Inr (h @ c)"
    by (rule exI [of _ "enc_le 4 0 @ enc_le 4 0 @ enc_le 8 (length c)"])
      (simp add: bincode_codec_def prefix_to_codec_def enc_bytes_def)
  show "\<exists>h. length h = 8 \<and> serialize bincode_codec (Handshake HandshakeClient) = Inr h"
    "\<exists>h. length h = 4 \<and> serialize bincode_codec EndpointEchoReq = Inr h"
    by (simp_all add: bincode_codec_def prefix_to_codec_def)
  show "\<exists>h. length h \<le> 26 \<and> serialize bincode_codec (EndpointEchoResp a) = Inr h"
    using length_enc_addr [of a] by (simp add: bincode_codec_def prefix_to_codec_def)
next
  fix w bs
  assume "wire_ok w" and "serialize bincode_codec w = Inr bs"
  then show "deserialize bincode_codec bs = Inr w"
    unfolding bincode_codec_def by (rule wire.deserialize_serialize)
qed

end
