(* ===== verification/Wire_Properties.thy ===== *)
theory Wire_Properties
  imports Bincode_Format
begin

text \<open>
  What arrives of what was sent: the properties of the wire format under the
  layout of \<open>bincode\<close>, \<open>bincode_wire\<close>, which \<open>bincode_codec\<close> satisfies.
\<close>

lemmas user_roundtrip = bincode_wire.user_msg_roundtrip
lemmas user_header = bincode_wire.user_msg_header_kept

section \<open>User messages\<close>

text \<open>
  C18. A user message arrives as it was sent exactly when its length is not between
  1013 and 1024 bytes: below, the serialised form fits the threshold that separates
  serialised from raw messages; above, the message travels raw; in between the
  receiver takes the serialised form for a raw message.
\<close>

theorem user_msg_roundtrip_iff:
  assumes "bincode_wire C"
  shows "(\<exists>bs. into_bytes C (UserMsg m) = Inr bs \<and> from_raw C bs = Inr (UserMsg m)) \<longleftrightarrow>
    length m \<le> 1012 \<or> 1024 < length m"
proof
  assume "length m \<le> 1012 \<or> 1024 < length m"
  then show "\<exists>bs. into_bytes C (UserMsg m) = Inr bs \<and> from_raw C bs = Inr (UserMsg m)"
    by (rule user_roundtrip [OF assms])
next
  assume "\<exists>bs. into_bytes C (UserMsg m) = Inr bs \<and> from_raw C bs = Inr (UserMsg m)"
  then show "length m \<le> 1012 \<or> 1024 < length m"
    using user_header [OF assms, of m] by (cases "length m \<le> 1012 \<or> 1024 < length m") auto
qed

theorem user_msg_roundtrip_iff_witness:
  "bincode_wire bincode_codec \<and>
   (\<exists>bs. into_bytes bincode_codec (UserMsg [1, 2, 3]) = Inr bs \<and>
      from_raw bincode_codec bs = Inr (UserMsg [1, 2, 3])) \<and>
   \<not> (\<exists>bs. into_bytes bincode_codec (UserMsg (replicate 1020 0)) = Inr bs \<and>
      from_raw bincode_codec bs = Inr (UserMsg (replicate 1020 0)))"
  using user_msg_roundtrip_iff [OF bincode.bincode_wire_axioms, of "[1, 2, 3]"]
    user_msg_roundtrip_iff [OF bincode.bincode_wire_axioms, of "replicate 1020 0"]
    bincode.bincode_wire_axioms by simp

text \<open>
  A user message of 1013 to 1024 bytes is delivered with twelve bytes of
  serialisation header in front of it: the receiver gets a user message that nobody
  sent.
\<close>

theorem user_msg_arrives_with_header:
  assumes "bincode_wire C" and "1012 < length m" and "length m \<le> 1024"
  shows "\<exists>h. length h = 12 \<and> into_bytes C (UserMsg m) = Inr (h @ m) \<and>
    from_raw C (h @ m) = Inr (UserMsg (h @ m))"
  by (rule user_header [OF assms])

theorem user_msg_arrives_with_header_witness:
  "\<exists>h. length h = 12 \<and>
     into_bytes bincode_codec (UserMsg (replicate 1013 5)) = Inr (h @ replicate 1013 5) \<and>
     from_raw bincode_codec (h @ replicate 1013 5) = Inr (UserMsg (h @ replicate 1013 5))"
  using user_msg_arrives_with_header [OF bincode.bincode_wire_axioms, of "replicate 1013 5"] by simp

section \<open>Handshakes and control messages\<close>

text \<open>
  C19. The handshake of a node arrives as a handshake exactly when its certificate
  has at most 1008 bytes; a longer one arrives as a user message, so the receiver
  never learns the certificate and never connects back.
\<close>

theorem node_handshake_roundtrip_iff:
  assumes "bincode_wire C"
  shows "\<exists>bs. into_bytes C (Handshake (HandshakeNode c)) = Inr bs \<and>
    from_raw C bs =
      Inr (if length c \<le> 1008 then Handshake (HandshakeNode c) else UserMsg bs)"
  using bincode_wire.handshake_node_roundtrip [OF assms, of c]
    bincode_wire.handshake_node_lost [OF assms, of c]
  by (cases "length c \<le> 1008") simp_all

theorem node_handshake_roundtrip_iff_witness:
  "\<exists>bs. into_bytes bincode_codec (Handshake (HandshakeNode (replicate 1009 1))) = Inr bs \<and>
     from_raw bincode_codec bs = Inr (UserMsg bs)"
  using node_handshake_roundtrip_iff [OF bincode.bincode_wire_axioms, of "replicate 1009 1"] by simp

text \<open>
  The client handshake, the echo request and the echo response with an address
  that serde keeps arrive as they were sent, and serialising any message never
  panics.
\<close>

theorem control_messages_roundtrip:
  assumes "bincode_wire C"
  shows "(\<exists>bs. into_bytes C w = Inr bs) \<and>
    (w = Handshake HandshakeClient \<or> w = EndpointEchoReq \<or> (\<exists>a. w = EndpointEchoResp a \<and> addr_ok a)
      \<longrightarrow> (\<exists>bs. into_bytes C w = Inr bs \<and> from_raw C bs = Inr w))"
  using bincode_wire.control_msg_roundtrip [OF assms, of w] bincode_wire.into_bytes_total [OF assms, of w]
  by blast

theorem control_messages_roundtrip_witness:
  "\<exists>bs. into_bytes bincode_codec (EndpointEchoResp (SocketAddrV4 1 2)) = Inr bs \<and>
     from_raw bincode_codec bs = Inr (EndpointEchoResp (SocketAddrV4 1 2))"
  using control_messages_roundtrip [OF bincode.bincode_wire_axioms, of "EndpointEchoResp (SocketAddrV4 1 2)"]
  by simp

end
