(* ===== verification/Disk_Store.thy ===== *)
theory Disk_Store
  imports Wire_Msg
begin

text \<open>
  The file system as the program uses it: \<open>read_from_disk\<close> and
  \<open>write_to_disk\<close> of \<open>src/utils.rs\<close> and the directory choice of
  \<open>src/dirs.rs\<close>. Every access to the operating system may fail: the \<open>disk\<close>
  carries an arbitrary sequence of outcomes, and each access takes the next one.
\<close>

section \<open>Paths and the file system\<close>

type_synonym path = "string list"

definition path_join :: "path \<Rightarrow> string \<Rightarrow> path" where
  "path_join p s = p @ [s]"

definition path_parent :: "path \<Rightarrow> path option" where
  "path_parent p = (if p = [] then None else Some (butlast p))"

text \<open>
  \<open>io_fault n\<close> says that the \<open>n\<close>-th access fails, \<open>io_written n\<close> how many
  bytes a failing write got to the disk.
\<close>

record disk =
  files :: "path \<rightharpoonup> bytes"
  created_dirs :: "path list"
  io_fault :: "nat \<Rightarrow> bool"
  io_written :: "nat \<Rightarrow> nat"
  io_seq :: nat

definition io_step :: "disk \<Rightarrow> bool \<times> disk" where
  "io_step d = (io_fault d (io_seq d), d\<lparr>io_seq := Suc (io_seq d)\<rparr>)"

definition put_file :: "path \<Rightarrow> bytes \<Rightarrow> disk \<Rightarrow> disk" where
  "put_file p bs d = d\<lparr>files := (files d)(p \<mapsto> bs)\<rparr>"

definition path_exists :: "path \<Rightarrow> disk \<Rightarrow> bool" where
  "path_exists p d \<longleftrightarrow> p \<in> dom (files d) \<or> p \<in> set (created_dirs d)"

definition create_dir_all :: "path \<Rightarrow> disk \<Rightarrow> unit R \<times> disk" where
  "create_dir_all p d =
    (let (fault, d1) = io_step d
     in if fault then (Inl (Io ''create_dir_all''), d1)
        else (Inr (), d1\<lparr>created_dirs := p # created_dirs d1\<rparr>))"

text \<open>No access fails from here on.\<close>

definition io_reliable :: "disk \<Rightarrow> bool" where
  "io_reliable d \<longleftrightarrow> (\<forall>n \<ge> io_seq d. \<not> io_fault d n)"

section \<open>Reading and writing values (src/utils.rs)\<close>

text \<open>
  In both functions an \<open>io::Error\<close> is turned into a \<open>bincode\<close> error before
  it becomes an \<open>Error\<close>.
\<close>

definition read_from_disk :: "'a codec \<Rightarrow> path \<Rightarrow> disk \<Rightarrow> 'a R \<times> disk" where
  "read_from_disk C file_path d =
    (let (fault, d1) = io_step d
     in if fault then (Inl (Bincode ''io error''), d1)
        else case files d1 file_path of
               None \<Rightarrow> (Inl (Bincode ''io error: not found''), d1)
             | Some bs \<Rightarrow>
                 (case deserialize C bs of
                    Inl e \<Rightarrow> (Inl (Bincode e), d1)
                  | Inr v \<Rightarrow> (Inr v, d1)))"

text \<open>
  \<open>File::create\<close> truncates; the value goes through a \<open>BufWriter\<close>, whose
  destructor flushes what is still buffered and ignores a failure to do so.
\<close>

definition write_to_disk :: "'a codec \<Rightarrow> path \<Rightarrow> 'a \<Rightarrow> disk \<Rightarrow> unit R \<times> disk" where
  "write_to_disk C file_path s d =
    (let (create_fault, d1) = io_step d
     in if create_fault then (Inl (Bincode ''io error''), d1)
        else
          let d2 = put_file file_path [] d1
          in case serialize C s of
               Inl e \<Rightarrow> (Inl (Bincode e), d2)
             | Inr bs \<Rightarrow>
                 let (write_fault, d3) = io_step d2
                 in if write_fault
                    then (Inl (Bincode ''io error''),
                          put_file file_path (take (io_written d2 (io_seq d2)) bs) d3)
                    else
                      let (flush_fault, d4) = io_step d3
                      in (Inr (),
                          put_file file_path
                            (if flush_fault then take (io_written d3 (io_seq d3)) bs else bs) d4))"

section \<open>Directories (src/dirs.rs)\<close>

record project_dirs =
  pd_config_dir :: path
  pd_cache_dir :: path
  pd_data_dir :: path

datatype dirs = Overide path | Desktop project_dirs

fun config_dir :: "dirs \<Rightarrow> path" where
  "config_dir (Overide x) = x"
| "config_dir (Desktop x) = pd_config_dir x"

fun cache_dir :: "dirs \<Rightarrow> path" where
  "cache_dir (Overide x) = x"
| "cache_dir (Desktop x) = pd_cache_dir x"

fun data_dir :: "dirs \<Rightarrow> path" where
  "data_dir (Overide x) = x"
| "data_dir (Desktop x) = pd_data_dir x"

text \<open>\<open>utils::project_dir\<close>; the argument is what the \<open>directories\<close> crate answers.\<close>

definition project_dir :: "project_dirs option \<Rightarrow> dirs R" where
  "project_dir found =
    (case found of None \<Rightarrow> Inl (Io ''entity not found'') | Some ds \<Rightarrow> Inr (Desktop ds))"

section \<open>Lemmas\<close>

lemma io_step_simps [simp]:
  "fst (io_step d) = io_fault d (io_seq d)"
  "snd (io_step d) = d\<lparr>io_seq := Suc (io_seq d)\<rparr>"
  by (simp_all add: io_step_def)

lemma put_file_simps [simp]:
  "files (put_file p bs d) = (files d)(p \<mapsto> bs)"
  "io_seq (put_file p bs d) = io_seq d"
  "io_fault (put_file p bs d) = io_fault d"
  "io_written (put_file p bs d) = io_written d"
  "created_dirs (put_file p bs d) = created_dirs d"
  by (simp_all add: put_file_def)

lemma put_file_twice [simp]: "put_file p x (put_file p y d) = put_file p x d"
  by (simp add: put_file_def)

lemma io_reliable_now: "io_reliable d \<Longrightarrow> \<not> io_fault d (io_seq d)"
  by (simp add: io_reliable_def)

lemma io_reliable_later:
  "io_reliable d \<Longrightarrow> io_fault d' = io_fault d \<Longrightarrow> io_seq d \<le> io_seq d' \<Longrightarrow> io_reliable d'"
  by (simp add: io_reliable_def)

lemma write_to_disk_frame:
  "io_fault (snd (write_to_disk C p v d)) = io_fault d"
  "created_dirs (snd (write_to_disk C p v d)) = created_dirs d"
  "io_seq d \<le> io_seq (snd (write_to_disk C p v d))"
  "q \<noteq> p \<Longrightarrow> files (snd (write_to_disk C p v d)) q = files d q"
  by (simp_all add: write_to_disk_def io_step_def Let_def split: sum.splits)

lemma write_to_disk_reliable:
  assumes "io_reliable d" and "serialize C v = Inr bs"
  shows "fst (write_to_disk C p v d) = Inr ()"
    and "files (snd (write_to_disk C p v d)) p = Some bs"
    and "io_reliable (snd (write_to_disk C p v d))"
  using assms by (auto simp: write_to_disk_def io_reliable_def io_step_def Let_def)

lemma read_from_disk_reliable:
  assumes "io_reliable d" and "files d p = Some bs" and "deserialize C bs = Inr v"
  shows "fst (read_from_disk C p d) = Inr v"
  using assms by (simp add: read_from_disk_def io_step_def Let_def io_reliable_def)

lemma read_from_disk_frame:
  "files (snd (read_from_disk C p d)) = files d"
  "io_fault (snd (read_from_disk C p d)) = io_fault d"
  "created_dirs (snd (read_from_disk C p d)) = created_dirs d"
  "io_seq (snd (read_from_disk C p d)) = Suc (io_seq d)"
  by (simp_all add: read_from_disk_def io_step_def Let_def split: option.splits sum.splits)

section \<open>What the callers rely on from the serialisation of a value\<close>

locale faithful_codec =
  fixes C :: "'a codec"
    and ok :: "'a \<Rightarrow> bool"
  assumes codec_faithful:
    "ok v \<Longrightarrow> \<exists>bs. serialize C v = Inr bs \<and> deserialize C bs = Inr v"
begin

text \<open>A value written while no access fails is the value read back.\<close>

lemma write_read_roundtrip:
  assumes rel: "io_reliable d" and "ok v"
  shows "fst (write_to_disk C p v d) = Inr ()"
    and "p \<in> dom (files (snd (write_to_disk C p v d)))"
    and "fst (read_from_disk C p (snd (write_to_disk C p v d))) = Inr v"
proof -
  obtain bs where ser: "serialize C v = Inr bs" and deser: "deserialize C bs = Inr v"
    using codec_faithful [OF \<open>ok v\<close>] by blast
  note w = write_to_disk_reliable [OF rel ser, of p]
  show "fst (write_to_disk C p v d) = Inr ()" by (rule w(1))
  show "p \<in> dom (files (snd (write_to_disk C p v d)))" using w(2) by blast
  show "fst (read_from_disk C p (snd (write_to_disk C p v d))) = Inr v"
    by (rule read_from_disk_reliable [OF w(3) w(2) deser])
qed

end

end
