(* ===== verification/Config_Store.thy ===== *)
theory Config_Store
  imports Disk_Store
begin

text \<open>
  \<open>Config\<close> of \<open>src/config.rs\<close>: where the configuration file is, reading it,
  and constructing and writing a default one when there is none. The generated
  certificate (\<open>rcgen\<close>) and the serialisation are parameters.
\<close>

section \<open>Operations\<close>

definition config_path :: "project_dirs option \<Rightarrow> dirs option \<Rightarrow> path R" where
  "config_path found user_override =
    (let path_of = (\<lambda>dir. path_join (config_dir dir) ''config'')
     in case user_override of
          None \<Rightarrow> (case project_dir found of Inl e \<Rightarrow> Inl e | Inr dir \<Rightarrow> Inr (path_of dir))
        | Some dir \<Rightarrow> Inr (path_of dir))"

text \<open>The derived \<open>Default\<close> of \<open>Config\<close>.\<close>

definition config_default :: config where
  "config_default =
    \<lparr>cfg_hard_coded_contacts = [], cfg_port = None, cfg_ip = None,
     cfg_max_msg_size_allowed = None, cfg_idle_timeout_msec = None,
     cfg_keep_alive_interval_msec = None, cfg_our_complete_cert = None,
     cfg_our_type = default\<rparr>"

definition with_default_cert :: "serialisable_certificate \<Rightarrow> config" where
  "with_default_cert generated = config_default\<lparr>cfg_our_complete_cert := Some generated\<rparr>"

definition read_or_construct_default ::
  "config codec \<Rightarrow> project_dirs option \<Rightarrow> serialisable_certificate \<Rightarrow> dirs option \<Rightarrow> disk
    \<Rightarrow> config R \<times> disk" where
  "read_or_construct_default C found generated user_override d =
    (case config_path found user_override of
       Inl e \<Rightarrow> (Inl e, d)
     | Inr p \<Rightarrow>
         if path_exists p d then read_from_disk C p d
         else case path_parent p of
                None \<Rightarrow> (Inl (Io ''entity not found''), d)
              | Some dir \<Rightarrow>
                  (case create_dir_all dir d of
                     (Inl e, d1) \<Rightarrow> (Inl e, d1)
                   | (Inr _, d1) \<Rightarrow>
                       let cfg = with_default_cert generated
                       in case write_to_disk C p cfg d1 of
                            (Inl e, d2) \<Rightarrow> (Inl e, d2)
                          | (Inr _, d2) \<Rightarrow> (Inr cfg, d2)))"

section \<open>Construction, then reading back\<close>

lemma path_parent_join [simp]: "path_parent (path_join p s) = Some p"
  by (simp add: path_parent_def path_join_def)

lemma create_dir_all_reliable:
  assumes "io_reliable d"
  shows "create_dir_all p d =
    (Inr (), d\<lparr>io_seq := Suc (io_seq d), created_dirs := p # created_dirs d\<rparr>)"
  using assms io_reliable_now [of d] by (simp add: create_dir_all_def io_step_def)

text \<open>
  A call leaves every existing file as it is: it writes only where there is none.
\<close>

lemma create_dir_all_frame:
  "files (snd (create_dir_all p d)) = files d"
  "io_fault (snd (create_dir_all p d)) = io_fault d"
  "io_seq (snd (create_dir_all p d)) = Suc (io_seq d)"
  by (simp_all add: create_dir_all_def io_step_def)

lemma config_path_parent: "config_path found ov = Inr p \<Longrightarrow> \<exists>dir. path_parent p = Some dir"
  by (auto simp: config_path_def split: option.splits sum.splits)

lemma read_or_construct_keeps:
  assumes "files d p = Some bs"
  shows "files (snd (read_or_construct_default C found g ov d)) p = Some bs"
    and "io_reliable d \<Longrightarrow> io_reliable (snd (read_or_construct_default C found g ov d))"
proof -
  let ?d = "snd (read_or_construct_default C found g ov d)"
  have "files ?d p = Some bs \<and> io_fault ?d = io_fault d \<and> io_seq d \<le> io_seq ?d"
  proof (cases "config_path found ov")
    case (Inl e)
    then show ?thesis using assms by (simp add: read_or_construct_default_def)
  next
    case (Inr q)
    then obtain dir where dir: "path_parent q = Some dir" using config_path_parent by blast
    obtain r d1 where c: "create_dir_all dir d = (r, d1)" by fastforce
    have d1: "files d1 = files d" "io_fault d1 = io_fault d" "io_seq d1 = Suc (io_seq d)"
      using create_dir_all_frame [of dir d] c by simp_all
    obtain r2 d2 where w: "write_to_disk C q (with_default_cert g) d1 = (r2, d2)" by fastforce
    have d2: "p \<noteq> q \<longrightarrow> files d2 p = files d p" "io_fault d2 = io_fault d" "io_seq d \<le> io_seq d2"
      using write_to_disk_frame [where C = C and p = q and v = "with_default_cert g" and d = d1] w d1 by auto
    show ?thesis
    proof (cases "path_exists q d")
      case True
      then show ?thesis using Inr assms by (simp add: read_or_construct_default_def read_from_disk_frame)
    next
      case False
      then have "p \<noteq> q" using assms by (auto simp: path_exists_def)
      then show ?thesis
        using Inr False dir c w d1 d2 assms by (cases r; cases r2) (simp_all add: read_or_construct_default_def)
    qed
  qed
  then show "files ?d p = Some bs" and "io_reliable d \<Longrightarrow> io_reliable ?d"
    using io_reliable_later by blast+
qed

lemma config_calls_keep:
  assumes "files d p = Some bs" and "io_reliable d"
    and "d' = fold (\<lambda>(found, g, ov) d. snd (read_or_construct_default C found g ov d)) calls d"
  shows "files d' p = Some bs" and "io_reliable d'"
proof -
  have "files d' p = Some bs \<and> io_reliable d'"
    using assms
  proof (induction calls arbitrary: d)
    case (Cons c cs)
    then show ?case using read_or_construct_keeps [OF Cons.prems(1)] by (cases c) simp
  qed simp
  then show "files d' p = Some bs" and "io_reliable d'" by simp_all
qed

lemma read_or_construct_fresh:
  fixes C :: "config codec"
  assumes codec: "faithful_codec C ok" and rel: "io_reliable d"
    and okc: "ok (with_default_cert g)"
    and path: "config_path found ov = Inr p" and fresh: "\<not> path_exists p d"
    and r_def: "r = read_or_construct_default C found g ov d"
  obtains bs where "fst r = Inr (with_default_cert g)" and "files (snd r) p = Some bs"
    and "deserialize C bs = Inr (with_default_cert g)" and "io_reliable (snd r)"
proof -
  obtain bs where bs: "serialize C (with_default_cert g) = Inr bs" "deserialize C bs = Inr (with_default_cert g)"
    using faithful_codec.codec_faithful [OF codec okc] by blast
  obtain dir where dir: "path_parent p = Some dir" using config_path_parent [OF path] by blast
  let ?d1 = "d\<lparr>io_seq := Suc (io_seq d), created_dirs := dir # created_dirs d\<rparr>"
  have "io_reliable ?d1" using rel by (simp add: io_reliable_def)
  note w = write_to_disk_reliable [OF this bs(1), of p]
  have "r = (Inr (with_default_cert g), snd (write_to_disk C p (with_default_cert g) ?d1))"
    unfolding r_def using fresh w(1) path dir
    by (cases "write_to_disk C p (with_default_cert g) ?d1")
      (simp add: read_or_construct_default_def create_dir_all_reliable [OF rel])
  then show thesis using that [of bs] bs(2) w(2,3) by simp
qed

text \<open>A call that finds the file reads it.\<close>

lemma read_or_construct_existing:
  assumes "config_path found ov = Inr p" and "files d p = Some bs" and "deserialize C bs = Inr cfg" and "io_reliable d"
  shows "fst (read_or_construct_default C found g ov d) = Inr cfg"
  using assms read_from_disk_reliable [OF assms(4,2,3)]
  by (auto simp: read_or_construct_default_def path_exists_def)

end
