(* ===== verification/Bootstrap_Cache.thy ===== *)
theory Bootstrap_Cache
  imports Disk_Store
begin

text \<open>
  The bootstrap cache of \<open>src/bootstrap_cache.rs\<close>: the peers we connected to,
  least recent first, at most 200 of them once insertion alone fills it, written
  to disk at every tenth insertion. The interface its clients rely on is the
  locale \<open>recency_cache\<close>, interpreted on \<open>add_peer\<close>.
\<close>

section \<open>State and operations\<close>

definition MAX_CACHE_SIZE :: nat where
  "MAX_CACHE_SIZE = 200"

record bootstrap_cache =
  peers :: "node_info list"
  cache_path :: path
  add_count :: u8
  hard_coded_contacts :: "node_info list"

type_synonym cache_state = "bootstrap_cache \<times> disk"

text \<open>\<open>BootstrapCache::new\<close>; \<open>found\<close> is the answer of the \<open>directories\<close> crate.\<close>

definition bootstrap_cache_new ::
  "node_info list codec \<Rightarrow> project_dirs option \<Rightarrow> node_info list \<Rightarrow> dirs option \<Rightarrow> disk
    \<Rightarrow> bootstrap_cache R \<times> disk" where
  "bootstrap_cache_new C found hard_coded user_override d =
    (let path_of = (\<lambda>dir. path_join (cache_dir dir) ''bootstrap_cache'');
         cache_path_res = (case user_override of
             None \<Rightarrow> (case project_dir found of Inl e \<Rightarrow> Inl e | Inr dir \<Rightarrow> Inr (path_of dir))
           | Some dir \<Rightarrow> Inr (path_of dir))
     in case cache_path_res of
          Inl e \<Rightarrow> (Inl e, d)
        | Inr p \<Rightarrow>
            let (peers_res, d') =
              (if path_exists p d then read_from_disk C p d
               else case path_parent p of
                      None \<Rightarrow> (Inl (Io ''entity not found''), d)
                    | Some dir \<Rightarrow>
                        (case create_dir_all dir d of
                           (Inl e, d1) \<Rightarrow> (Inl e, d1)
                         | (Inr _, d1) \<Rightarrow> (Inr [], d1)))
            in case peers_res of
                 Inl e \<Rightarrow> (Inl e, d')
               | Inr ps \<Rightarrow>
                   (Inr \<lparr>peers = ps, cache_path = p, add_count = 0,
                        hard_coded_contacts = hard_coded\<rparr>, d'))"

definition try_sync_to_disk :: "node_info list codec \<Rightarrow> cache_state \<Rightarrow> cache_state" where
  "try_sync_to_disk C = (\<lambda>(self, d).
    if add_count self > 9 then
      (let (_, d') = write_to_disk C (cache_path self) (peers self) d
       in (self\<lparr>add_count := 0\<rparr>, d'))
    else (self, d))"

text \<open>
  The counter is a \<open>u8\<close>: a release build wraps it and a debug build panics on overflow; it
  is reset above 9, so it never comes near 255 (the invariant \<open>cache_inv\<close> below).
\<close>

definition insert_new :: "node_info list codec \<Rightarrow> node_info \<Rightarrow> cache_state \<Rightarrow> cache_state" where
  "insert_new C peer = (\<lambda>(self, d).
    let self1 = self\<lparr>peers := peers self @ [peer]\<rparr>;
        self2 = self1\<lparr>add_count := add_count self1 + 1\<rparr>;
        self3 = (if length (peers self2) > MAX_CACHE_SIZE
                 then self2\<lparr>peers := tl (peers self2)\<rparr> else self2)
    in try_sync_to_disk C (self3, d))"

definition move_to_cache_top :: "node_info \<Rightarrow> cache_state \<Rightarrow> cache_state" where
  "move_to_cache_top peer = (\<lambda>(self, d).
    case position (\<lambda>p. p = peer) (peers self) of
      None \<Rightarrow> (self, d)
    | Some pos \<Rightarrow> (self\<lparr>peers := remove_at pos (peers self) @ [peer]\<rparr>, d))"

definition add_peer :: "node_info list codec \<Rightarrow> node_info \<Rightarrow> cache_state \<Rightarrow> cache_state" where
  "add_peer C peer st =
    (if peer \<in> set (hard_coded_contacts (fst st)) then st
     else if peer \<in> set (peers (fst st)) then move_to_cache_top peer st
     else insert_new C peer st)"

text \<open>The abstract cache: most recent last, at most \<open>cap\<close> entries.\<close>

definition lru_add :: "nat \<Rightarrow> 'p \<Rightarrow> 'p list \<Rightarrow> 'p list" where
  "lru_add cap p l = (let l' = filter (\<lambda>q. q \<noteq> p) l @ [p] in drop (length l' - cap) l')"

text \<open>The number of peers added since the last write is less than ten.\<close>

definition cache_inv :: "bootstrap_cache \<Rightarrow> bool" where
  "cache_inv bc \<longleftrightarrow> add_count bc \<le> 9"

section \<open>The interface of the cache\<close>

locale recency_cache =
  fixes add :: "'p \<Rightarrow> 's \<Rightarrow> 's"
    and entries :: "'s \<Rightarrow> 'p list"
    and pinned :: "'s \<Rightarrow> 'p set"
    and cap :: nat
  assumes cap_pos: "0 < cap"
    and pinned_add: "pinned (add p s) = pinned s"
    and add_pinned: "p \<in> pinned s \<Longrightarrow> entries (add p s) = entries s"
    and add_known: "p \<notin> pinned s \<Longrightarrow> p \<in> set (entries s) \<Longrightarrow>
      entries (add p s) = remove1 p (entries s) @ [p]"
    and add_new: "p \<notin> pinned s \<Longrightarrow> p \<notin> set (entries s) \<Longrightarrow>
      entries (add p s) = (if cap < Suc (length (entries s)) then tl (entries s @ [p])
                           else entries s @ [p])"
begin

lemma set_tlD: "x \<in> set (tl xs) \<Longrightarrow> x \<in> set xs"
  by (cases xs) auto

lemma add_new_full:
  assumes "p \<notin> pinned s" and "p \<notin> set (entries s)" and "cap < Suc (length (entries s))"
  shows "entries (add p s) = tl (entries s) @ [p]"
  using assms cap_pos by (cases "entries s") (simp_all add: add_new)

lemma add_new_room:
  assumes "p \<notin> pinned s" and "p \<notin> set (entries s)" and "\<not> cap < Suc (length (entries s))"
  shows "entries (add p s) = entries s @ [p]"
  using assms by (simp add: add_new)

lemma add_cases:
  obtains (pinned) "p \<in> pinned s" "entries (add p s) = entries s"
  | (known) "p \<notin> pinned s" "p \<in> set (entries s)" "entries (add p s) = remove1 p (entries s) @ [p]"
  | (full) "p \<notin> pinned s" "p \<notin> set (entries s)" "cap \<le> length (entries s)"
      "entries (add p s) = tl (entries s) @ [p]"
  | (room) "p \<notin> pinned s" "p \<notin> set (entries s)" "length (entries s) < cap"
      "entries (add p s) = entries s @ [p]"
  using add_pinned add_known add_new_full add_new_room by (metis less_Suc_eq_le not_less)

lemma entries_distinct: "distinct (entries s) \<Longrightarrow> distinct (entries (add p s))"
  by (cases rule: add_cases [of p s]) (auto simp: distinct_tl dest: set_tlD)

lemma entries_length: "length (entries (add p s)) \<le> max cap (length (entries s))"
  by (cases rule: add_cases [of p s]) (use cap_pos length_pos_if_in_set [of p "entries s"] in \<open>auto simp: length_remove1\<close>)

lemma entries_bounded: "length (entries s) \<le> cap \<Longrightarrow> length (entries (add p s)) \<le> cap"
  using entries_length [of p s] by simp

lemma added_is_last: "p \<notin> pinned s \<Longrightarrow> entries (add p s) \<noteq> [] \<and> last (entries (add p s)) = p"
  by (cases rule: add_cases [of p s]) auto

lemma entries_subset: "set (entries (add p s)) \<subseteq> insert p (set (entries s))"
  by (cases rule: add_cases [of p s])
    (auto dest: set_tlD set_remove1_subset [THEN subsetD])

lemma pinned_stay_out:
  assumes "set (entries s) \<inter> pinned s = {}"
  shows "set (entries (add p s)) \<inter> pinned (add p s) = {}"
proof (cases "p \<in> pinned s")
  case True
  then show ?thesis using assms by (simp add: add_pinned pinned_add)
next
  case False
  then show ?thesis using assms entries_subset [of p s] by (auto simp: pinned_add)
qed

lemma add_refines_lru:
  assumes dist: "distinct (entries s)" and len: "length (entries s) \<le> cap"
    and np: "p \<notin> pinned s"
  shows "entries (add p s) = lru_add cap p (entries s)"
proof (cases "p \<in> set (entries s)")
  case True
  let ?l = "filter (\<lambda>q. q \<noteq> p) (entries s) @ [p]"
  have r: "remove1 p (entries s) = filter (\<lambda>q. q \<noteq> p) (entries s)"
    using dist by (rule distinct_remove1_removeAll_filter)
  have "length (remove1 p (entries s)) = length (entries s) - 1"
    using True by (simp add: length_remove1)
  then have "length ?l \<le> cap" using r len True by (cases "entries s") auto
  then show ?thesis using True np r by (simp add: add_known lru_add_def)
next
  case False
  then have "filter (\<lambda>q. q \<noteq> p) (entries s) = entries s" by (simp add: filter_id_conv) blast
  then show ?thesis using False np len
    by (cases rule: add_cases [of p s]) (use cap_pos in \<open>auto simp: lru_add_def Suc_diff_le drop_Suc\<close>)
qed

text \<open>
  Adding several different peers in a row: the last \<open>cap\<close> of them are in the
  cache, in the order they were added.
\<close>

lemma pinned_fold: "pinned (fold add ps s) = pinned s"
  by (induction ps arbitrary: s) (auto simp: pinned_add)

lemma fold_suffix:
  assumes "distinct ps" and "set ps \<inter> pinned s = {}" and "length ps \<le> cap"
    and "length (entries s) \<le> cap" and "distinct (entries s)"
  shows "\<exists>old. entries (fold add ps s) = old @ ps \<and> set old \<subseteq> set (entries s)
    \<and> length (old @ ps) \<le> cap \<and> distinct (old @ ps)"
  using assms
proof (induction ps rule: rev_induct)
  case Nil
  then show ?case by auto
next
  case (snoc p ps)
  then obtain old where old: "entries (fold add ps s) = old @ ps"
      "set old \<subseteq> set (entries s)" "length (old @ ps) \<le> cap" "distinct (old @ ps)"
    by auto
  let ?s = "fold add ps s"
  have np: "p \<notin> pinned ?s" and pps: "p \<notin> set ps"
    using snoc.prems by (auto simp: pinned_fold)
  have eq: "entries (add p ?s) = lru_add cap p (old @ ps)"
    using add_refines_lru [of ?s p] old np by simp
  have fps: "filter (\<lambda>q. q \<noteq> p) ps = ps" using pps by (simp add: filter_id_conv) blast
  let ?old = "filter (\<lambda>q. q \<noteq> p) old"
  let ?n = "length (?old @ ps @ [p]) - cap"
  have "?n \<le> length ?old" using snoc.prems(3) by simp
  then have "entries (add p ?s) = drop ?n ?old @ (ps @ [p])"
    by (simp add: eq lru_add_def fps Let_def)
  moreover have "set (drop ?n ?old) \<subseteq> set (entries s)"
    using old(2) set_drop_subset [of ?n ?old] by auto
  moreover have "length (drop ?n ?old @ (ps @ [p])) \<le> cap"
    using snoc.prems(3) by simp
  moreover have "distinct (drop ?n ?old @ (ps @ [p]))"
    using old(4) pps set_drop_subset [of ?n ?old] by (auto simp: distinct_drop)
  ultimately show ?case by auto
qed

end

section \<open>The cache of the program satisfies it\<close>

lemma peers_try_sync [simp]:
  "peers (fst (try_sync_to_disk C st)) = peers (fst st)"
  "hard_coded_contacts (fst (try_sync_to_disk C st)) = hard_coded_contacts (fst st)"
  "cache_path (fst (try_sync_to_disk C st)) = cache_path (fst st)"
  by (simp_all add: try_sync_to_disk_def split: prod.splits)

definition pushed :: "node_info \<Rightarrow> node_info list \<Rightarrow> node_info list" where
  "pushed p l = (if MAX_CACHE_SIZE < Suc (length l) then tl (l @ [p]) else l @ [p])"

lemma insert_new_conv:
  "insert_new C p (bc, d) = try_sync_to_disk C
    (bc\<lparr>peers := pushed p (peers bc), add_count := add_count bc + 1\<rparr>, d)"
  by (cases bc) (simp add: insert_new_def pushed_def Let_def)

lemma peers_insert_new: "peers (fst (insert_new C p st)) = pushed p (peers (fst st))"
  by (cases st) (simp add: insert_new_conv)

lemma peers_move_to_cache_top:
  assumes "p \<in> set (peers (fst st))"
  shows "peers (fst (move_to_cache_top p st)) = remove1 p (peers (fst st)) @ [p]"
proof -
  obtain i where "position (\<lambda>q. q = p) (peers (fst st)) = Some i"
    using assms position_eq_Some_iff [of p] by metis
  then show ?thesis
    by (cases st) (simp add: move_to_cache_top_def remove_at_position)
qed

lemma hard_coded_add_peer [simp]:
  "hard_coded_contacts (fst (add_peer C p st)) = hard_coded_contacts (fst st)"
  by (cases st) (simp add: add_peer_def move_to_cache_top_def insert_new_def Let_def
      split: option.splits)

lemma cache_path_add_peer [simp]:
  "cache_path (fst (add_peer C p st)) = cache_path (fst st)"
  by (cases st) (simp add: add_peer_def move_to_cache_top_def insert_new_def Let_def
      split: option.splits)

interpretation bcache: recency_cache
  "add_peer C" "\<lambda>st. peers (fst st)" "\<lambda>st. set (hard_coded_contacts (fst st))" MAX_CACHE_SIZE
  for C
proof
  show "0 < MAX_CACHE_SIZE" by (simp add: MAX_CACHE_SIZE_def)
qed (simp_all add: add_peer_def peers_move_to_cache_top peers_insert_new pushed_def
      hard_coded_add_peer [unfolded add_peer_def])

section \<open>The insertion counter and the writes to disk\<close>

lemma add_count_step:
  fixes n :: u8
  assumes "n \<le> 9"
  shows "unat (n + 1) = Suc (unat n)" and "n + 1 > 9 \<longleftrightarrow> n = 9" and "n \<noteq> 9 \<Longrightarrow> n + 1 \<le> 9"
proof -
  have u: "unat n \<le> 9" using assms by (simp add: word_le_nat_alt)
  then show s: "unat (n + 1) = Suc (unat n)"
    by (simp add: unat_word_ariths)
  have n9: "n = 9 \<longleftrightarrow> unat n = 9" by (simp add: word_unat_eq_iff)
  show "n + 1 > 9 \<longleftrightarrow> n = 9" using u s n9 by (simp add: word_less_nat_alt) linarith
  show "n \<noteq> 9 \<Longrightarrow> n + 1 \<le> 9" using u s n9 by (simp add: word_le_nat_alt)
qed

lemma try_sync_skip: "add_count (fst st) \<le> 9 \<Longrightarrow> try_sync_to_disk C st = st"
  by (cases st) (auto simp: try_sync_to_disk_def)

lemma try_sync_write:
  "9 < add_count (fst st) \<Longrightarrow> try_sync_to_disk C st =
    ((fst st)\<lparr>add_count := 0\<rparr>,
     snd (write_to_disk C (cache_path (fst st)) (peers (fst st)) (snd st)))"
  by (cases st) (simp add: try_sync_to_disk_def split: prod.splits)

lemma insert_new_counts:
  assumes "cache_inv bc" and "add_count bc \<noteq> 9"
  shows "insert_new C p (bc, d) =
    (bc\<lparr>peers := pushed p (peers bc), add_count := add_count bc + 1\<rparr>, d)"
  using assms add_count_step(3) [of "add_count bc"]
  by (simp add: insert_new_conv try_sync_skip cache_inv_def)

lemma insert_new_syncs:
  assumes "add_count bc = 9"
  shows "insert_new C p (bc, d) =
    (bc\<lparr>peers := pushed p (peers bc), add_count := 0\<rparr>,
     snd (write_to_disk C (cache_path bc) (pushed p (peers bc)) d))"
  using assms by (simp add: insert_new_conv try_sync_write)

lemma cache_inv_add_peer:
  assumes "cache_inv (fst st)"
  shows "cache_inv (fst (add_peer C p st))"
proof -
  obtain bc d where st: "st = (bc, d)" by (cases st)
  have "cache_inv (fst (insert_new C p (bc, d)))"
  proof (cases "add_count bc = 9")
    case True
    then show ?thesis by (simp add: insert_new_syncs cache_inv_def)
  next
    case False
    then show ?thesis using assms add_count_step(3) [of "add_count bc"]
      by (simp add: st insert_new_counts) (simp add: cache_inv_def)
  qed
  then show ?thesis using assms
    by (simp add: st add_peer_def move_to_cache_top_def cache_inv_def split: option.splits)
qed

lemma snd_try_sync:
  "snd (try_sync_to_disk C st) = snd st \<or>
   snd (try_sync_to_disk C st) = snd (write_to_disk C (cache_path (fst st)) (peers (fst st)) (snd st))"
  using try_sync_skip [of st C] try_sync_write [of st C]
  by (metis linorder_not_less snd_conv)

lemma add_peer_disk_cases:
  "snd (add_peer C p st) = snd st \<or>
   (\<exists>v. snd (add_peer C p st) = snd (write_to_disk C (cache_path (fst st)) v (snd st)))"
proof -
  obtain bc d where st: "st = (bc, d)" by (cases st)
  have "snd (insert_new C p st) = d \<or>
      (\<exists>v. snd (insert_new C p st) = snd (write_to_disk C (cache_path bc) v d))"
    unfolding st insert_new_conv using snd_try_sync [of C "(_, d)"] by fastforce
  moreover have "snd (move_to_cache_top p st) = d"
    by (simp add: st move_to_cache_top_def split: option.splits)
  ultimately show ?thesis by (simp add: st add_peer_def)
qed

lemma add_peer_disk_frame:
  "io_fault (snd (add_peer C p st)) = io_fault (snd st)"
  "created_dirs (snd (add_peer C p st)) = created_dirs (snd st)"
  "io_seq (snd st) \<le> io_seq (snd (add_peer C p st))"
  "q \<noteq> cache_path (fst st) \<Longrightarrow> files (snd (add_peer C p st)) q = files (snd st) q"
  using add_peer_disk_cases [of C p st] by (auto simp: write_to_disk_frame)

end
