(* ===== verification/Store_Format.thy ===== *)
theory Store_Format
  imports Bincode_Format Bootstrap_Cache Config_Store
begin

text \<open>
  Codecs in the layout of \<open>bincode\<close> for what the program keeps in files: the
  list of cached peers and the configuration. They are composed from prefix codecs
  for pairs, options and sequences, and interpret \<open>faithful_codec\<close>.
\<close>

section \<open>Composing prefix codecs\<close>

definition enc_pair :: "('a \<Rightarrow> bytes) \<Rightarrow> ('b \<Rightarrow> bytes) \<Rightarrow> 'a \<times> 'b \<Rightarrow> bytes" where
  "enc_pair ea eb = (\<lambda>(x, y). ea x @ eb y)"

definition dec_pair ::
  "(bytes \<Rightarrow> ('a \<times> bytes) option) \<Rightarrow> (bytes \<Rightarrow> ('b \<times> bytes) option) \<Rightarrow> bytes
    \<Rightarrow> (('a \<times> 'b) \<times> bytes) option" where
  "dec_pair da db bs =
    (case da bs of
       None \<Rightarrow> None
     | Some (x, r) \<Rightarrow> (case db r of None \<Rightarrow> None | Some (y, r') \<Rightarrow> Some ((x, y), r')))"

definition ok_pair :: "('a \<Rightarrow> bool) \<Rightarrow> ('b \<Rightarrow> bool) \<Rightarrow> 'a \<times> 'b \<Rightarrow> bool" where
  "ok_pair oka okb = (\<lambda>(x, y). oka x \<and> okb y)"

lemma prefix_codec_pair:
  assumes "prefix_codec ea da oka" and "prefix_codec eb db okb"
  shows "prefix_codec (enc_pair ea eb) (dec_pair da db) (ok_pair oka okb)"
  using prefix_codec.dec_enc [OF assms(1)] prefix_codec.dec_enc [OF assms(2)]
  by unfold_locales (auto simp: enc_pair_def dec_pair_def ok_pair_def)

definition enc_option :: "('a \<Rightarrow> bytes) \<Rightarrow> 'a option \<Rightarrow> bytes" where
  "enc_option e v = (case v of None \<Rightarrow> [0] | Some x \<Rightarrow> 1 # e x)"

definition dec_option ::
  "(bytes \<Rightarrow> ('a \<times> bytes) option) \<Rightarrow> bytes \<Rightarrow> ('a option \<times> bytes) option" where
  "dec_option d bs =
    (case bs of
       [] \<Rightarrow> None
     | t # r \<Rightarrow> if t = 0 then Some (None, r)
                else if t = 1 then map_option (map_prod Some id) (d r) else None)"

definition ok_option :: "('a \<Rightarrow> bool) \<Rightarrow> 'a option \<Rightarrow> bool" where
  "ok_option P v = (case v of None \<Rightarrow> True | Some x \<Rightarrow> P x)"

lemma prefix_codec_option:
  assumes "prefix_codec e d P"
  shows "prefix_codec (enc_option e) (dec_option d) (ok_option P)"
  using prefix_codec.dec_enc [OF assms]
  by unfold_locales (auto simp: enc_option_def dec_option_def ok_option_def split: option.splits)

fun dec_many :: "(bytes \<Rightarrow> ('a \<times> bytes) option) \<Rightarrow> nat \<Rightarrow> bytes \<Rightarrow> ('a list \<times> bytes) option" where
  "dec_many d 0 bs = Some ([], bs)"
| "dec_many d (Suc n) bs =
     (case d bs of
        None \<Rightarrow> None
      | Some (x, r) \<Rightarrow> map_option (map_prod (Cons x) id) (dec_many d n r))"

definition enc_list :: "('a \<Rightarrow> bytes) \<Rightarrow> 'a list \<Rightarrow> bytes" where
  "enc_list e xs = enc_le 8 (length xs) @ concat (map e xs)"

definition dec_list ::
  "(bytes \<Rightarrow> ('a \<times> bytes) option) \<Rightarrow> bytes \<Rightarrow> ('a list \<times> bytes) option" where
  "dec_list d bs = (case dec_le 8 bs of None \<Rightarrow> None | Some (n, r) \<Rightarrow> dec_many d n r)"

definition ok_list :: "('a \<Rightarrow> bool) \<Rightarrow> 'a list \<Rightarrow> bool" where
  "ok_list P xs \<longleftrightarrow> length xs < 2 ^ 64 \<and> list_all P xs"

lemma dec_many_concat:
  assumes "prefix_codec e d P" and "list_all P xs"
  shows "dec_many d (length xs) (concat (map e xs) @ rest) = Some (xs, rest)"
  using assms(2) by (induction xs) (simp_all add: prefix_codec.dec_enc [OF assms(1)])

lemma prefix_codec_list:
  assumes "prefix_codec e d P"
  shows "prefix_codec (enc_list e) (dec_list d) (ok_list P)"
proof
  fix xs and rest :: bytes
  assume ok: "ok_list P xs"
  then have "length xs < 256 ^ 8" by (simp add: ok_list_def)
  then show "dec_list d (enc_list e xs @ rest) = Some (xs, rest)"
    using ok dec_many_concat [OF assms, of xs rest]
    by (simp add: dec_list_def enc_list_def dec_enc_le ok_list_def)
qed

text \<open>A record is encoded as the tuple of its fields.\<close>

definition dec_iso :: "('a \<Rightarrow> 'b) \<Rightarrow> (bytes \<Rightarrow> ('a \<times> bytes) option) \<Rightarrow> bytes \<Rightarrow> ('b \<times> bytes) option" where
  "dec_iso f d bs = map_option (map_prod f id) (d bs)"

lemma prefix_codec_iso:
  assumes "prefix_codec e d P" and "\<And>y. f (g y) = y"
  shows "prefix_codec (\<lambda>y. e (g y)) (dec_iso f d) (\<lambda>y. P (g y))"
  using prefix_codec.dec_enc [OF assms(1)] assms(2) by unfold_locales (simp add: dec_iso_def)

lemma faithful_of_prefix:
  assumes "prefix_codec e d P"
  shows "faithful_codec (prefix_to_codec e d) P"
  using prefix_codec.dec_enc_Nil [OF assms] by unfold_locales (simp add: prefix_to_codec_def)

section \<open>Machine words\<close>

definition dec_word :: "nat \<Rightarrow> bytes \<Rightarrow> ('w::len word \<times> bytes) option" where
  "dec_word n bs = map_option (map_prod of_nat id) (dec_le n bs)"

lemma prefix_codec_word:
  assumes "\<And>w :: 'w::len word. unat w < 256 ^ n"
  shows "prefix_codec (\<lambda>w :: 'w word. enc_le n (unat w)) (dec_word n) (\<lambda>_. True)"
  using assms by unfold_locales (simp add: dec_word_def dec_enc_le)

fun enc_ip :: "ip_addr \<Rightarrow> bytes" where
  "enc_ip (V4 a) = enc_le 4 0 @ rev (enc_le 4 (unat a))"
| "enc_ip (V6 a) = enc_le 4 1 @ rev (enc_le 16 (unat a))"

definition dec_ip :: "bytes \<Rightarrow> (ip_addr \<times> bytes) option" where
  "dec_ip bs =
    (case dec_le 4 bs of
       None \<Rightarrow> None
     | Some (v, r) \<Rightarrow>
         if v = 0 then map_option (map_prod (\<lambda>k. V4 (of_nat k)) id) (dec_be 4 r)
         else if v = 1 then map_option (map_prod (\<lambda>k. V6 (of_nat k)) id) (dec_be 16 r)
         else None)"

lemma prefix_codec_ip: "prefix_codec enc_ip dec_ip (\<lambda>_. True)"
proof
  fix x and rest :: bytes
  show "dec_ip (enc_ip x @ rest) = Some (x, rest)"
    by (cases x) (simp_all add: dec_ip_def dec_le_tag dec_be_rev_enc_le [OF unat_u32_256]
        dec_be_rev_enc_le [OF unat_u128_256])
qed

definition enc_our_type :: "our_type \<Rightarrow> bytes" where
  "enc_our_type t = enc_le 4 (case t of OurClient \<Rightarrow> 0 | OurNode \<Rightarrow> 1)"

definition dec_our_type :: "bytes \<Rightarrow> (our_type \<times> bytes) option" where
  "dec_our_type bs =
    (case dec_le 4 bs of
       None \<Rightarrow> None
     | Some (v, r) \<Rightarrow> if v = 0 then Some (OurClient, r) else if v = 1 then Some (OurNode, r) else None)"

lemma prefix_codec_our_type: "prefix_codec enc_our_type dec_our_type (\<lambda>_. True)"
  by unfold_locales (simp add: enc_our_type_def dec_our_type_def dec_le_tag split: our_type.splits)

section \<open>Cached peers\<close>

definition enc_node :: "node_info \<Rightarrow> bytes" where
  "enc_node ni = enc_pair enc_addr enc_bytes (ni_peer_addr ni, ni_peer_cert_der ni)"

definition dec_node :: "bytes \<Rightarrow> (node_info \<times> bytes) option" where
  "dec_node = dec_iso (\<lambda>(a, c). \<lparr>ni_peer_addr = a, ni_peer_cert_der = c\<rparr>) (dec_pair dec_addr dec_bytes)"

definition node_ok :: "node_info \<Rightarrow> bool" where
  "node_ok ni \<longleftrightarrow> addr_ok (ni_peer_addr ni) \<and> length (ni_peer_cert_der ni) < 2 ^ 64"

interpretation node: prefix_codec enc_node dec_node node_ok
proof -
  have "prefix_codec (\<lambda>ni. enc_pair enc_addr enc_bytes (ni_peer_addr ni, ni_peer_cert_der ni)) dec_node
      (\<lambda>ni. ok_pair addr_ok (\<lambda>b. length b < 2 ^ 64) (ni_peer_addr ni, ni_peer_cert_der ni))"
    unfolding dec_node_def
    by (rule prefix_codec_iso [OF prefix_codec_pair
          [OF sock_addr.prefix_codec_axioms byte_string.prefix_codec_axioms]]) simp
  then show "prefix_codec enc_node dec_node node_ok"
    by (simp add: enc_node_def [abs_def] node_ok_def [abs_def] ok_pair_def)
qed

definition bincode_peers :: "node_info list codec" where
  "bincode_peers = prefix_to_codec (enc_list enc_node) (dec_list dec_node)"

interpretation peers_file: faithful_codec bincode_peers "ok_list node_ok"
  unfolding bincode_peers_def
  by (rule faithful_of_prefix [OF prefix_codec_list [OF node.prefix_codec_axioms]])

section \<open>The configuration\<close>

type_synonym config_tuple =
  "node_info list \<times> u16 option \<times> ip_addr option \<times> u32 option \<times> u64 option \<times> u32 option \<times>
    (bytes \<times> bytes) option \<times> our_type"

definition tuple_of_config :: "config \<Rightarrow> config_tuple" where
  "tuple_of_config c =
    (cfg_hard_coded_contacts c, cfg_port c, cfg_ip c, cfg_max_msg_size_allowed c,
     cfg_idle_timeout_msec c, cfg_keep_alive_interval_msec c,
     map_option (\<lambda>s. (cert_der s, key_der s)) (cfg_our_complete_cert c), cfg_our_type c)"

definition config_of_tuple :: "config_tuple \<Rightarrow> config" where
  "config_of_tuple = (\<lambda>(hcc, p, i, sz, idle, keep, cert, ty).
    \<lparr>cfg_hard_coded_contacts = hcc, cfg_port = p, cfg_ip = i, cfg_max_msg_size_allowed = sz,
     cfg_idle_timeout_msec = idle, cfg_keep_alive_interval_msec = keep,
     cfg_our_complete_cert = map_option (\<lambda>(c, k). \<lparr>cert_der = c, key_der = k\<rparr>) cert,
     cfg_our_type = ty\<rparr>)"

lemma config_of_tuple_of_config: "config_of_tuple (tuple_of_config c) = c"
  by (cases "cfg_our_complete_cert c") (simp_all add: config_of_tuple_def tuple_of_config_def)

definition enc_config_tuple :: "config_tuple \<Rightarrow> bytes" where
  "enc_config_tuple =
    enc_pair (enc_list enc_node) (enc_pair (enc_option (\<lambda>w. enc_le 2 (unat w)))
      (enc_pair (enc_option enc_ip) (enc_pair (enc_option (\<lambda>w. enc_le 4 (unat w)))
        (enc_pair (enc_option (\<lambda>w. enc_le 8 (unat w))) (enc_pair (enc_option (\<lambda>w. enc_le 4 (unat w)))
          (enc_pair (enc_option (enc_pair enc_bytes enc_bytes)) enc_our_type))))))"

definition dec_config_tuple :: "bytes \<Rightarrow> (config_tuple \<times> bytes) option" where
  "dec_config_tuple =
    dec_pair (dec_list dec_node) (dec_pair (dec_option (dec_word 2))
      (dec_pair (dec_option dec_ip) (dec_pair (dec_option (dec_word 4))
        (dec_pair (dec_option (dec_word 8)) (dec_pair (dec_option (dec_word 4))
          (dec_pair (dec_option (dec_pair dec_bytes dec_bytes)) dec_our_type))))))"

definition config_ok :: "config \<Rightarrow> bool" where
  "config_ok c \<longleftrightarrow>
    ok_list node_ok (cfg_hard_coded_contacts c) \<and>
    (case cfg_our_complete_cert c of
       None \<Rightarrow> True | Some s \<Rightarrow> length (cert_der s) < 2 ^ 64 \<and> length (key_der s) < 2 ^ 64)"

definition bincode_config :: "config codec" where
  "bincode_config = prefix_to_codec (\<lambda>c. enc_config_tuple (tuple_of_config c))
     (dec_iso config_of_tuple dec_config_tuple)"

lemmas config_parts =
  prefix_codec_pair prefix_codec_option
  prefix_codec_list [OF node.prefix_codec_axioms] prefix_codec_ip prefix_codec_our_type
  byte_string.prefix_codec_axioms
  prefix_codec_word [OF unat_u16_256] prefix_codec_word [OF unat_u32_256]
  prefix_codec_word [OF unat_u64_256]

interpretation config_file: faithful_codec bincode_config config_ok
proof -
  let ?ok = "ok_pair (ok_list node_ok) (ok_pair (ok_option (\<lambda>_. True))
      (ok_pair (ok_option (\<lambda>_. True)) (ok_pair (ok_option (\<lambda>_. True))
        (ok_pair (ok_option (\<lambda>_. True)) (ok_pair (ok_option (\<lambda>_. True))
          (ok_pair (ok_option (ok_pair (\<lambda>b. length b < 2 ^ 64) (\<lambda>b. length b < 2 ^ 64)))
            (\<lambda>_. True)))))))"
  have "prefix_codec enc_config_tuple dec_config_tuple ?ok"
    unfolding enc_config_tuple_def dec_config_tuple_def by (intro config_parts)
  from faithful_of_prefix [OF prefix_codec_iso [OF this config_of_tuple_of_config]]
  have faithful: "faithful_codec bincode_config (\<lambda>c. ?ok (tuple_of_config c))"
    by (simp add: bincode_config_def)
  have "?ok (tuple_of_config c)" if "config_ok c" for c
    using that by (auto simp: config_ok_def ok_pair_def ok_option_def tuple_of_config_def
        split: option.splits)
  then show "faithful_codec bincode_config config_ok"
    using faithful by (auto simp: faithful_codec_def)
qed

end
