(* ===== verification/Connection.thy ===== *)
theory Connection
  imports Bootstrap_Cache
begin

text \<open>
  The state of the event loop thread and the effects of dropping its parts:
  \<open>src/connection/{mod,to_peer,from_peer,q_conn,bootstrap_group}.rs\<close> and the
  \<open>Context\<close> of \<open>src/context.rs\<close>.

  Handles into other crates are numbers: a QUIC connection, a terminator channel,
  a bootstrap group, a reply channel. What the program does to such a handle is
  recorded in the \<open>world\<close>: events sent, streams to be written, connections
  closed, terminators signalled, and the futures it has spawned that have not run
  yet.
\<close>

section \<open>Connection state\<close>

datatype to_peer =
    TpNoConnection
  | TpNotNeeded
  | TpInitiated (terminator: nat) (tp_cert: bytes) (pending_sends: "wire_msg list")
  | TpEstablished (tp_cert: bytes) (tp_q_conn: nat)

datatype from_peer =
    FpNoConnection
  | FpNotNeeded
  | FpEstablished (fp_q_conn: nat) (pending_reads: "wire_msg list")

text \<open>\<open>impl Default for ToPeer\<close> and \<open>impl Default for FromPeer\<close>\<close>

definition to_peer_default :: to_peer where
  "to_peer_default = TpNoConnection"

instantiation to_peer :: default
begin

definition default_to_peer :: to_peer where
  "default_to_peer = to_peer_default"

instance ..

end

definition from_peer_default :: from_peer where
  "from_peer_default = FpNoConnection"

instantiation from_peer :: default
begin

definition default_from_peer :: from_peer where
  "default_from_peer = from_peer_default"

instance ..

end

fun tp_is_not_needed :: "to_peer \<Rightarrow> bool" where
  "tp_is_not_needed TpNotNeeded = True"
| "tp_is_not_needed _ = False"

fun tp_is_no_connection :: "to_peer \<Rightarrow> bool" where
  "tp_is_no_connection TpNoConnection = True"
| "tp_is_no_connection _ = False"

fun tp_is_initiated :: "to_peer \<Rightarrow> bool" where
  "tp_is_initiated (TpInitiated _ _ _) = True"
| "tp_is_initiated _ = False"

fun tp_is_established :: "to_peer \<Rightarrow> bool" where
  "tp_is_established (TpEstablished _ _) = True"
| "tp_is_established _ = False"

fun fp_is_not_needed :: "from_peer \<Rightarrow> bool" where
  "fp_is_not_needed FpNotNeeded = True"
| "fp_is_not_needed _ = False"

fun fp_is_no_connection :: "from_peer \<Rightarrow> bool" where
  "fp_is_no_connection FpNoConnection = True"
| "fp_is_no_connection _ = False"

fun fp_is_established :: "from_peer \<Rightarrow> bool" where
  "fp_is_established (FpEstablished _ _) = True"
| "fp_is_established _ = False"

text \<open>
  A reference to a bootstrap group, and the group itself. \<open>group_rc\<close> is the
  strong count of the \<open>Rc\<close> that the maker and the references share.
\<close>

record bootstrap_group_ref =
  gr_peer_addr :: socket_addr
  gr_group :: nat

record bootstrap_group =
  is_bootstrap_successful_yet :: bool
  terminators :: "(socket_addr \<times> nat) list"
  group_rc :: nat

record connection =
  to_peer :: to_peer
  from_peer :: from_peer
  bootstrap_group_ref :: "bootstrap_group_ref option"
  we_contacted_peer :: bool
  conn_peer_addr :: socket_addr

definition KILL_INCOMPLETE_CONN_SEC :: u64 where
  "KILL_INCOMPLETE_CONN_SEC = 60"

section \<open>The context and the world\<close>

text \<open>\<open>Context\<close> of \<open>src/context.rs\<close>; the event channel and the endpoint are in the world.\<close>

record qp2p_context =
  connections :: "socket_addr \<rightharpoonup> connection"
  our_ext_addr_tx :: "nat option"
  our_complete_cert :: serialisable_certificate
  max_msg_size_allowed :: nat
  idle_timeout_msec :: u64
  keep_alive_interval_msec :: u32
  our_type :: our_type
  bootstrap_cache :: bootstrap_cache

text \<open>Which side opened a QUIC connection decides what its driver does on failure.\<close>

datatype direction = Outgoing | Incoming

record write_task =
  wt_peer_addr :: socket_addr
  wt_q_conn :: nat
  wt_msg :: wire_msg

text \<open>
  The world extends the context by what the program hands to its environment:
  \<^item> \<open>events\<close>: everything sent on the event channel, oldest first;
  \<^item> \<open>groups\<close>: the bootstrap groups that are alive;
  \<^item> \<open>signalled\<close>: the terminator channels that hold a message (capacity one, so a
    second \<open>try_send\<close> changes nothing);
  \<^item> \<open>attempts\<close>: the connection attempts still in flight, by terminator;
  \<^item> \<open>killers\<close>: the timers of \<open>spawn_incomplete_conn_killer\<close> still running;
  \<^item> \<open>drivers\<close>, \<open>readers\<close>, \<open>stream_reads\<close>, \<open>writes\<close>: the other spawned futures;
  \<^item> \<open>wire\<close>: the streams written, as connection and bytes;
  \<^item> \<open>closed\<close>: the QUIC connections closed by the destructor of \<open>QConn\<close>;
  \<^item> \<open>echo_sent\<close>, \<open>echo_dropped\<close>: what happened to the reply channels of the
    endpoint echo service;
  \<^item> \<open>next_term\<close>, \<open>next_q\<close>, \<open>next_group\<close>: the next unused handles;
  \<^item> \<open>listening\<close>: whether the future of \<open>listener::listen\<close> is running.
\<close>

record world = qp2p_context +
  events :: "event list"
  groups :: "nat \<rightharpoonup> bootstrap_group"
  signalled :: "nat set"
  attempts :: "nat \<rightharpoonup> socket_addr"
  killers :: "socket_addr list"
  drivers :: "(nat \<times> socket_addr \<times> direction) list"
  readers :: "(nat \<times> socket_addr) list"
  stream_reads :: "socket_addr list"
  writes :: "write_task list"
  wire :: "(nat \<times> bytes) list"
  closed :: "nat list"
  echo_sent :: "(nat \<times> socket_addr) list"
  echo_dropped :: "nat list"
  the_disk :: disk
  next_term :: nat
  next_q :: nat
  next_group :: nat
  listening :: bool

section \<open>Effects\<close>

definition send_event :: "event \<Rightarrow> world \<Rightarrow> world" where
  "send_event e w = w\<lparr>events := events w @ [e]\<rparr>"

definition try_send :: "nat \<Rightarrow> world \<Rightarrow> world" where
  "try_send t w = w\<lparr>signalled := insert t (signalled w)\<rparr>"

text \<open>\<open>Drop for QConn\<close>\<close>

definition drop_q_conn :: "nat \<Rightarrow> world \<Rightarrow> world" where
  "drop_q_conn q w = w\<lparr>closed := closed w @ [q]\<rparr>"

text \<open>\<open>Drop for ToPeer\<close>, then of its fields\<close>

fun drop_to_peer :: "to_peer \<Rightarrow> world \<Rightarrow> world" where
  "drop_to_peer TpNotNeeded w = w"
| "drop_to_peer TpNoConnection w = w"
| "drop_to_peer (TpEstablished _ q) w = drop_q_conn q w"
| "drop_to_peer (TpInitiated t _ _) w = try_send t w"

fun drop_from_peer :: "from_peer \<Rightarrow> world \<Rightarrow> world" where
  "drop_from_peer (FpEstablished q _) w = drop_q_conn q w"
| "drop_from_peer _ w = w"

text \<open>\<open>Drop for BootstrapGroup\<close>\<close>

definition drop_bootstrap_group :: "nat \<Rightarrow> bootstrap_group \<Rightarrow> world \<Rightarrow> world" where
  "drop_bootstrap_group g grp w =
    (let w1 = w\<lparr>groups := (groups w)(g := None)\<rparr>
     in if \<not> is_bootstrap_successful_yet grp then send_event BootstrapFailure w1 else w1)"

text \<open>Giving up one strong reference to a group; the last one drops the group.\<close>

definition drop_group_rc :: "nat \<Rightarrow> world \<Rightarrow> world" where
  "drop_group_rc g w =
    (case groups w g of
       None \<Rightarrow> w
     | Some grp \<Rightarrow>
         if group_rc grp \<le> 1 then drop_bootstrap_group g grp w
         else w\<lparr>groups := (groups w)(g \<mapsto> grp\<lparr>group_rc := group_rc grp - 1\<rparr>)\<rparr>)"

text \<open>\<open>Drop for BootstrapGroupRef\<close>\<close>

definition drop_bootstrap_group_ref :: "bootstrap_group_ref \<Rightarrow> world \<Rightarrow> world" where
  "drop_bootstrap_group_ref r w =
    (let w1 = (case groups w (gr_group r) of
         None \<Rightarrow> w
       | Some grp \<Rightarrow>
           w\<lparr>groups := (groups w)(gr_group r \<mapsto>
              grp\<lparr>terminators := AList.delete (gr_peer_addr r) (terminators grp)\<rparr>)\<rparr>)
     in drop_group_rc (gr_group r) w1)"

definition drop_group_ref_opt :: "bootstrap_group_ref option \<Rightarrow> world \<Rightarrow> world" where
  "drop_group_ref_opt ro w =
    (case ro of None \<Rightarrow> w | Some r \<Rightarrow> drop_bootstrap_group_ref r w)"

text \<open>The test shared by \<open>Drop for Connection\<close> and the killer.\<close>

definition is_complete :: "connection \<Rightarrow> bool" where
  "is_complete c \<longleftrightarrow>
    (tp_is_established (to_peer c) \<or> tp_is_not_needed (to_peer c)) \<and>
    (fp_is_established (from_peer c) \<or> fp_is_not_needed (from_peer c))"

text \<open>\<open>Drop for Connection\<close>, then of its fields in the order of their declaration\<close>

definition drop_connection :: "connection \<Rightarrow> world \<Rightarrow> world" where
  "drop_connection c w =
    (let w1 = (if is_complete c then send_event (ConnectionFailure (conn_peer_addr c)) w else w);
         w2 = drop_to_peer (to_peer c) w1;
         w3 = drop_from_peer (from_peer c) w2
     in drop_group_ref_opt (bootstrap_group_ref c) w3)"

text \<open>\<open>connections.remove(&peer_addr)\<close>; the removed connection is dropped.\<close>

definition remove_connection :: "socket_addr \<Rightarrow> world \<Rightarrow> world" where
  "remove_connection a w =
    (case connections w a of
       None \<Rightarrow> w
     | Some c \<Rightarrow> drop_connection c (w\<lparr>connections := (connections w)(a := None)\<rparr>))"

text \<open>\<open>Connection::new\<close>; the killer timer is spawned with it.\<close>

definition spawn_incomplete_conn_killer :: "socket_addr \<Rightarrow> world \<Rightarrow> world" where
  "spawn_incomplete_conn_killer a w = w\<lparr>killers := killers w @ [a]\<rparr>"

definition connection_new ::
  "socket_addr \<Rightarrow> bootstrap_group_ref option \<Rightarrow> world \<Rightarrow> connection \<times> world" where
  "connection_new a ref w =
    (\<lparr>to_peer = default, from_peer = default, bootstrap_group_ref = ref,
      we_contacted_peer = False, conn_peer_addr = a\<rparr>,
     spawn_incomplete_conn_killer a w)"

text \<open>The body of the timer of \<open>spawn_incomplete_conn_killer\<close>.\<close>

definition incomplete_conn_killer_fires :: "socket_addr \<Rightarrow> world \<Rightarrow> world" where
  "incomplete_conn_killer_fires a w =
    (case connections w a of
       None \<Rightarrow> w
     | Some c \<Rightarrow>
         if (\<not> tp_is_established (to_peer c) \<and> \<not> tp_is_not_needed (to_peer c))
           \<or> (\<not> fp_is_established (from_peer c) \<and> \<not> fp_is_not_needed (from_peer c))
           \<or> (tp_is_not_needed (to_peer c) \<and> fp_is_not_needed (from_peer c))
         then remove_connection a w else w)"

section \<open>Bootstrap groups (src/connection/bootstrap\_group.rs)\<close>

text \<open>\<open>BootstrapGroupMaker::new\<close> and the drop of a maker\<close>

definition group_maker_new :: "world \<Rightarrow> nat \<times> world" where
  "group_maker_new w =
    (next_group w,
     w\<lparr>groups := (groups w)(next_group w \<mapsto>
          \<lparr>is_bootstrap_successful_yet = False, terminators = [], group_rc = 1\<rparr>),
       next_group := Suc (next_group w)\<rparr>)"

definition drop_group_maker :: "nat \<Rightarrow> world \<Rightarrow> world" where
  "drop_group_maker g w = drop_group_rc g w"

definition add_member_and_get_group_ref ::
  "nat \<Rightarrow> socket_addr \<Rightarrow> nat \<Rightarrow> world \<Rightarrow> bootstrap_group_ref \<times> world" where
  "add_member_and_get_group_ref g a t w =
    (\<lparr>gr_peer_addr = a, gr_group = g\<rparr>,
     case groups w g of
       None \<Rightarrow> w
     | Some grp \<Rightarrow>
         let w1 = (case map_of (terminators grp) a of
                     None \<Rightarrow> w | Some t' \<Rightarrow> try_send t' w)
         in w1\<lparr>groups := (groups w1)(g \<mapsto>
              grp\<lparr>terminators := AList.update a t (terminators grp),
                  group_rc := Suc (group_rc grp)\<rparr>)\<rparr>)"

definition terminate_group :: "bool \<Rightarrow> nat \<Rightarrow> world \<Rightarrow> world" where
  "terminate_group is_due_to_success g w =
    (case groups w g of
       None \<Rightarrow> w
     | Some grp \<Rightarrow>
         let grp1 = (if is_due_to_success
                     then grp\<lparr>is_bootstrap_successful_yet := True\<rparr> else grp)
         in fold (\<lambda>(_, t). try_send t) (terminators grp1)
              (w\<lparr>groups := (groups w)(g \<mapsto> grp1\<lparr>terminators := []\<rparr>)\<rparr>))"

section \<open>Which fields an effect writes\<close>

text \<open>The effects that write one field unfold.\<close>

lemmas effect_defs = send_event_def try_send_def drop_q_conn_def spawn_incomplete_conn_killer_def

lemma drop_to_peer_frame [world_simps]:
  "connections (drop_to_peer tp w) = connections w"
  "our_ext_addr_tx (drop_to_peer tp w) = our_ext_addr_tx w"
  "our_complete_cert (drop_to_peer tp w) = our_complete_cert w"
  "max_msg_size_allowed (drop_to_peer tp w) = max_msg_size_allowed w"
  "idle_timeout_msec (drop_to_peer tp w) = idle_timeout_msec w"
  "keep_alive_interval_msec (drop_to_peer tp w) = keep_alive_interval_msec w"
  "our_type (drop_to_peer tp w) = our_type w"
  "bootstrap_cache (drop_to_peer tp w) = bootstrap_cache w"
  "events (drop_to_peer tp w) = events w"
  "groups (drop_to_peer tp w) = groups w"
  "attempts (drop_to_peer tp w) = attempts w"
  "killers (drop_to_peer tp w) = killers w"
  "drivers (drop_to_peer tp w) = drivers w"
  "readers (drop_to_peer tp w) = readers w"
  "stream_reads (drop_to_peer tp w) = stream_reads w"
  "writes (drop_to_peer tp w) = writes w"
  "wire (drop_to_peer tp w) = wire w"
  "echo_sent (drop_to_peer tp w) = echo_sent w"
  "echo_dropped (drop_to_peer tp w) = echo_dropped w"
  "the_disk (drop_to_peer tp w) = the_disk w"
  "next_term (drop_to_peer tp w) = next_term w"
  "next_q (drop_to_peer tp w) = next_q w"
  "next_group (drop_to_peer tp w) = next_group w"
  "listening (drop_to_peer tp w) = listening w"
  by (cases tp; simp add: effect_defs)+

lemma drop_from_peer_frame [world_simps]:
  "connections (drop_from_peer fp w) = connections w"
  "our_ext_addr_tx (drop_from_peer fp w) = our_ext_addr_tx w"
  "our_complete_cert (drop_from_peer fp w) = our_complete_cert w"
  "max_msg_size_allowed (drop_from_peer fp w) = max_msg_size_allowed w"
  "idle_timeout_msec (drop_from_peer fp w) = idle_timeout_msec w"
  "keep_alive_interval_msec (drop_from_peer fp w) = keep_alive_interval_msec w"
  "our_type (drop_from_peer fp w) = our_type w"
  "bootstrap_cache (drop_from_peer fp w) = bootstrap_cache w"
  "events (drop_from_peer fp w) = events w"
  "groups (drop_from_peer fp w) = groups w"
  "signalled (drop_from_peer fp w) = signalled w"
  "attempts (drop_from_peer fp w) = attempts w"
  "killers (drop_from_peer fp w) = killers w"
  "drivers (drop_from_peer fp w) = drivers w"
  "readers (drop_from_peer fp w) = readers w"
  "stream_reads (drop_from_peer fp w) = stream_reads w"
  "writes (drop_from_peer fp w) = writes w"
  "wire (drop_from_peer fp w) = wire w"
  "echo_sent (drop_from_peer fp w) = echo_sent w"
  "echo_dropped (drop_from_peer fp w) = echo_dropped w"
  "the_disk (drop_from_peer fp w) = the_disk w"
  "next_term (drop_from_peer fp w) = next_term w"
  "next_q (drop_from_peer fp w) = next_q w"
  "next_group (drop_from_peer fp w) = next_group w"
  "listening (drop_from_peer fp w) = listening w"
  by (cases fp; simp add: effect_defs)+

lemma drop_group_rc_frame [world_simps]:
  "connections (drop_group_rc g w) = connections w"
  "our_ext_addr_tx (drop_group_rc g w) = our_ext_addr_tx w"
  "our_complete_cert (drop_group_rc g w) = our_complete_cert w"
  "max_msg_size_allowed (drop_group_rc g w) = max_msg_size_allowed w"
  "idle_timeout_msec (drop_group_rc g w) = idle_timeout_msec w"
  "keep_alive_interval_msec (drop_group_rc g w) = keep_alive_interval_msec w"
  "our_type (drop_group_rc g w) = our_type w"
  "bootstrap_cache (drop_group_rc g w) = bootstrap_cache w"
  "signalled (drop_group_rc g w) = signalled w"
  "attempts (drop_group_rc g w) = attempts w"
  "killers (drop_group_rc g w) = killers w"
  "drivers (drop_group_rc g w) = drivers w"
  "readers (drop_group_rc g w) = readers w"
  "stream_reads (drop_group_rc g w) = stream_reads w"
  "writes (drop_group_rc g w) = writes w"
  "wire (drop_group_rc g w) = wire w"
  "closed (drop_group_rc g w) = closed w"
  "echo_sent (drop_group_rc g w) = echo_sent w"
  "echo_dropped (drop_group_rc g w) = echo_dropped w"
  "the_disk (drop_group_rc g w) = the_disk w"
  "next_term (drop_group_rc g w) = next_term w"
  "next_q (drop_group_rc g w) = next_q w"
  "next_group (drop_group_rc g w) = next_group w"
  "listening (drop_group_rc g w) = listening w"
  by (simp_all add: drop_group_rc_def drop_bootstrap_group_def effect_defs Let_def split: option.splits)

lemma drop_bootstrap_group_ref_frame [world_simps]:
  "connections (drop_bootstrap_group_ref r w) = connections w"
  "our_ext_addr_tx (drop_bootstrap_group_ref r w) = our_ext_addr_tx w"
  "our_complete_cert (drop_bootstrap_group_ref r w) = our_complete_cert w"
  "max_msg_size_allowed (drop_bootstrap_group_ref r w) = max_msg_size_allowed w"
  "idle_timeout_msec (drop_bootstrap_group_ref r w) = idle_timeout_msec w"
  "keep_alive_interval_msec (drop_bootstrap_group_ref r w) = keep_alive_interval_msec w"
  "our_type (drop_bootstrap_group_ref r w) = our_type w"
  "bootstrap_cache (drop_bootstrap_group_ref r w) = bootstrap_cache w"
  "signalled (drop_bootstrap_group_ref r w) = signalled w"
  "attempts (drop_bootstrap_group_ref r w) = attempts w"
  "killers (drop_bootstrap_group_ref r w) = killers w"
  "drivers (drop_bootstrap_group_ref r w) = drivers w"
  "readers (drop_bootstrap_group_ref r w) = readers w"
  "stream_reads (drop_bootstrap_group_ref r w) = stream_reads w"
  "writes (drop_bootstrap_group_ref r w) = writes w"
  "wire (drop_bootstrap_group_ref r w) = wire w"
  "closed (drop_bootstrap_group_ref r w) = closed w"
  "echo_sent (drop_bootstrap_group_ref r w) = echo_sent w"
  "echo_dropped (drop_bootstrap_group_ref r w) = echo_dropped w"
  "the_disk (drop_bootstrap_group_ref r w) = the_disk w"
  "next_term (drop_bootstrap_group_ref r w) = next_term w"
  "next_q (drop_bootstrap_group_ref r w) = next_q w"
  "next_group (drop_bootstrap_group_ref r w) = next_group w"
  "listening (drop_bootstrap_group_ref r w) = listening w"
  by (simp_all add: drop_bootstrap_group_ref_def world_simps Let_def split: option.splits)

lemma drop_group_ref_opt_frame [world_simps]:
  "connections (drop_group_ref_opt ro w) = connections w"
  "our_ext_addr_tx (drop_group_ref_opt ro w) = our_ext_addr_tx w"
  "our_complete_cert (drop_group_ref_opt ro w) = our_complete_cert w"
  "max_msg_size_allowed (drop_group_ref_opt ro w) = max_msg_size_allowed w"
  "idle_timeout_msec (drop_group_ref_opt ro w) = idle_timeout_msec w"
  "keep_alive_interval_msec (drop_group_ref_opt ro w) = keep_alive_interval_msec w"
  "our_type (drop_group_ref_opt ro w) = our_type w"
  "bootstrap_cache (drop_group_ref_opt ro w) = bootstrap_cache w"
  "signalled (drop_group_ref_opt ro w) = signalled w"
  "attempts (drop_group_ref_opt ro w) = attempts w"
  "killers (drop_group_ref_opt ro w) = killers w"
  "drivers (drop_group_ref_opt ro w) = drivers w"
  "readers (drop_group_ref_opt ro w) = readers w"
  "stream_reads (drop_group_ref_opt ro w) = stream_reads w"
  "writes (drop_group_ref_opt ro w) = writes w"
  "wire (drop_group_ref_opt ro w) = wire w"
  "closed (drop_group_ref_opt ro w) = closed w"
  "echo_sent (drop_group_ref_opt ro w) = echo_sent w"
  "echo_dropped (drop_group_ref_opt ro w) = echo_dropped w"
  "the_disk (drop_group_ref_opt ro w) = the_disk w"
  "next_term (drop_group_ref_opt ro w) = next_term w"
  "next_q (drop_group_ref_opt ro w) = next_q w"
  "next_group (drop_group_ref_opt ro w) = next_group w"
  "listening (drop_group_ref_opt ro w) = listening w"
  by (simp_all add: drop_group_ref_opt_def world_simps split: option.splits)

lemma drop_connection_frame [world_simps]:
  "connections (drop_connection c w) = connections w"
  "our_ext_addr_tx (drop_connection c w) = our_ext_addr_tx w"
  "our_complete_cert (drop_connection c w) = our_complete_cert w"
  "max_msg_size_allowed (drop_connection c w) = max_msg_size_allowed w"
  "idle_timeout_msec (drop_connection c w) = idle_timeout_msec w"
  "keep_alive_interval_msec (drop_connection c w) = keep_alive_interval_msec w"
  "our_type (drop_connection c w) = our_type w"
  "bootstrap_cache (drop_connection c w) = bootstrap_cache w"
  "attempts (drop_connection c w) = attempts w"
  "killers (drop_connection c w) = killers w"
  "drivers (drop_connection c w) = drivers w"
  "readers (drop_connection c w) = readers w"
  "stream_reads (drop_connection c w) = stream_reads w"
  "writes (drop_connection c w) = writes w"
  "wire (drop_connection c w) = wire w"
  "echo_sent (drop_connection c w) = echo_sent w"
  "echo_dropped (drop_connection c w) = echo_dropped w"
  "the_disk (drop_connection c w) = the_disk w"
  "next_term (drop_connection c w) = next_term w"
  "next_q (drop_connection c w) = next_q w"
  "next_group (drop_connection c w) = next_group w"
  "listening (drop_connection c w) = listening w"
  by (simp_all add: drop_connection_def world_simps effect_defs Let_def)

lemma remove_connection_frame [world_simps]:
  "our_ext_addr_tx (remove_connection a w) = our_ext_addr_tx w"
  "our_complete_cert (remove_connection a w) = our_complete_cert w"
  "max_msg_size_allowed (remove_connection a w) = max_msg_size_allowed w"
  "idle_timeout_msec (remove_connection a w) = idle_timeout_msec w"
  "keep_alive_interval_msec (remove_connection a w) = keep_alive_interval_msec w"
  "our_type (remove_connection a w) = our_type w"
  "bootstrap_cache (remove_connection a w) = bootstrap_cache w"
  "attempts (remove_connection a w) = attempts w"
  "killers (remove_connection a w) = killers w"
  "drivers (remove_connection a w) = drivers w"
  "readers (remove_connection a w) = readers w"
  "stream_reads (remove_connection a w) = stream_reads w"
  "writes (remove_connection a w) = writes w"
  "wire (remove_connection a w) = wire w"
  "echo_sent (remove_connection a w) = echo_sent w"
  "echo_dropped (remove_connection a w) = echo_dropped w"
  "the_disk (remove_connection a w) = the_disk w"
  "next_term (remove_connection a w) = next_term w"
  "next_q (remove_connection a w) = next_q w"
  "next_group (remove_connection a w) = next_group w"
  "listening (remove_connection a w) = listening w"
  by (simp_all add: remove_connection_def world_simps split: option.splits)

lemma fold_try_send:
  "fold (\<lambda>(_, t). try_send t) ts w = w\<lparr>signalled := snd ` set ts \<union> signalled w\<rparr>"
  by (induction ts arbitrary: w) (auto simp: try_send_def)

lemma terminate_group_frame [world_simps]:
  "connections (terminate_group b g w) = connections w"
  "our_ext_addr_tx (terminate_group b g w) = our_ext_addr_tx w"
  "our_complete_cert (terminate_group b g w) = our_complete_cert w"
  "max_msg_size_allowed (terminate_group b g w) = max_msg_size_allowed w"
  "idle_timeout_msec (terminate_group b g w) = idle_timeout_msec w"
  "keep_alive_interval_msec (terminate_group b g w) = keep_alive_interval_msec w"
  "our_type (terminate_group b g w) = our_type w"
  "bootstrap_cache (terminate_group b g w) = bootstrap_cache w"
  "events (terminate_group b g w) = events w"
  "attempts (terminate_group b g w) = attempts w"
  "killers (terminate_group b g w) = killers w"
  "drivers (terminate_group b g w) = drivers w"
  "readers (terminate_group b g w) = readers w"
  "stream_reads (terminate_group b g w) = stream_reads w"
  "writes (terminate_group b g w) = writes w"
  "wire (terminate_group b g w) = wire w"
  "closed (terminate_group b g w) = closed w"
  "echo_sent (terminate_group b g w) = echo_sent w"
  "echo_dropped (terminate_group b g w) = echo_dropped w"
  "the_disk (terminate_group b g w) = the_disk w"
  "next_term (terminate_group b g w) = next_term w"
  "next_q (terminate_group b g w) = next_q w"
  "next_group (terminate_group b g w) = next_group w"
  "listening (terminate_group b g w) = listening w"
  by (simp_all add: terminate_group_def fold_try_send Let_def split: option.splits)

lemma add_member_frame [world_simps]:
  "connections (snd (add_member_and_get_group_ref g a t w)) = connections w"
  "our_ext_addr_tx (snd (add_member_and_get_group_ref g a t w)) = our_ext_addr_tx w"
  "our_complete_cert (snd (add_member_and_get_group_ref g a t w)) = our_complete_cert w"
  "max_msg_size_allowed (snd (add_member_and_get_group_ref g a t w)) = max_msg_size_allowed w"
  "idle_timeout_msec (snd (add_member_and_get_group_ref g a t w)) = idle_timeout_msec w"
  "keep_alive_interval_msec (snd (add_member_and_get_group_ref g a t w)) = keep_alive_interval_msec w"
  "our_type (snd (add_member_and_get_group_ref g a t w)) = our_type w"
  "bootstrap_cache (snd (add_member_and_get_group_ref g a t w)) = bootstrap_cache w"
  "events (snd (add_member_and_get_group_ref g a t w)) = events w"
  "attempts (snd (add_member_and_get_group_ref g a t w)) = attempts w"
  "killers (snd (add_member_and_get_group_ref g a t w)) = killers w"
  "drivers (snd (add_member_and_get_group_ref g a t w)) = drivers w"
  "readers (snd (add_member_and_get_group_ref g a t w)) = readers w"
  "stream_reads (snd (add_member_and_get_group_ref g a t w)) = stream_reads w"
  "writes (snd (add_member_and_get_group_ref g a t w)) = writes w"
  "wire (snd (add_member_and_get_group_ref g a t w)) = wire w"
  "closed (snd (add_member_and_get_group_ref g a t w)) = closed w"
  "echo_sent (snd (add_member_and_get_group_ref g a t w)) = echo_sent w"
  "echo_dropped (snd (add_member_and_get_group_ref g a t w)) = echo_dropped w"
  "the_disk (snd (add_member_and_get_group_ref g a t w)) = the_disk w"
  "next_term (snd (add_member_and_get_group_ref g a t w)) = next_term w"
  "next_q (snd (add_member_and_get_group_ref g a t w)) = next_q w"
  "next_group (snd (add_member_and_get_group_ref g a t w)) = next_group w"
  "listening (snd (add_member_and_get_group_ref g a t w)) = listening w"
  by (simp_all add: add_member_and_get_group_ref_def effect_defs Let_def split: option.splits)

lemma fst_add_member [simp]:
  "fst (add_member_and_get_group_ref g a t w) = \<lparr>gr_peer_addr = a, gr_group = g\<rparr>"
  by (simp add: add_member_and_get_group_ref_def)

lemma signalled_terminate_group: "signalled w \<subseteq> signalled (terminate_group b g w)"
  by (auto simp: terminate_group_def fold_try_send Let_def split: option.splits)

lemma signalled_add_member:
  "signalled w \<subseteq> signalled (snd (add_member_and_get_group_ref g a t w))"
  by (auto simp: add_member_and_get_group_ref_def effect_defs Let_def split: option.splits)

lemma connections_remove_connection [world_simps]:
  "connections (remove_connection a w) = (connections w)(a := None)"
  by (auto simp: remove_connection_def world_simps fun_eq_iff split: option.splits)

text \<open>
  The events of dropping a group reference are at most one \<open>BootstrapFailure\<close>.
\<close>

lemma events_drop_group_rc:
  "events (drop_group_rc g w) = events w @
    (case groups w g of
       Some grp \<Rightarrow> if group_rc grp \<le> 1 \<and> \<not> is_bootstrap_successful_yet grp
                   then [BootstrapFailure] else []
     | None \<Rightarrow> [])"
  by (simp add: drop_group_rc_def drop_bootstrap_group_def effect_defs Let_def split: option.splits)

lemma events_drop_group_ref:
  "events (drop_bootstrap_group_ref r w) = events w @
    (case groups w (gr_group r) of
       Some grp \<Rightarrow> if group_rc grp \<le> 1 \<and> \<not> is_bootstrap_successful_yet grp
                   then [BootstrapFailure] else []
     | None \<Rightarrow> [])"
  by (simp add: drop_bootstrap_group_ref_def events_drop_group_rc Let_def split: option.splits)

lemma events_drop_group_ref_opt:
  "\<exists>es. set es \<subseteq> {BootstrapFailure} \<and> events (drop_group_ref_opt ro w) = events w @ es"
  by (auto simp: drop_group_ref_opt_def events_drop_group_ref split: option.splits)

lemma events_drop_connection:
  "\<exists>es. set es \<subseteq> {BootstrapFailure} \<and> events (drop_connection c w) =
    events w @ (if is_complete c then [ConnectionFailure (conn_peer_addr c)] else []) @ es"
proof -
  obtain es where "set es \<subseteq> {BootstrapFailure}" and
    "events (drop_connection c w) = events (drop_from_peer (from_peer c) (drop_to_peer (to_peer c)
      (if is_complete c then send_event (ConnectionFailure (conn_peer_addr c)) w else w))) @ es"
    unfolding drop_connection_def Let_def using events_drop_group_ref_opt by metis
  then show ?thesis by (auto simp: world_simps effect_defs)
qed

lemma events_remove_connection:
  "\<exists>es. set es \<subseteq> {BootstrapFailure} \<and> events (remove_connection a w) = events w @
    (case connections w a of
       Some c \<Rightarrow> if is_complete c then [ConnectionFailure (conn_peer_addr c)] else []
     | None \<Rightarrow> []) @ es"
proof (cases "connections w a")
  case None
  then show ?thesis by (simp add: remove_connection_def)
next
  case (Some c)
  then show ?thesis
    using events_drop_connection [of c "w\<lparr>connections := (connections w)(a := None)\<rparr>"]
    by (simp add: remove_connection_def)
qed

lemma signalled_drop_to_peer:
  "signalled (drop_to_peer tp w) =
    (case tp of TpInitiated t _ _ \<Rightarrow> insert t (signalled w) | _ \<Rightarrow> signalled w)"
  by (cases tp) (simp_all add: effect_defs)

lemma signalled_remove_connection:
  "signalled (remove_connection a w) =
    (case connections w a of
       Some c \<Rightarrow> (case to_peer c of TpInitiated t _ _ \<Rightarrow> insert t (signalled w) | _ \<Rightarrow> signalled w)
     | None \<Rightarrow> signalled w)"
  by (simp add: remove_connection_def drop_connection_def world_simps signalled_drop_to_peer
      effect_defs Let_def split: option.splits to_peer.splits)

text \<open>The QUIC connections a connection owns.\<close>

fun tp_q_conns :: "to_peer \<Rightarrow> nat list" where
  "tp_q_conns (TpEstablished _ q) = [q]"
| "tp_q_conns _ = []"

fun fp_q_conns :: "from_peer \<Rightarrow> nat list" where
  "fp_q_conns (FpEstablished q _) = [q]"
| "fp_q_conns _ = []"

definition q_conns :: "connection \<Rightarrow> nat list" where
  "q_conns c = tp_q_conns (to_peer c) @ fp_q_conns (from_peer c)"

lemma closed_drop_to_peer: "closed (drop_to_peer tp w) = closed w @ tp_q_conns tp"
  by (cases tp) (simp_all add: effect_defs)

lemma closed_drop_from_peer: "closed (drop_from_peer fp w) = closed w @ fp_q_conns fp"
  by (cases fp) (simp_all add: effect_defs)

lemma closed_remove_connection:
  "closed (remove_connection a w) =
    closed w @ (case connections w a of Some c \<Rightarrow> q_conns c | None \<Rightarrow> [])"
  by (simp add: remove_connection_def drop_connection_def world_simps closed_drop_to_peer
      closed_drop_from_peer q_conns_def effect_defs Let_def split: option.splits)

text \<open>
  The part of the world that says which connections there are and what is in
  flight for them. Dispatching messages, caching peers and spawning writes leave
  it alone.
\<close>

definition core :: "world \<Rightarrow> (socket_addr \<rightharpoonup> connection) \<times> our_type \<times> (nat \<rightharpoonup> bootstrap_group) \<times>
    nat set \<times> (nat \<rightharpoonup> socket_addr) \<times> socket_addr list \<times> nat list \<times> nat \<times> nat \<times> nat \<times> bool" where
  "core w = (connections w, our_type w, groups w, signalled w, attempts w, killers w, closed w,
     next_term w, next_q w, next_group w, listening w)"

lemma core_fields:
  assumes "core w = core w'"
  shows "connections w = connections w'" "our_type w = our_type w'" "groups w = groups w'"
    "signalled w = signalled w'" "attempts w = attempts w'" "killers w = killers w'"
    "closed w = closed w'" "next_term w = next_term w'" "next_q w = next_q w'"
    "next_group w = next_group w'" "listening w = listening w'"
  using assms by (simp_all add: core_def)

end
