(* ===== verification/Peer_Config.thy ===== *)
theory Peer_Config
  imports Connection
begin

text \<open>
  The parameters that stand for other crates (\<open>extern\<close>) and the QUIC
  configurations of \<open>src/peer\_config.rs\<close>.
\<close>

section \<open>Parameters\<close>

text \<open>
  What the answers of other crates are:
  \<^item> \<open>certificate_from_der\<close>: \<open>quinn::Certificate::from_der\<close>, \<open>Some\<close> for a
    parse error;
  \<^item> \<open>private_key_from_der\<close>: \<open>quinn::PrivateKey::from_der\<close>, likewise;
  \<^item> \<open>add_certificate_authority\<close>, \<open>add_own_certificate\<close>: the builders of
    \<open>quinn\<close>, with the error of \<open>quinn\<close> or \<open>rustls\<close> they give;
  \<^item> \<open>connect_with\<close>: \<open>quinn::Endpoint::connect_with\<close>; it is asked once per
    attempt, and the attempt's terminator tells the calls apart;
  \<^item> \<open>peers_codec\<close>, \<open>msg_codec\<close>: \<open>bincode\<close> on the cached peers and on wire
    messages.
\<close>

datatype setup_error = QuinnEndpointError string | RustlsError string

text \<open>The \<open>from()\<close> conversions of \<open>src/error.rs\<close> which \<open>?\<close> applies to them.\<close>

fun error_from_setup :: "setup_error \<Rightarrow> error" where
  "error_from_setup (QuinnEndpointError e) = Endpoint e"
| "error_from_setup (RustlsError e) = TLS e"

record extern =
  certificate_from_der :: "bytes \<Rightarrow> string option"
  private_key_from_der :: "bytes \<Rightarrow> string option"
  add_certificate_authority :: "bytes \<Rightarrow> setup_error option"
  add_own_certificate :: "bytes \<Rightarrow> bytes \<Rightarrow> setup_error option"
  connect_with :: "nat \<Rightarrow> socket_addr \<Rightarrow> string option"
  peers_codec :: "node_info list codec"
  msg_codec :: "wire_msg codec"

section \<open>Configurations (src/peer\_config.rs)\<close>

definition DEFAULT_IDLE_TIMEOUT_MSEC :: u64 where
  "DEFAULT_IDLE_TIMEOUT_MSEC = 30000"

definition DEFAULT_KEEP_ALIVE_INTERVAL_MSEC :: u32 where
  "DEFAULT_KEEP_ALIVE_INTERVAL_MSEC = 10000"

record transport_config =
  idle_timeout :: u64
  keep_alive_interval :: u32

record client_config =
  cc_transport :: transport_config
  cc_authority :: bytes

record server_config =
  sc_transport :: transport_config
  sc_certificate :: bytes
  sc_key :: bytes
  sc_use_stateless_retry :: bool

definition new_transport_cfg :: "u64 option \<Rightarrow> u32 option \<Rightarrow> world \<Rightarrow> transport_config" where
  "new_transport_cfg idle keep w =
    \<lparr>idle_timeout = (case idle of Some i \<Rightarrow> i | None \<Rightarrow> idle_timeout_msec w),
     keep_alive_interval = (case keep of Some k \<Rightarrow> k | None \<Rightarrow> keep_alive_interval_msec w)\<rparr>"

definition new_client_cfg :: "extern \<Rightarrow> bytes \<Rightarrow> world \<Rightarrow> client_config R" where
  "new_client_cfg E cert w =
    (case certificate_from_der E cert of
       Some e \<Rightarrow> Inl (CertificateParseError e)
     | None \<Rightarrow>
         (let transport = new_transport_cfg None None w
          in case add_certificate_authority E cert of
               Some e \<Rightarrow> Inl (error_from_setup e)
             | None \<Rightarrow> Inr \<lparr>cc_transport = transport, cc_authority = cert\<rparr>))"

text \<open>
  Both arguments of \<open>new_transport_cfg\<close> are given here, so the context, which
  does not exist yet when this runs, is not read: the world passed is arbitrary.
\<close>

definition new_our_cfg ::
  "extern \<Rightarrow> u64 \<Rightarrow> u32 \<Rightarrow> bytes \<Rightarrow> bytes \<Rightarrow> world \<Rightarrow> server_config R" where
  "new_our_cfg E idle keep our_cert our_key w =
    (let transport = new_transport_cfg (Some idle) (Some keep) w
     in case add_own_certificate E our_cert our_key of
          Some e \<Rightarrow> Inl (error_from_setup e)
        | None \<Rightarrow>
            Inr \<lparr>sc_transport = transport, sc_certificate = our_cert, sc_key = our_key,
                 sc_use_stateless_retry = True\<rparr>)"

text \<open>A configuration fails with an error of another crate, never with one of this crate's own.\<close>

lemma new_client_cfg_err_not_duplicate:
  "new_client_cfg E cert w = Inl e \<Longrightarrow> e \<noteq> DuplicateConnectionToPeer a"
  by (auto simp: new_client_cfg_def Let_def split: option.splits setup_error.splits
      elim: error_from_setup.elims)

lemma new_our_cfg_context_free: "new_our_cfg E i k c key w = new_our_cfg E i k c key w'"
  by (simp add: new_our_cfg_def new_transport_cfg_def Let_def)

end
