(* ===== verification/Dispatch.thy ===== *)
theory Dispatch
  imports Peer_Config
begin

text \<open>
  The lower half of \<open>src/communicate.rs\<close>: writing to a QUIC connection and
  dispatching a received message, with \<open>handle_communication_err\<close> of
  \<open>src/utils.rs\<close>.
\<close>

section \<open>Errors and writes\<close>

text \<open>\<open>utils::handle_communication_err\<close>; error and details are only logged.\<close>

definition handle_communication_err :: "socket_addr \<Rightarrow> error \<Rightarrow> world \<Rightarrow> world" where
  "handle_communication_err a e w = remove_connection a w"

text \<open>Spawns the future that opens a stream, writes the message and shuts the stream down.\<close>

definition write_to_peer_connection :: "socket_addr \<Rightarrow> nat \<Rightarrow> wire_msg \<Rightarrow> world \<Rightarrow> world" where
  "write_to_peer_connection a q msg w =
    w\<lparr>writes := writes w @ [\<lparr>wt_peer_addr = a, wt_q_conn = q, wt_msg = msg\<rparr>]\<rparr>"

text \<open>
  That future: each of its three steps may fail, and serialising the message
  happens between opening the stream and writing to it.
\<close>

datatype write_outcome =
    OpenFailed string
  | WriteFailed string
  | ShutdownFailed string
  | WriteOk

definition run_write_task ::
  "extern \<Rightarrow> write_task \<Rightarrow> write_outcome \<Rightarrow> world \<Rightarrow> panic + world" where
  "run_write_task E t outcome w =
    (let a = wt_peer_addr t
     in case outcome of
          OpenFailed e \<Rightarrow> Inr (handle_communication_err a (ConnectionErr e) w)
        | _ \<Rightarrow>
            (case into_bytes (msg_codec E) (wt_msg t) of
               Inl p \<Rightarrow> Inl p
             | Inr bs \<Rightarrow>
                 (case outcome of
                    WriteFailed e \<Rightarrow> Inr (handle_communication_err a (Io e) w)
                  | ShutdownFailed e \<Rightarrow>
                      Inr (handle_communication_err a (Io e)
                            (w\<lparr>wire := wire w @ [(wt_q_conn t, bs)]\<rparr>))
                  | _ \<Rightarrow> Inr (w\<lparr>wire := wire w @ [(wt_q_conn t, bs)]\<rparr>))))"

section \<open>Dispatch\<close>

text \<open>Adding a peer to the bootstrap cache of the context; it may write the cache to disk.\<close>

definition cache_add_peer :: "extern \<Rightarrow> node_info \<Rightarrow> world \<Rightarrow> world" where
  "cache_add_peer E ni w =
    (let (bc, d) = add_peer (peers_codec E) ni (bootstrap_cache w, the_disk w)
     in w\<lparr>bootstrap_cache := bc, the_disk := d\<rparr>)"

definition handle_user_msg :: "extern \<Rightarrow> peer \<Rightarrow> bytes \<Rightarrow> bool \<Rightarrow> world \<Rightarrow> world" where
  "handle_user_msg E p msg contacted w =
    (let w1 = send_event (NewMessage (peer_addr p) msg) w
     in case p of
          PeerNode ni \<Rightarrow> if contacted then cache_add_peer E ni w1 else w1
        | PeerClient _ \<Rightarrow> w1)"

definition handle_echo_req :: "socket_addr \<Rightarrow> nat \<Rightarrow> world \<Rightarrow> world" where
  "handle_echo_req a q w = write_to_peer_connection a q (EndpointEchoResp a) w"

text \<open>Dropping a reply sender closes the channel for the thread that waits on it.\<close>

definition drop_inform_tx :: "nat option \<Rightarrow> world \<Rightarrow> world" where
  "drop_inform_tx tx w =
    (case tx of None \<Rightarrow> w | Some ch \<Rightarrow> w\<lparr>echo_dropped := echo_dropped w @ [ch]\<rparr>)"

definition handle_echo_resp :: "socket_addr \<Rightarrow> nat option \<Rightarrow> world \<Rightarrow> world" where
  "handle_echo_resp our_addr inform_tx w =
    (case inform_tx of
       None \<Rightarrow> w
     | Some ch \<Rightarrow> drop_inform_tx inform_tx (w\<lparr>echo_sent := echo_sent w @ [(ch, our_addr)]\<rparr>))"

text \<open>\<open>inform_tx\<close> is owned by the call: the branches that do not use it drop it.\<close>

definition dispatch_wire_msg ::
  "extern \<Rightarrow> peer \<Rightarrow> nat \<Rightarrow> nat option \<Rightarrow> wire_msg \<Rightarrow> bool \<Rightarrow> world \<Rightarrow> panic + world" where
  "dispatch_wire_msg E p q inform_tx msg contacted w =
    (case msg of
       UserMsg m \<Rightarrow> Inr (drop_inform_tx inform_tx (handle_user_msg E p m contacted w))
     | EndpointEchoReq \<Rightarrow> Inr (drop_inform_tx inform_tx (handle_echo_req (peer_addr p) q w))
     | EndpointEchoResp our_addr \<Rightarrow> Inr (handle_echo_resp our_addr inform_tx w)
     | Handshake _ \<Rightarrow> Inl UnreachableHandshakeDispatch)"

text \<open>The call as every caller makes it, with \<open>c.our_ext_addr_tx.take()\<close> as argument.\<close>

definition take_and_dispatch ::
  "extern \<Rightarrow> peer \<Rightarrow> nat \<Rightarrow> bool \<Rightarrow> wire_msg \<Rightarrow> world \<Rightarrow> panic + world" where
  "take_and_dispatch E p q contacted msg w =
    dispatch_wire_msg E p q (our_ext_addr_tx w) msg contacted (w\<lparr>our_ext_addr_tx := None\<rparr>)"

section \<open>What dispatching changes\<close>

text \<open>The events that dispatching a message to the user produces.\<close>

definition msg_events :: "socket_addr \<Rightarrow> wire_msg \<Rightarrow> event list" where
  "msg_events a msg = (case msg of UserMsg m \<Rightarrow> [NewMessage a m] | _ \<Rightarrow> [])"

lemma core_write [simp]: "core (write_to_peer_connection a q m w) = core w"
  by (simp add: core_def write_to_peer_connection_def)

lemma events_write [simp]: "events (write_to_peer_connection a q m w) = events w"
  by (simp add: write_to_peer_connection_def)

lemma core_cache_add_peer [simp]: "core (cache_add_peer E ni w) = core w"
  by (simp add: cache_add_peer_def core_def split: prod.splits)

lemma events_cache_add_peer [simp]: "events (cache_add_peer E ni w) = events w"
  by (simp add: cache_add_peer_def split: prod.splits)

lemma core_drop_inform_tx [simp]: "core (drop_inform_tx tx w) = core w"
  by (simp add: drop_inform_tx_def core_def split: option.splits)

lemma events_drop_inform_tx [simp]: "events (drop_inform_tx tx w) = events w"
  by (simp add: drop_inform_tx_def split: option.splits)

lemma core_send_event [simp]: "core (send_event e w) = core w"
  by (simp add: send_event_def core_def)

lemma core_take_tx [simp]: "core (w\<lparr>our_ext_addr_tx := tx\<rparr>) = core w"
  by (simp add: core_def)

lemma core_handle_user_msg [simp]: "core (handle_user_msg E p m b w) = core w"
  by (simp add: handle_user_msg_def Let_def split: peer.splits)

lemma events_handle_user_msg [simp]:
  "events (handle_user_msg E p m b w) = events w @ [NewMessage (peer_addr p) m]"
  by (simp add: handle_user_msg_def Let_def send_event_def split: peer.splits)

lemma core_handle_echo_resp [simp]: "core (handle_echo_resp a tx w) = core w"
  by (simp add: handle_echo_resp_def core_def drop_inform_tx_def split: option.splits)

lemma events_handle_echo_resp [simp]: "events (handle_echo_resp a tx w) = events w"
  by (simp add: handle_echo_resp_def drop_inform_tx_def split: option.splits)

lemma take_and_dispatch_total:
  assumes "\<not> is_handshake msg"
  shows "\<exists>w'. take_and_dispatch E p q b msg w = Inr w' \<and> core w' = core w \<and>
    events w' = events w @ msg_events (peer_addr p) msg"
  using assms
  by (cases msg)
    (simp_all add: take_and_dispatch_def dispatch_wire_msg_def handle_echo_req_def msg_events_def)

lemma take_and_dispatch_handshake:
  "is_handshake msg \<Longrightarrow> take_and_dispatch E p q b msg w = Inl UnreachableHandshakeDispatch"
  by (cases msg) (simp_all add: take_and_dispatch_def dispatch_wire_msg_def)

lemma take_and_dispatch_Inr:
  assumes "take_and_dispatch E p q b msg w = Inr w'"
  shows "core w' = core w" and "events w' = events w @ msg_events (peer_addr p) msg"
    and "\<not> is_handshake msg"
  using assms take_and_dispatch_total [of msg E p q b w] take_and_dispatch_handshake [of msg]
  by (cases "is_handshake msg"; auto)+

text \<open>A queue of messages is dispatched completely and in order.\<close>

lemma dispatch_all:
  assumes "\<forall>m \<in> set ms. \<not> is_handshake m"
  shows "\<exists>w'. fold_p (take_and_dispatch E p q b) ms w = Inr w' \<and> core w' = core w \<and>
    events w' = events w @ concat (map (msg_events (peer_addr p)) ms)"
  using assms
proof (induction ms arbitrary: w)
  case Nil
  then show ?case by simp
next
  case (Cons m ms)
  then obtain w1 where w1: "take_and_dispatch E p q b m w = Inr w1" "core w1 = core w"
      "events w1 = events w @ msg_events (peer_addr p) m"
    using take_and_dispatch_total [of m E p q b w] by auto
  with Cons.IH [of w1] Cons.prems show ?case by auto
qed

end
