(* ===== verification/Connect.thy ===== *)
theory Connect
  imports Dispatch
begin

text \<open>
  \<open>src/connect.rs\<close>: starting a connection attempt, handling its result, and
  handling its failure.
\<close>

section \<open>Operations\<close>

definition handle_connect_err :: "socket_addr \<Rightarrow> error \<Rightarrow> world \<Rightarrow> world" where
  "handle_connect_err a e w =
    (case e of
       DuplicateConnectionToPeer _ \<Rightarrow> w
     | _ \<Rightarrow> remove_connection a w)"

text \<open>\<open>bootstrap_group_maker.map(|m| m.add_member_and_get_group_ref(..))\<close>\<close>

definition make_group_ref ::
  "nat option \<Rightarrow> socket_addr \<Rightarrow> nat \<Rightarrow> world \<Rightarrow> bootstrap_group_ref option \<times> world" where
  "make_group_ref maker a t w =
    (case maker of
       None \<Rightarrow> (None, w)
     | Some g \<Rightarrow> (let (r, w') = add_member_and_get_group_ref g a t w in (Some r, w')))"

text \<open>\<open>connections.entry(peer_addr).or_insert_with(..)\<close>: the entry and the world that holds it.\<close>

definition entry_or_insert ::
  "nat option \<Rightarrow> socket_addr \<Rightarrow> nat \<Rightarrow> world \<Rightarrow> connection \<times> world" where
  "entry_or_insert maker a t w =
    (case connections w a of
       Some c \<Rightarrow> (c, w)
     | None \<Rightarrow>
         (let (ref, w1) = make_group_ref maker a t w;
              (c, w2) = connection_new a ref w1
          in (c, w2\<lparr>connections := (connections w2)(a \<mapsto> c)\<rparr>)))"

text \<open>
  The part of \<open>connect_to\<close> under \<open>ctx_mut\<close>, for an entry without a connection
  to the peer: the entry becomes \<open>Initiated\<close>, and if the endpoint accepts the
  attempt its future is spawned.
\<close>

definition initiate_connection ::
  "extern \<Rightarrow> node_info \<Rightarrow> wire_msg option \<Rightarrow> nat option \<Rightarrow> nat \<Rightarrow> connection \<Rightarrow> world
    \<Rightarrow> panic + unit R \<times> world" where
  "initiate_connection E peer_info send_after_connect maker t conn w =
    (let a = ni_peer_addr peer_info
     in if our_type w = OurClient \<and> \<not> fp_is_no_connection (from_peer conn)
        then Inl LogicErrorReverseConnectToClient
        else
          let conn1 = (if our_type w = OurClient then conn\<lparr>from_peer := FpNotNeeded\<rparr> else conn);
              (ref, w1) = (case bootstrap_group_ref conn1 of
                  None \<Rightarrow> make_group_ref maker a t w
                | Some r \<Rightarrow> (Some r, w));
              conn2 = conn1\<lparr>bootstrap_group_ref := ref\<rparr>;
              sends = (case send_after_connect of None \<Rightarrow> [] | Some m \<Rightarrow> [m]);
              conn3 = conn2\<lparr>to_peer := TpInitiated t (ni_peer_cert_der peer_info) sends\<rparr>;
              w2 = w1\<lparr>connections := (connections w1)(a \<mapsto> conn3)\<rparr>
          in case connect_with E t a of
               Some e \<Rightarrow> Inr (Inl (Connect e), w2)
             | None \<Rightarrow> Inr (Inr (), w2\<lparr>attempts := (attempts w2)(t \<mapsto> a)\<rparr>))"

definition connect_to ::
  "extern \<Rightarrow> node_info \<Rightarrow> wire_msg option \<Rightarrow> nat option \<Rightarrow> world \<Rightarrow> panic + unit R \<times> world" where
  "connect_to E peer_info send_after_connect maker w =
    (let a = ni_peer_addr peer_info
     in case new_client_cfg E (ni_peer_cert_der peer_info) w of
          Inl e \<Rightarrow> Inr (Inl e, handle_connect_err a e w)
        | Inr peer_cfg \<Rightarrow>
            (let t = next_term w;
                 (conn, w1) = entry_or_insert maker a t (w\<lparr>next_term := Suc t\<rparr>);
                 r = (if tp_is_no_connection (to_peer conn)
                      then initiate_connection E peer_info send_after_connect maker t conn w1
                      else Inr (Inl (DuplicateConnectionToPeer a), w1))
             in case r of
                  Inl p \<Rightarrow> Inl p
                | Inr (Inl e, w2) \<Rightarrow> Inr (Inl e, handle_connect_err a e w2)
                | Inr (Inr _, w2) \<Rightarrow> Inr (Inr (), w2)))"

text \<open>
  \<open>if let Some(r) = conn.bootstrap_group_ref.take() { r.terminate_group(true); .. }\<close>:
  the event to fire, with the reference dropped at the end of the block.
\<close>

definition take_group_ref_event ::
  "bootstrap_group_ref option \<Rightarrow> node_info \<Rightarrow> world \<Rightarrow> event \<times> world" where
  "take_group_ref_event ro ni w =
    (case ro of
       Some r \<Rightarrow>
         (BootstrappedTo ni, drop_bootstrap_group_ref r (terminate_group True (gr_group r) w))
     | None \<Rightarrow> (ConnectedTo (node_info_into_peer ni), w))"

text \<open>\<open>for pending_send in pending_sends { write_to_peer_connection(..) }\<close>\<close>

definition flush_pending_sends :: "socket_addr \<Rightarrow> nat \<Rightarrow> wire_msg list \<Rightarrow> world \<Rightarrow> world" where
  "flush_pending_sends a q sends w = fold (write_to_peer_connection a q) sends w"

text \<open>
  The match on \<open>conn.from_peer\<close>: what it does to the world, the connection it
  leaves, and whether incoming streams are to be accepted.
\<close>

definition greet_peer ::
  "extern \<Rightarrow> socket_addr \<Rightarrow> nat \<Rightarrow> node_info \<Rightarrow> connection \<Rightarrow> world
    \<Rightarrow> panic + (connection \<times> bool) \<times> world" where
  "greet_peer E a q ni conn w =
    (case from_peer conn of
       FpNoConnection \<Rightarrow>
         Inr ((conn, False),
           write_to_peer_connection a q
             (Handshake (HandshakeNode (cert_der (our_complete_cert w)))) w)
     | FpNotNeeded \<Rightarrow>
         (let w1 = write_to_peer_connection a q (Handshake HandshakeClient) w;
              (ev, w2) = take_group_ref_event (bootstrap_group_ref conn) ni w1
          in Inr ((conn\<lparr>bootstrap_group_ref := None\<rparr>, True), send_event ev w2))
     | FpEstablished fq reads \<Rightarrow>
         (let (ev, w1) = take_group_ref_event (bootstrap_group_ref conn) ni w;
              w2 = send_event ev w1
          in case fold_p (take_and_dispatch E (PeerNode ni) q (we_contacted_peer conn)) reads w2 of
               Inl p \<Rightarrow> Inl p
             | Inr w3 \<Rightarrow>
                 Inr ((conn\<lparr>bootstrap_group_ref := None, from_peer := FpEstablished fq []\<rparr>, False),
                      w3)))"

text \<open>\<open>handle_new_connection_res\<close>; \<open>q\<close> is the QUIC connection of a successful attempt.\<close>

definition handle_new_connection_res ::
  "extern \<Rightarrow> socket_addr \<Rightarrow> string + nat \<Rightarrow> world \<Rightarrow> panic + world" where
  "handle_new_connection_res E a res w =
    (case res of
       Inl e \<Rightarrow> Inr (handle_connect_err a (ConnectionErr e) w)
     | Inr q \<Rightarrow>
         (let w0 = w\<lparr>drivers := drivers w @ [(q, a, Outgoing)]\<rparr>
          in case connections w0 a of
               None \<Rightarrow> Inr (drop_q_conn q w0)
             | Some conn \<Rightarrow>
                 (case to_peer conn of
                    TpInitiated t peer_cert sends \<Rightarrow>
                      (let ni = \<lparr>ni_peer_addr = a, ni_peer_cert_der = peer_cert\<rparr>;
                           w1 = (if we_contacted_peer conn then cache_add_peer E ni w0 else w0)
                       in case greet_peer E a q ni conn w1 of
                            Inl p \<Rightarrow> Inl p
                          | Inr ((conn1, should_accept_incoming), w2) \<Rightarrow>
                              let w3 = flush_pending_sends a q sends w2;
                                  conn2 = conn1\<lparr>to_peer := TpEstablished peer_cert q\<rparr>;
                                  w4 = w3\<lparr>connections := (connections w3)(a \<mapsto> conn2)\<rparr>;
                                  w5 = try_send t w4
                              in Inr (if should_accept_incoming
                                      then w5\<lparr>readers := readers w5 @ [(q, a)]\<rparr> else w5))
                  | _ \<Rightarrow> Inl UnreachableNotInitiated)))"

section \<open>How an attempt to connect ends\<close>

text \<open>
  \<open>connect_to\<close> either rejects the certificate or works on the entry of the address;
  an error of either kind goes through \<open>handle_connect_err\<close>.
\<close>

lemma connect_to_cases:
  assumes "connect_to E ni msg maker w = Inr (r, w')"
  obtains (bad_cert) e where "new_client_cfg E (ni_peer_cert_der ni) w = Inl e"
      "w' = handle_connect_err (ni_peer_addr ni) e w"
  | (entry) c w1 r2 w2 where
      "entry_or_insert maker (ni_peer_addr ni) (next_term w) (w\<lparr>next_term := Suc (next_term w)\<rparr>) = (c, w1)"
      "(if tp_is_no_connection (to_peer c)
        then initiate_connection E ni msg maker (next_term w) c w1
        else Inr (Inl (DuplicateConnectionToPeer (ni_peer_addr ni)), w1)) = Inr (r2, w2)"
      "w' = w2 \<or> (\<exists>e. w' = handle_connect_err (ni_peer_addr ni) e w2)"
proof (cases "new_client_cfg E (ni_peer_cert_der ni) w")
  case (Inl e)
  then show ?thesis using assms bad_cert by (auto simp: connect_to_def)
next
  case (Inr cfg)
  let ?a = "ni_peer_addr ni"
  obtain c w1 where eq: "entry_or_insert maker ?a (next_term w) (w\<lparr>next_term := Suc (next_term w)\<rparr>) = (c, w1)"
    by fastforce
  let ?r = "if tp_is_no_connection (to_peer c)
      then initiate_connection E ni msg maker (next_term w) c w1
      else Inr (Inl (DuplicateConnectionToPeer ?a), w1)"
  have "\<exists>r2 w2. ?r = Inr (r2, w2) \<and> (w' = w2 \<or> (\<exists>e. w' = handle_connect_err ?a e w2))"
    using assms Inr eq by (cases ?r) (auto simp: connect_to_def Let_def split: sum.splits)
  then show ?thesis using entry eq by blast
qed

text \<open>The entry an initiated connection leaves\<close>

lemma initiate_connection_entry:
  assumes "initiate_connection E ni msg maker t c w = Inr (r, w')"
  obtains ref w1 c' where "w1 = w \<or> w1 = snd (make_group_ref maker (ni_peer_addr ni) t w)"
    and "c' = (if our_type w = OurClient then c\<lparr>from_peer := FpNotNeeded\<rparr> else c)
      \<lparr>bootstrap_group_ref := ref, to_peer := TpInitiated t (ni_peer_cert_der ni) (case msg of None \<Rightarrow> [] | Some m \<Rightarrow> [m])\<rparr>"
    and "w' = w1\<lparr>connections := (connections w1)(ni_peer_addr ni \<mapsto> c')\<rparr> \<or>
      w' = w1\<lparr>connections := (connections w1)(ni_peer_addr ni \<mapsto> c'), attempts := (attempts w1)(t \<mapsto> ni_peer_addr ni)\<rparr>"
proof -
  define c0 where "c0 = (if our_type w = OurClient then c\<lparr>from_peer := FpNotNeeded\<rparr> else c)"
  obtain ref w1 where rw: "(case bootstrap_group_ref c0 of
      None \<Rightarrow> make_group_ref maker (ni_peer_addr ni) t w | Some r \<Rightarrow> (Some r, w)) = (ref, w1)"
    by fastforce
  let ?c = "c0\<lparr>bootstrap_group_ref := ref, to_peer := TpInitiated t (ni_peer_cert_der ni) (case msg of None \<Rightarrow> [] | Some m \<Rightarrow> [m])\<rparr>"
  have "w1 = w \<or> w1 = snd (make_group_ref maker (ni_peer_addr ni) t w)"
    using rw by (cases "bootstrap_group_ref c0") auto
  moreover have "w' = w1\<lparr>connections := (connections w1)(ni_peer_addr ni \<mapsto> ?c)\<rparr> \<or>
      w' = w1\<lparr>connections := (connections w1)(ni_peer_addr ni \<mapsto> ?c), attempts := (attempts w1)(t \<mapsto> ni_peer_addr ni)\<rparr>"
    using assms rw unfolding initiate_connection_def Let_def c0_def [symmetric]
    by (cases "connect_with E t (ni_peer_addr ni)") (simp_all split: if_split_asm)
  ultimately show thesis by (intro that [of w1 ?c ref]) (simp_all only: c0_def)
qed

end
