(* ===== verification/Communicate.thy ===== *)
theory Communicate
  imports Connect
begin

text \<open>
  The upper half of \<open>src/communicate.rs\<close>: sending to a peer, reading streams,
  and handling what was read.
\<close>

section \<open>Sending\<close>

text \<open>
  The \<open>debug!\<close> of the last branch shows \<open>conn.to_peer\<close>, which may not return when that
  level of logging is on: see \<open>write_to_peer_debug\<close> in \<open>Formatting\<close>.
\<close>

definition write_to_peer :: "socket_addr \<Rightarrow> wire_msg \<Rightarrow> world \<Rightarrow> world" where
  "write_to_peer a msg w =
    (case connections w a of
       None \<Rightarrow> w
     | Some conn \<Rightarrow>
         (case to_peer conn of
            TpNotNeeded \<Rightarrow>
              (case from_peer conn of
                 FpEstablished q _ \<Rightarrow> write_to_peer_connection a q msg w
               | _ \<Rightarrow> w)
          | TpEstablished _ q \<Rightarrow> write_to_peer_connection a q msg w
          | TpNoConnection \<Rightarrow> w
          | TpInitiated _ _ _ \<Rightarrow> w))"

text \<open>
  The part of \<open>try_write_to_peer\<close> under \<open>ctx_mut\<close>: the world after it, and
  the message if a connection has to be made first.
\<close>

definition write_or_queue ::
  "node_info \<Rightarrow> wire_msg \<Rightarrow> world \<Rightarrow> wire_msg option \<times> world" where
  "write_or_queue ni msg w =
    (let a = ni_peer_addr ni;
         (conn, w1) = entry_or_insert None a 0 w
     in case to_peer conn of
          TpNoConnection \<Rightarrow> (Some msg, w1)
        | TpNotNeeded \<Rightarrow> (None, w1)
        | TpInitiated t cert sends \<Rightarrow>
            (None, w1\<lparr>connections :=
               (connections w1)(a \<mapsto> conn\<lparr>to_peer := TpInitiated t cert (sends @ [msg])\<rparr>)\<rparr>)
        | TpEstablished _ q \<Rightarrow> (None, write_to_peer_connection a q msg w1))"

definition try_write_to_peer :: "extern \<Rightarrow> peer \<Rightarrow> wire_msg \<Rightarrow> world \<Rightarrow> panic + world" where
  "try_write_to_peer E p msg w =
    (case p of
       PeerClient a \<Rightarrow> Inr (write_to_peer a msg w)
     | PeerNode ni \<Rightarrow>
         (let (connect_and_send, w1) = write_or_queue ni msg w
          in case connect_and_send of
               None \<Rightarrow> Inr w1
             | Some m \<Rightarrow>
                 (case connect_to E ni (Some m) None w1 of
                    Inl pn \<Rightarrow> Inl pn
                  | Inr (_, w2) \<Rightarrow> Inr w2)))"

section \<open>Reading\<close>

datatype new_stream = BiStream | UniStream

definition read_from_peer :: "socket_addr \<Rightarrow> nat \<Rightarrow> world \<Rightarrow> world" where
  "read_from_peer a q w = w\<lparr>readers := readers w @ [(q, a)]\<rparr>"

text \<open>
  An error ends the stream of streams (\<open>for_each\<close>), so the reader is gone
  after a bidirectional stream.
\<close>

definition read_peer_stream :: "socket_addr \<Rightarrow> new_stream \<Rightarrow> world \<Rightarrow> unit R \<times> world" where
  "read_peer_stream a quic_stream w =
    (case quic_stream of
       BiStream \<Rightarrow>
         (let e = BiDirectionalStreamAttempted a
          in (Inl e, handle_communication_err a e w))
     | UniStream \<Rightarrow> (Inr (), w\<lparr>stream_reads := stream_reads w @ [a]\<rparr>))"

section \<open>Handling messages\<close>

definition handle_rx_cert :: "extern \<Rightarrow> socket_addr \<Rightarrow> bytes \<Rightarrow> world \<Rightarrow> panic + world" where
  "handle_rx_cert E a cert w =
    (let ni = \<lparr>ni_peer_addr = a, ni_peer_cert_der = cert\<rparr>;
         reverse_connect_to_peer =
           (case connections w a of
              None \<Rightarrow> False
            | Some conn \<Rightarrow>
                (case to_peer conn of
                   TpNoConnection \<Rightarrow> True
                 | TpNotNeeded \<Rightarrow> False
                 | TpInitiated _ _ _ \<Rightarrow> False
                 | TpEstablished _ _ \<Rightarrow> False))
     in if reverse_connect_to_peer
        then (case connect_to E ni None None w of
                Inl p \<Rightarrow> Inl p
              | Inr (_, w1) \<Rightarrow> Inr w1)
        else Inr w)"

text \<open>
  The \<open>debug!\<close> of the last branch shows \<open>conn.to_peer\<close>, which may not return when that
  level of logging is on: see \<open>handle_rx_handshake_debug\<close> in \<open>Formatting\<close>.
\<close>

definition handle_rx_handshake ::
  "extern \<Rightarrow> socket_addr \<Rightarrow> handshake \<Rightarrow> world \<Rightarrow> panic + world" where
  "handle_rx_handshake E a hs w =
    (case hs of
       HandshakeNode cert \<Rightarrow> handle_rx_cert E a cert w
     | HandshakeClient \<Rightarrow>
         (case connections w a of
            None \<Rightarrow> Inr w
          | Some conn \<Rightarrow>
              (case to_peer conn of
                 TpNoConnection \<Rightarrow>
                   Inr (send_event (ConnectedTo (PeerClient a))
                     (w\<lparr>connections := (connections w)(a \<mapsto> conn\<lparr>to_peer := TpNotNeeded\<rparr>)\<rparr>))
               | _ \<Rightarrow> Inr w)))"

definition handle_wire_msg :: "extern \<Rightarrow> socket_addr \<Rightarrow> wire_msg \<Rightarrow> world \<Rightarrow> panic + world" where
  "handle_wire_msg E a msg w =
    (case msg of
       Handshake h \<Rightarrow> handle_rx_handshake E a h w
     | _ \<Rightarrow>
         (case connections w a of
            None \<Rightarrow> Inr w
          | Some conn \<Rightarrow>
              (case from_peer conn of
                 FpNotNeeded \<Rightarrow>
                   (case to_peer conn of
                      TpEstablished cert q \<Rightarrow>
                        take_and_dispatch E
                          (node_info_into_peer \<lparr>ni_peer_addr = a, ni_peer_cert_der = cert\<rparr>)
                          q (we_contacted_peer conn) msg w
                    | _ \<Rightarrow> Inr w)
               | FpEstablished q reads \<Rightarrow>
                   (case to_peer conn of
                      TpNotNeeded \<Rightarrow>
                        take_and_dispatch E (PeerClient a) q (we_contacted_peer conn) msg w
                    | TpEstablished cert tq \<Rightarrow>
                        take_and_dispatch E
                          (node_info_into_peer \<lparr>ni_peer_addr = a, ni_peer_cert_der = cert\<rparr>)
                          tq (we_contacted_peer conn) msg w
                    | _ \<Rightarrow>
                        Inr (w\<lparr>connections := (connections w)(a \<mapsto>
                               conn\<lparr>from_peer := FpEstablished q (reads @ [msg])\<rparr>)\<rparr>))
               | FpNoConnection \<Rightarrow> Inl UnreachableNoConnectionForMessage)))"

text \<open>
  The future spawned for one incoming stream: \<open>read_to_end\<close> with the size
  limit, then decoding, then the message. \<open>Inr raw\<close> is a stream of which
  \<open>raw\<close> was sent; \<open>read_to_end\<close> fails when that exceeds the limit.
\<close>

definition run_read_task ::
  "extern \<Rightarrow> socket_addr \<Rightarrow> string + bytes \<Rightarrow> world \<Rightarrow> panic + world" where
  "run_read_task E a outcome w =
    (case outcome of
       Inl e \<Rightarrow> Inr (handle_communication_err a (Read e) w)
     | Inr raw \<Rightarrow>
         if length raw > max_msg_size_allowed w
         then Inr (handle_communication_err a (Read ''too long'') w)
         else
           (case from_raw (msg_codec E) raw of
              Inl e \<Rightarrow> Inr (handle_communication_err a e w)
            | Inr msg \<Rightarrow> handle_wire_msg E a msg w))"

end
