(* ===== verification/Listener.thy ===== *)
theory Listener
  imports Communicate
begin

text \<open>
  \<open>src/listener.rs\<close>: a QUIC connection opened by a peer; and
  \<open>src/bootstrap.rs\<close>: attempts to all known proxies at once.
\<close>

section \<open>Incoming connections (src/listener.rs)\<close>

definition handle_new_conn :: "socket_addr \<Rightarrow> nat \<Rightarrow> world \<Rightarrow> world" where
  "handle_new_conn a q w =
    (let w0 = w\<lparr>drivers := drivers w @ [(q, a, Incoming)]\<rparr>;
         (conn, w1) = entry_or_insert None a 0 w0
     in if fp_is_no_connection (from_peer conn) then
          (let conn1 = conn\<lparr>from_peer := FpEstablished q []\<rparr>;
               (conn2, w2) =
                 (case to_peer conn1 of
                    TpEstablished cert _ \<Rightarrow>
                      (let ni = \<lparr>ni_peer_addr = a, ni_peer_cert_der = cert\<rparr>;
                           (ev, w') = take_group_ref_event (bootstrap_group_ref conn1) ni w1
                       in (conn1\<lparr>bootstrap_group_ref := None\<rparr>, send_event ev w'))
                  | _ \<Rightarrow> (conn1, w1))
           in read_from_peer a q (w2\<lparr>connections := (connections w2)(a \<mapsto> conn2)\<rparr>))
        else drop_q_conn q w1)"

text \<open>
  Spawns the future that handles every incoming connection, until the stream of them fails:
  the steps \<open>IncomingConnection\<close> and \<open>ListenerFailed\<close> of the event loop.
\<close>

definition listen :: "world \<Rightarrow> world" where
  "listen w = w\<lparr>listening := True\<rparr>"

section \<open>Bootstrapping (src/bootstrap.rs)\<close>

definition proxies_of :: "world \<Rightarrow> node_info list" where
  "proxies_of w = rev (peers (bootstrap_cache w)) @ hard_coded_contacts (bootstrap_cache w)"

definition start :: "extern \<Rightarrow> world \<Rightarrow> panic + world" where
  "start E w =
    (let proxies = proxies_of w;
         (maker, w1) = group_maker_new w
     in case fold_p (\<lambda>proxy w. case connect_to E proxy None (Some maker) w of
                                 Inl p \<Rightarrow> Inl p | Inr (_, w') \<Rightarrow> Inr w') proxies w1 of
          Inl p \<Rightarrow> Inl p
        | Inr w2 \<Rightarrow> Inr (drop_group_maker maker w2))"

end
