(* ===== verification/Quic_P2p.thy ===== *)
theory Quic_P2p
  imports Listener Config_Store
begin

text \<open>
  The thread-local context cell (\<open>src/context.rs\<close>), the event loop
  (\<open>src/event\_loop.rs\<close>) and the library's interface (\<open>src/lib.rs\<close>): the
  builder, activation, and the closures the interface posts to the event loop.
\<close>

section \<open>The context cell (src/context.rs)\<close>

type_synonym ctx_cell = "world option"

definition initialise_ctx :: "world \<Rightarrow> ctx_cell \<Rightarrow> panic + ctx_cell" where
  "initialise_ctx w cell =
    (case cell of Some _ \<Rightarrow> Inl ContextAlreadyInitialised | None \<Rightarrow> Inr (Some w))"

definition is_ctx_initialised :: "ctx_cell \<Rightarrow> bool" where
  "is_ctx_initialised cell \<longleftrightarrow> cell \<noteq> None"

definition ctx :: "(world \<Rightarrow> 'a) \<Rightarrow> ctx_cell \<Rightarrow> panic + 'a" where
  "ctx f cell = (case cell of Some w \<Rightarrow> Inr (f w) | None \<Rightarrow> Inl ContextNotInitialised)"

text \<open>A closure that works on the context and may panic itself.\<close>

definition ctx_mut :: "(world \<Rightarrow> panic + world) \<Rightarrow> ctx_cell \<Rightarrow> panic + ctx_cell" where
  "ctx_mut f cell =
    (case cell of
       Some w \<Rightarrow> (case f w of Inl p \<Rightarrow> Inl p | Inr w' \<Rightarrow> Inr (Some w'))
     | None \<Rightarrow> Inl ContextNotInitialised)"

text \<open>\<open>Context::new\<close>, in a world where nothing has been spawned or sent yet.\<close>

definition context_new ::
  "serialisable_certificate \<Rightarrow> nat \<Rightarrow> u64 \<Rightarrow> u32 \<Rightarrow> our_type \<Rightarrow> bootstrap_cache \<Rightarrow> disk \<Rightarrow> world" where
  "context_new cert max_size idle keep ty cache d =
    \<lparr>connections = Map.empty, our_ext_addr_tx = None, our_complete_cert = cert,
     max_msg_size_allowed = max_size, idle_timeout_msec = idle,
     keep_alive_interval_msec = keep, our_type = ty, bootstrap_cache = cache,
     events = [], groups = Map.empty, signalled = {}, attempts = Map.empty,
     killers = [], drivers = [], readers = [], stream_reads = [], writes = [], wire = [],
     closed = [], echo_sent = [], echo_dropped = [], the_disk = d,
     next_term = 0, next_q = 0, next_group = 0, listening = False\<rparr>"

section \<open>The event loop (src/event\_loop.rs)\<close>

text \<open>
  A message is a closure to run or, as \<open>None\<close>, the terminator. The loop runs
  the closures in the order they were posted and ends at the terminator; a
  message posted after it is never run.
\<close>

type_synonym closure = "ctx_cell \<Rightarrow> panic + ctx_cell"

datatype event_loop_msg = EventLoopMsg "closure option"

definition event_loop_msg_new :: "closure \<Rightarrow> event_loop_msg" where
  "event_loop_msg_new f = EventLoopMsg (Some f)"

definition event_loop_terminator :: event_loop_msg where
  "event_loop_terminator = EventLoopMsg None"

datatype loop_result = LoopPanicked panic | LoopExited ctx_cell | LoopWaiting ctx_cell

fun run_event_loop :: "event_loop_msg list \<Rightarrow> ctx_cell \<Rightarrow> loop_result" where
  "run_event_loop [] cell = LoopWaiting cell"
| "run_event_loop (EventLoopMsg None # ms) cell = LoopExited cell"
| "run_event_loop (EventLoopMsg (Some f) # ms) cell =
     (case f cell of Inl p \<Rightarrow> LoopPanicked p | Inr cell' \<Rightarrow> run_event_loop ms cell')"

text \<open>The handle: what was posted to its channel so far.\<close>

record event_loop =
  posted :: "event_loop_msg list"

definition el_post :: "closure \<Rightarrow> event_loop \<Rightarrow> event_loop" where
  "el_post f el = el\<lparr>posted := posted el @ [event_loop_msg_new f]\<rparr>"

definition drop_event_loop :: "event_loop \<Rightarrow> event_loop" where
  "drop_event_loop el = el\<lparr>posted := posted el @ [event_loop_terminator]\<rparr>"

section \<open>Closures posted by the interface (src/lib.rs)\<close>

definition set_we_contacted_peer :: "socket_addr \<Rightarrow> world \<Rightarrow> world" where
  "set_we_contacted_peer a w =
    (case connections w a of
       None \<Rightarrow> w
     | Some conn \<Rightarrow>
         w\<lparr>connections := (connections w)(a \<mapsto> conn\<lparr>we_contacted_peer := True\<rparr>)\<rparr>)"

definition qp2p_bootstrap :: "extern \<Rightarrow> world \<Rightarrow> panic + world" where
  "qp2p_bootstrap E w = start E w"

definition qp2p_connect_to :: "extern \<Rightarrow> node_info \<Rightarrow> world \<Rightarrow> panic + world" where
  "qp2p_connect_to E ni w =
    (case connect_to E ni None None w of
       Inl p \<Rightarrow> Inl p
     | Inr (Inl e, w1) \<Rightarrow> Inr w1
     | Inr (Inr _, w1) \<Rightarrow> Inr (set_we_contacted_peer (ni_peer_addr ni) w1))"

definition qp2p_disconnect_from :: "socket_addr \<Rightarrow> world \<Rightarrow> world" where
  "qp2p_disconnect_from a w = remove_connection a w"

definition qp2p_send :: "extern \<Rightarrow> peer \<Rightarrow> bytes \<Rightarrow> world \<Rightarrow> panic + world" where
  "qp2p_send E p msg w =
    (case try_write_to_peer E p (UserMsg msg) w of
       Inl pn \<Rightarrow> Inl pn
     | Inr w1 \<Rightarrow> Inr (set_we_contacted_peer (peer_addr p) w1))"

text \<open>
  The closure of \<open>query_ip_echo_service\<close>; \<open>ch\<close> is the channel the caller will
  wait on. Registering its sender drops the one registered before.
\<close>

definition register_and_ask_echo :: "extern \<Rightarrow> node_info \<Rightarrow> nat \<Rightarrow> world \<Rightarrow> panic + world" where
  "register_and_ask_echo E ni ch w =
    (let w1 = drop_inform_tx (our_ext_addr_tx w) (w\<lparr>our_ext_addr_tx := Some ch\<rparr>)
     in try_write_to_peer E (PeerNode ni) EndpointEchoReq w1)"

definition install_proxies :: "node_info list \<Rightarrow> bool \<Rightarrow> world \<Rightarrow> world" where
  "install_proxies proxies use_exclusively w =
    (let bc = bootstrap_cache w
     in w\<lparr>bootstrap_cache :=
          bc\<lparr>peers := (if use_exclusively then proxies else peers bc @ proxies)\<rparr>\<rparr>)"

text \<open>What a waiting \<open>rx.recv()\<close> of \<open>query_ip_echo_service\<close> returns, if it returns.\<close>

definition echo_recv :: "nat \<Rightarrow> world \<Rightarrow> (unit + socket_addr) option" where
  "echo_recv ch w =
    (case filter (\<lambda>x. fst x = ch) (echo_sent w) of
       x # _ \<Rightarrow> Some (Inr (snd x))
     | [] \<Rightarrow> if ch \<in> set (echo_dropped w) then Some (Inl ()) else None)"

section \<open>Activation\<close>

definition DEFAULT_MAX_ALLOWED_MSG_SIZE :: nat where
  "DEFAULT_MAX_ALLOWED_MSG_SIZE = 500 * 1024 * 1024"

definition DEFAULT_PORT_TO_TRY :: u16 where
  "DEFAULT_PORT_TO_TRY = 443"

record settings =
  st_port :: u16
  st_is_user_supplied :: bool
  st_ip :: ip_addr
  st_max_msg_size :: nat
  st_idle :: u64
  st_keep_alive :: u32
  st_our_type :: our_type

definition settings_of :: "config \<Rightarrow> settings" where
  "settings_of cfg =
    \<lparr>st_port = (case cfg_port cfg of Some p \<Rightarrow> p | None \<Rightarrow> DEFAULT_PORT_TO_TRY),
     st_is_user_supplied = (cfg_port cfg \<noteq> None),
     st_ip = (case cfg_ip cfg of Some i \<Rightarrow> i | None \<Rightarrow> V4 0),
     st_max_msg_size = (case cfg_max_msg_size_allowed cfg of
        Some sz \<Rightarrow> unat sz | None \<Rightarrow> DEFAULT_MAX_ALLOWED_MSG_SIZE),
     st_idle = (case cfg_idle_timeout_msec cfg of Some i \<Rightarrow> i | None \<Rightarrow> DEFAULT_IDLE_TIMEOUT_MSEC),
     st_keep_alive = (case cfg_keep_alive_interval_msec cfg of
        Some k \<Rightarrow> k | None \<Rightarrow> DEFAULT_KEEP_ALIVE_INTERVAL_MSEC),
     st_our_type = cfg_our_type cfg\<rparr>"

text \<open>
  What the sockets answer: \<open>UdpSocket::bind\<close>, \<open>EndpointBuilder::with_socket\<close>
  and \<open>EndpointBuilder::bind\<close> at an address and port (\<open>Some\<close> is the error),
  and \<open>Endpoint::local_addr\<close> of the endpoint made.
\<close>

record sockets =
  udp_bind :: "ip_addr \<Rightarrow> u16 \<Rightarrow> string option"
  ep_with_socket :: "ip_addr \<Rightarrow> u16 \<Rightarrow> string option"
  ep_bind :: "ip_addr \<Rightarrow> u16 \<Rightarrow> string option"
  ep_local_addr :: "string + socket_addr"

text \<open>The result is the port bound, where 0 asks the system for any.\<close>

definition bind_endpoint :: "sockets \<Rightarrow> settings \<Rightarrow> panic + u16" where
  "bind_endpoint N st =
    (case udp_bind N (st_ip st) (st_port st) of
       None \<Rightarrow> (case ep_with_socket N (st_ip st) (st_port st) of
                  None \<Rightarrow> Inr (st_port st) | Some _ \<Rightarrow> Inl UnwrapOnError)
     | Some e \<Rightarrow>
         if st_is_user_supplied st then Inl CouldNotBindUserPort
         else (case ep_bind N (st_ip st) 0 of None \<Rightarrow> Inr 0 | Some _ \<Rightarrow> Inl UnwrapOnError))"

text \<open>The closure posted by \<open>activate\<close>.\<close>

definition activate_closure ::
  "extern \<Rightarrow> sockets \<Rightarrow> settings \<Rightarrow> serialisable_certificate \<Rightarrow> bootstrap_cache \<Rightarrow> disk \<Rightarrow> closure" where
  "activate_closure E N st cert cache d cell =
    (let w = context_new cert (st_max_msg_size st) (st_idle st) (st_keep_alive st)
               (st_our_type st) cache d
     in case new_our_cfg E (st_idle st) (st_keep_alive st) (cert_der cert) (key_der cert) w of
          Inl e \<Rightarrow> Inl UnwrapOnError
        | Inr our_cfg \<Rightarrow>
            (case bind_endpoint N st of
               Inl p \<Rightarrow> Inl p
             | Inr bound \<Rightarrow>
                 initialise_ctx (if st_our_type st \<noteq> OurClient then listen w else w) cell))"

section \<open>The handle\<close>

text \<open>\<open>QuicP2p\<close>; the sender of the event channel is in the world.\<close>

record quic_p2p =
  qp_cfg :: config
  qp_us :: "node_info option"
  qp_el :: event_loop

definition event_loop_spawn :: event_loop where
  "event_loop_spawn = \<lparr>posted = []\<rparr>"

definition quic_p2p_with_config :: "config \<Rightarrow> quic_p2p" where
  "quic_p2p_with_config cfg = \<lparr>qp_cfg = cfg, qp_us = None, qp_el = event_loop_spawn\<rparr>"

text \<open>
  \<open>dirs\<close> is the answer of the \<open>directories\<close> crate and \<open>generated\<close> the
  certificate \<open>rcgen\<close> makes.
\<close>

definition quic_p2p_new ::
  "config codec \<Rightarrow> project_dirs option \<Rightarrow> serialisable_certificate \<Rightarrow> disk \<Rightarrow> quic_p2p R \<times> disk" where
  "quic_p2p_new C dirs generated d =
    (case read_or_construct_default C dirs generated None d of
       (Inl e, d') \<Rightarrow> (Inl e, d')
     | (Inr cfg, d') \<Rightarrow> (Inr (quic_p2p_with_config cfg), d'))"

definition obtain_priv_key_and_cert ::
  "extern \<Rightarrow> serialisable_certificate \<Rightarrow> panic + bytes \<times> bytes" where
  "obtain_priv_key_and_cert E self =
    (case private_key_from_der E (key_der self) of
       Some _ \<Rightarrow> Inl UnwrapOnError
     | None \<Rightarrow> (case certificate_from_der E (cert_der self) of
                  Some _ \<Rightarrow> Inl UnwrapOnError
                | None \<Rightarrow> Inr (key_der self, cert_der self)))"

definition el_post_to :: "closure \<Rightarrow> quic_p2p \<Rightarrow> quic_p2p" where
  "el_post_to f self = self\<lparr>qp_el := el_post f (qp_el self)\<rparr>"

definition activate ::
  "extern \<Rightarrow> sockets \<Rightarrow> project_dirs option \<Rightarrow> serialisable_certificate \<Rightarrow> quic_p2p \<Rightarrow> disk
    \<Rightarrow> panic + (unit R \<times> quic_p2p) \<times> disk" where
  "activate E N dirs generated self d =
    (let cfg = qp_cfg self;
         cert = (case cfg_our_complete_cert cfg of Some c \<Rightarrow> c | None \<Rightarrow> generated)
     in case obtain_priv_key_and_cert E cert of
          Inl p \<Rightarrow> Inl p
        | Inr _ \<Rightarrow>
            (case bootstrap_cache_new (peers_codec E) dirs (cfg_hard_coded_contacts cfg) None d of
               (Inl e, d') \<Rightarrow> Inr ((Inl e, self), d')
             | (Inr cache, d') \<Rightarrow>
                 Inr ((Inr (), el_post_to
                        (activate_closure E N (settings_of cfg) cert cache d') self), d')))"

text \<open>The methods that only post a closure.\<close>

definition bootstrap :: "extern \<Rightarrow> quic_p2p \<Rightarrow> quic_p2p" where
  "bootstrap E = el_post_to (ctx_mut (qp2p_bootstrap E))"

definition quic_p2p_connect_to :: "extern \<Rightarrow> node_info \<Rightarrow> quic_p2p \<Rightarrow> quic_p2p" where
  "quic_p2p_connect_to E ni = el_post_to (ctx_mut (qp2p_connect_to E ni))"

definition disconnect_from :: "socket_addr \<Rightarrow> quic_p2p \<Rightarrow> quic_p2p" where
  "disconnect_from a = el_post_to (ctx_mut (\<lambda>w. Inr (qp2p_disconnect_from a w)))"

definition send :: "extern \<Rightarrow> peer \<Rightarrow> bytes \<Rightarrow> quic_p2p \<Rightarrow> quic_p2p" where
  "send E p msg = el_post_to (ctx_mut (qp2p_send E p msg))"

text \<open>
  The methods that post a closure and wait for its answer. \<open>cell\<close> is the context
  when the closure runs; a closure that panics drops its sender, so the waiting
  side gets an error.
\<close>

definition ctx_read :: "(world \<Rightarrow> 'a) \<Rightarrow> closure" where
  "ctx_read f cell = (case ctx f cell of Inl p \<Rightarrow> Inl p | Inr _ \<Rightarrow> Inr cell)"

definition bootstrap_cache_list :: "ctx_cell \<Rightarrow> quic_p2p \<Rightarrow> node_info list R \<times> quic_p2p" where
  "bootstrap_cache_list cell self =
    (let get = (\<lambda>w. peers (bootstrap_cache w))
     in (case ctx get cell of
           Inl _ \<Rightarrow> Inl (ChannelRecv ''receiving on a closed channel'') | Inr ps \<Rightarrow> Inr ps,
         el_post_to (ctx_read get) self))"

definition our_certificate_der :: "ctx_cell \<Rightarrow> quic_p2p \<Rightarrow> panic + bytes \<times> quic_p2p" where
  "our_certificate_der cell self =
    (let get = (\<lambda>w. cert_der (our_complete_cert w))
     in case ctx get cell of
          Inl _ \<Rightarrow> Inl UnwrapOnError | Inr c \<Rightarrow> Inr (c, el_post_to (ctx_read get) self))"

text \<open>\<open>answer\<close> is what the reply channel gave: an address, or that it was closed.\<close>

definition query_ip_echo_service ::
  "extern \<Rightarrow> nat \<Rightarrow> unit + socket_addr \<Rightarrow> quic_p2p \<Rightarrow> panic + socket_addr R \<times> quic_p2p" where
  "query_ip_echo_service E ch answer self =
    (case cfg_hard_coded_contacts (qp_cfg self) of
       [] \<Rightarrow> Inr (Inl NoEndpointEchoServerFound, self)
     | ni # _ \<Rightarrow>
         (let self1 = el_post_to (ctx_mut (register_and_ask_echo E ni ch)) self
          in case answer of Inl _ \<Rightarrow> Inl UnwrapOnError | Inr a \<Rightarrow> Inr (Inr a, self1)))"

definition our_connection_info ::
  "extern \<Rightarrow> sockets \<Rightarrow> nat \<Rightarrow> unit + socket_addr \<Rightarrow> ctx_cell \<Rightarrow> quic_p2p
    \<Rightarrow> panic + node_info R \<times> quic_p2p" where
  "our_connection_info E N ch answer cell self =
    (case qp_us self of
       Some us \<Rightarrow> Inr (Inr us, self)
     | None \<Rightarrow>
         bind_p (query_ip_echo_service E ch answer self) (\<lambda>(res, self1).
           let finish = (\<lambda>our_addr self2. bind_p (our_certificate_der cell self2) (\<lambda>(cert, self3).
                 let us = \<lparr>ni_peer_addr = our_addr, ni_peer_cert_der = cert\<rparr>
                 in Inr (Inr us, self3\<lparr>qp_us := Some us\<rparr>)))
           in case res of
                Inr our_addr \<Rightarrow> finish our_addr self1
              | Inl NoEndpointEchoServerFound \<Rightarrow>
                  (let self2 = el_post_to (ctx_read (\<lambda>_. ep_local_addr N)) self1
                   in case ctx (\<lambda>_. ep_local_addr N) cell of
                        Inl _ \<Rightarrow> Inl UnwrapOnError
                      | Inr (Inl e) \<Rightarrow> Inr (Inl (Io e), self2)
                      | Inr (Inr addr) \<Rightarrow>
                          if is_unspecified (ip addr)
                          then Inr (Inl NoEndpointEchoServerFound, self2)
                          else finish addr self2)
              | Inl e \<Rightarrow> Inr (Inl e, self1)))"

section \<open>The builder\<close>

record builder =
  b_cfg :: "config option"
  b_proxies :: "node_info list"
  b_use_proxies_exclusively :: bool

definition builder_new :: builder where
  "builder_new = \<lparr>b_cfg = None, b_proxies = [], b_use_proxies_exclusively = False\<rparr>"

definition with_proxies :: "node_info list \<Rightarrow> bool \<Rightarrow> builder \<Rightarrow> builder" where
  "with_proxies proxies use_exclusively self =
    (let self1 = self\<lparr>b_use_proxies_exclusively := use_exclusively\<rparr>
     in if use_exclusively then self1\<lparr>b_proxies := proxies\<rparr>
        else self1\<lparr>b_proxies := b_proxies self1 @ proxies\<rparr>)"

definition with_config :: "config \<Rightarrow> builder \<Rightarrow> builder" where
  "with_config cfg self = self\<lparr>b_cfg := Some cfg\<rparr>"

definition build ::
  "extern \<Rightarrow> sockets \<Rightarrow> config codec \<Rightarrow> project_dirs option \<Rightarrow> serialisable_certificate \<Rightarrow> builder
    \<Rightarrow> disk \<Rightarrow> panic + quic_p2p R \<times> disk" where
  "build E N C dirs generated self d =
    (case (case b_cfg self of
             Some cfg \<Rightarrow> (Inr (quic_p2p_with_config cfg), d)
           | None \<Rightarrow> quic_p2p_new C dirs generated d) of
       (Inl e, d1) \<Rightarrow> Inr (Inl e, d1)
     | (Inr qp2p, d1) \<Rightarrow>
         (case activate E N dirs generated qp2p d1 of
            Inl p \<Rightarrow> Inl p
          | Inr ((Inl e, _), d2) \<Rightarrow> Inr (Inl e, d2)
          | Inr ((Inr _, qp2p1), d2) \<Rightarrow>
              Inr (Inr (el_post_to (ctx_mut (\<lambda>w. Inr (install_proxies (b_proxies self)
                     (b_use_proxies_exclusively self) w))) qp2p1), d2)))"

end
