(* ===== verification/Transition_System.thy ===== *)
theory Transition_System
  imports Prelude
begin

text \<open>
  Labelled transition systems whose steps may end in a panic: their reachable
  states, and two contracts under which facts about runs follow from facts about
  single steps. The event loop of the library is such a system.
\<close>

section \<open>Runs\<close>

inductive reach :: "('s \<Rightarrow> bool) \<Rightarrow> ('s \<Rightarrow> 'l \<Rightarrow> panic + 's \<Rightarrow> bool) \<Rightarrow> 's \<Rightarrow> bool"
  for init step where
  reach_init: "init s \<Longrightarrow> reach init step s"
| reach_step: "reach init step s \<Longrightarrow> step s l (Inr s') \<Longrightarrow> reach init step s'"

inductive steps :: "('s \<Rightarrow> 'l \<Rightarrow> panic + 's \<Rightarrow> bool) \<Rightarrow> 's \<Rightarrow> 'l list \<Rightarrow> 's \<Rightarrow> bool"
  for step where
  steps_nil: "steps step s [] s"
| steps_snoc: "steps step s ls s' \<Longrightarrow> step s' l (Inr s'') \<Longrightarrow> steps step s (ls @ [l]) s''"

lemma steps_reach: "steps step s ls s' \<Longrightarrow> reach init step s \<Longrightarrow> reach init step s'"
  by (induction rule: steps.induct) (auto intro: reach_step)

lemma reach_iff_steps:
  "reach init step s' \<longleftrightarrow> (\<exists>s ls. init s \<and> steps step s ls s')"
proof
  assume "reach init step s'"
  then show "\<exists>s ls. init s \<and> steps step s ls s'"
    by induction (blast intro: steps_nil steps_snoc)+
qed (blast intro: steps_reach reach_init)

section \<open>Invariants\<close>

text \<open>
  A provider shows that an invariant holds initially and is kept by every step
  and names the panics a step may end in; the client knows both for whole runs.
\<close>

locale invariant_system =
  fixes init :: "'s \<Rightarrow> bool"
    and step :: "'s \<Rightarrow> 'l \<Rightarrow> panic + 's \<Rightarrow> bool"
    and I :: "'s \<Rightarrow> bool"
    and may_panic :: "'s \<Rightarrow> panic \<Rightarrow> bool"
  assumes init_I: "init s \<Longrightarrow> I s"
    and step_I: "I s \<Longrightarrow> step s l (Inr s') \<Longrightarrow> I s'"
    and step_panic: "I s \<Longrightarrow> step s l (Inl p) \<Longrightarrow> may_panic s p"
begin

lemma reach_I: "reach init step s \<Longrightarrow> I s"
  by (induction rule: reach.induct) (auto intro: init_I step_I)

lemma steps_I: "steps step s ls s' \<Longrightarrow> I s \<Longrightarrow> I s'"
  by (induction rule: steps.induct) (auto intro: step_I)

lemma reach_panic: "reach init step s \<Longrightarrow> step s l (Inl p) \<Longrightarrow> may_panic s p"
  by (rule step_panic [OF reach_I])

end

text \<open>A preorder that every step respects is respected by every run.\<close>

locale monotone_system =
  fixes step :: "'s \<Rightarrow> 'l \<Rightarrow> panic + 's \<Rightarrow> bool"
    and le :: "'s \<Rightarrow> 's \<Rightarrow> bool"
  assumes le_refl: "le s s"
    and le_trans: "le s s' \<Longrightarrow> le s' s'' \<Longrightarrow> le s s''"
    and step_le: "step s l (Inr s') \<Longrightarrow> le s s'"
begin

lemma steps_le: "steps step s ls s' \<Longrightarrow> le s s'"
  by (induction rule: steps.induct) (auto intro: le_refl le_trans step_le)

end

end
