(* ===== verification/Event_System.thy ===== *)
theory Event_System
  imports Quic_P2p Transition_System
begin

text \<open>
  The event loop as a transition system. A label is one thing that can happen
  next on the event loop thread: a posted closure runs, a spawned future makes
  progress, or a peer does something. A rule's premises say when it can happen;
  its result is the world afterwards or the panic that ends the thread.
\<close>

section \<open>Steps\<close>

datatype label =
    PostBootstrap
  | PostConnectTo node_info
  | PostDisconnectFrom socket_addr
  | PostSend peer bytes
  | PostQueryEcho node_info nat
  | PostProxies "node_info list" bool
  | AttemptCancelled nat
  | AttemptFailed nat string
  | AttemptConnected nat
  | IncomingConnection socket_addr
  | ListenerFailed
  | DriverFailed nat socket_addr direction string
  | StreamArrived nat socket_addr new_stream
  | IncomingStreamsFailed nat socket_addr string
  | ReadFinished socket_addr "string + bytes"
  | WriteFinished write_task write_outcome
  | KillerFired socket_addr

text \<open>
  The future of an attempt is \<open>terminator_leaf.select(new_connection_leaf)\<close>:
  the terminator is polled first, so an attempt whose terminator holds a message
  is cancelled whatever the endpoint answers.
\<close>

definition finish_attempt :: "nat \<Rightarrow> world \<Rightarrow> world" where
  "finish_attempt t w = w\<lparr>attempts := (attempts w)(t := None)\<rparr>"

inductive el_step :: "extern \<Rightarrow> world \<Rightarrow> label \<Rightarrow> panic + world \<Rightarrow> bool" for E where
  post_bootstrap: "el_step E w PostBootstrap (qp2p_bootstrap E w)"
| post_connect_to: "el_step E w (PostConnectTo ni) (qp2p_connect_to E ni w)"
| post_disconnect_from: "el_step E w (PostDisconnectFrom a) (Inr (qp2p_disconnect_from a w))"
| post_send: "el_step E w (PostSend p m) (qp2p_send E p m w)"
| post_query_echo: "el_step E w (PostQueryEcho ni ch) (register_and_ask_echo E ni ch w)"
| post_proxies: "el_step E w (PostProxies ps ex) (Inr (install_proxies ps ex w))"
| attempt_cancelled:
    "attempts w t = Some a \<Longrightarrow> t \<in> signalled w \<Longrightarrow>
     el_step E w (AttemptCancelled t)
       (Inr (finish_attempt t (handle_connect_err a ConnectionCancelled w)))"
| attempt_failed:
    "attempts w t = Some a \<Longrightarrow> t \<notin> signalled w \<Longrightarrow>
     el_step E w (AttemptFailed t e)
       (bind_p (handle_new_connection_res E a (Inl e) w) (\<lambda>w'. Inr (finish_attempt t w')))"
| attempt_connected:
    "attempts w t = Some a \<Longrightarrow> t \<notin> signalled w \<Longrightarrow>
     el_step E w (AttemptConnected t)
       (bind_p (handle_new_connection_res E a (Inr (next_q w)) (w\<lparr>next_q := Suc (next_q w)\<rparr>))
          (\<lambda>w'. Inr (finish_attempt t w')))"
| incoming_connection:
    "listening w \<Longrightarrow>
     el_step E w (IncomingConnection a)
       (Inr (handle_new_conn a (next_q w) (w\<lparr>next_q := Suc (next_q w)\<rparr>)))"
| listener_failed:
    "listening w \<Longrightarrow> el_step E w ListenerFailed (Inr (w\<lparr>listening := False\<rparr>))"
| driver_failed_outgoing:
    "(q, a, Outgoing) \<in> set (drivers w) \<Longrightarrow>
     el_step E w (DriverFailed q a Outgoing e)
       (Inr (handle_connect_err a (ConnectionErr e)
              (w\<lparr>drivers := remove1 (q, a, Outgoing) (drivers w)\<rparr>)))"
| driver_failed_incoming:
    "(q, a, Incoming) \<in> set (drivers w) \<Longrightarrow>
     el_step E w (DriverFailed q a Incoming e)
       (Inr (handle_communication_err a (ConnectionErr e)
              (w\<lparr>drivers := remove1 (q, a, Incoming) (drivers w)\<rparr>)))"
| stream_bi:
    "(q, a) \<in> set (readers w) \<Longrightarrow>
     el_step E w (StreamArrived q a BiStream)
       (Inr (snd (read_peer_stream a BiStream (w\<lparr>readers := remove1 (q, a) (readers w)\<rparr>))))"
| stream_uni:
    "(q, a) \<in> set (readers w) \<Longrightarrow>
     el_step E w (StreamArrived q a UniStream) (Inr (snd (read_peer_stream a UniStream w)))"
| incoming_streams_failed:
    "(q, a) \<in> set (readers w) \<Longrightarrow>
     el_step E w (IncomingStreamsFailed q a e)
       (Inr (handle_communication_err a (ConnectionErr e)
              (w\<lparr>readers := remove1 (q, a) (readers w)\<rparr>)))"
| read_finished:
    "a \<in> set (stream_reads w) \<Longrightarrow>
     el_step E w (ReadFinished a out)
       (run_read_task E a out (w\<lparr>stream_reads := remove1 a (stream_reads w)\<rparr>))"
| write_finished:
    "t \<in> set (writes w) \<Longrightarrow>
     el_step E w (WriteFinished t out)
       (run_write_task E t out (w\<lparr>writes := remove1 t (writes w)\<rparr>))"
| killer_fired:
    "a \<in> set (killers w) \<Longrightarrow>
     el_step E w (KillerFired a)
       (Inr (incomplete_conn_killer_fires a (w\<lparr>killers := remove1 a (killers w)\<rparr>)))"

text \<open>
  A run starts from the world that activation installs: no connection, nothing
  spawned, listening exactly when we are a node.
\<close>

definition initial_world :: "world \<Rightarrow> bool" where
  "initial_world w \<longleftrightarrow>
    (\<exists>cert sz idle keep ty cache d.
       w = (context_new cert sz idle keep ty cache d)\<lparr>listening := (ty \<noteq> OurClient)\<rparr>)"

definition reachable :: "extern \<Rightarrow> world \<Rightarrow> bool" where
  "reachable E = reach initial_world (el_step E)"

inductive_simps el_step_simps:
  "el_step E w PostBootstrap r"
  "el_step E w (PostConnectTo ni) r"
  "el_step E w (PostDisconnectFrom a) r"
  "el_step E w (PostSend p m) r"
  "el_step E w (PostQueryEcho ni ch) r"
  "el_step E w (PostProxies ps ex) r"
  "el_step E w (AttemptCancelled t) r"
  "el_step E w (AttemptFailed t e) r"
  "el_step E w (AttemptConnected t) r"
  "el_step E w (IncomingConnection a) r"
  "el_step E w ListenerFailed r"
  "el_step E w (DriverFailed q a d e) r"
  "el_step E w (StreamArrived q a s) r"
  "el_step E w (IncomingStreamsFailed q a e) r"
  "el_step E w (ReadFinished a out) r"
  "el_step E w (WriteFinished tsk out2) r"
  "el_step E w (KillerFired a) r"

section \<open>Executing a label\<close>

text \<open>
  The same steps as a function: \<open>None\<close> when the label cannot happen. It decides
  the relation, so the loop is deterministic up to the choice of the label.
\<close>

definition el_exec :: "extern \<Rightarrow> world \<Rightarrow> label \<Rightarrow> (panic + world) option" where
  "el_exec E w l =
    (case l of
       PostBootstrap \<Rightarrow> Some (qp2p_bootstrap E w)
     | PostConnectTo ni \<Rightarrow> Some (qp2p_connect_to E ni w)
     | PostDisconnectFrom a \<Rightarrow> Some (Inr (qp2p_disconnect_from a w))
     | PostSend p m \<Rightarrow> Some (qp2p_send E p m w)
     | PostQueryEcho ni ch \<Rightarrow> Some (register_and_ask_echo E ni ch w)
     | PostProxies ps ex \<Rightarrow> Some (Inr (install_proxies ps ex w))
     | AttemptCancelled t \<Rightarrow>
         (case attempts w t of
            Some a \<Rightarrow> if t \<in> signalled w
              then Some (Inr (finish_attempt t (handle_connect_err a ConnectionCancelled w)))
              else None
          | None \<Rightarrow> None)
     | AttemptFailed t e \<Rightarrow>
         (case attempts w t of
            Some a \<Rightarrow> if t \<in> signalled w then None
              else Some (bind_p (handle_new_connection_res E a (Inl e) w)
                           (\<lambda>w'. Inr (finish_attempt t w')))
          | None \<Rightarrow> None)
     | AttemptConnected t \<Rightarrow>
         (case attempts w t of
            Some a \<Rightarrow> if t \<in> signalled w then None
              else Some (bind_p (handle_new_connection_res E a (Inr (next_q w))
                             (w\<lparr>next_q := Suc (next_q w)\<rparr>))
                           (\<lambda>w'. Inr (finish_attempt t w')))
          | None \<Rightarrow> None)
     | IncomingConnection a \<Rightarrow>
         if listening w
         then Some (Inr (handle_new_conn a (next_q w) (w\<lparr>next_q := Suc (next_q w)\<rparr>))) else None
     | ListenerFailed \<Rightarrow> if listening w then Some (Inr (w\<lparr>listening := False\<rparr>)) else None
     | DriverFailed q a d e \<Rightarrow>
         if (q, a, d) \<in> set (drivers w)
         then (let w1 = w\<lparr>drivers := remove1 (q, a, d) (drivers w)\<rparr>
               in Some (Inr (case d of
                    Outgoing \<Rightarrow> handle_connect_err a (ConnectionErr e) w1
                  | Incoming \<Rightarrow> handle_communication_err a (ConnectionErr e) w1)))
         else None
     | StreamArrived q a s \<Rightarrow>
         if (q, a) \<in> set (readers w)
         then Some (Inr (snd (read_peer_stream a s
                (case s of BiStream \<Rightarrow> w\<lparr>readers := remove1 (q, a) (readers w)\<rparr> | UniStream \<Rightarrow> w))))
         else None
     | IncomingStreamsFailed q a e \<Rightarrow>
         if (q, a) \<in> set (readers w)
         then Some (Inr (handle_communication_err a (ConnectionErr e)
                (w\<lparr>readers := remove1 (q, a) (readers w)\<rparr>)))
         else None
     | ReadFinished a out \<Rightarrow>
         if a \<in> set (stream_reads w)
         then Some (run_read_task E a out (w\<lparr>stream_reads := remove1 a (stream_reads w)\<rparr>)) else None
     | WriteFinished t out \<Rightarrow>
         if t \<in> set (writes w)
         then Some (run_write_task E t out (w\<lparr>writes := remove1 t (writes w)\<rparr>)) else None
     | KillerFired a \<Rightarrow>
         if a \<in> set (killers w)
         then Some (Inr (incomplete_conn_killer_fires a
                (w\<lparr>killers := remove1 a (killers w)\<rparr>)))
         else None)"

lemma el_step_exec: "el_step E w l r \<longleftrightarrow> el_exec E w l = Some r"
  by (cases l)
    (auto simp: el_step_simps el_exec_def Let_def split: option.splits direction.splits new_stream.splits)

fun el_run :: "extern \<Rightarrow> label list \<Rightarrow> world \<Rightarrow> world option" where
  "el_run E [] w = Some w"
| "el_run E (l # ls) w =
    (case el_exec E w l of Some (Inr w') \<Rightarrow> el_run E ls w' | _ \<Rightarrow> None)"

lemma reachable_init: "initial_world w \<Longrightarrow> reachable E w"
  by (simp add: reachable_def reach_init)

lemma reachable_step: "reachable E w \<Longrightarrow> el_step E w l (Inr w') \<Longrightarrow> reachable E w'"
  by (auto simp: reachable_def intro: reach_step)

lemma el_run_reachable:
  "el_run E ls w = Some w' \<Longrightarrow> reachable E w \<Longrightarrow> reachable E w'"
proof (induction E ls w rule: el_run.induct)
  case (2 E l ls w)
  then obtain w1 where "el_exec E w l = Some (Inr w1)" "el_run E ls w1 = Some w'"
    by (auto split: option.splits sum.splits)
  with 2 show ?case using reachable_step el_step_exec by blast
qed simp

end
