(* ===== verification/Conn_Invariant.thy ===== *)
theory Conn_Invariant
  imports Event_System
begin

text \<open>
  The invariants of the event loop: what the table of connections, the attempts
  in flight, the timers, the reference counts of the bootstrap groups, the QUIC
  connections and the event stream have to do with one another. Each invariant
  has a lemma per kind of change, and \<open>reachable_inv\<close> puts them together.
\<close>

section \<open>The invariants\<close>

text \<open>
  One connection. A client never expects the peer to connect back; a node
  without a connection to the peer (or with a client as peer) has one from it; a
  member of a bootstrap group is still on its way; messages wait only until the
  connection to the peer is made, and handshakes never wait.
\<close>

definition conn_wf :: "our_type \<Rightarrow> socket_addr \<Rightarrow> connection \<Rightarrow> bool" where
  "conn_wf ty a c \<longleftrightarrow>
    conn_peer_addr c = a \<and>
    (case ty of
       OurClient \<Rightarrow> from_peer c = FpNotNeeded \<and>
         (tp_is_initiated (to_peer c) \<or> tp_is_established (to_peer c))
     | OurNode \<Rightarrow> \<not> fp_is_not_needed (from_peer c) \<and>
         (tp_is_no_connection (to_peer c) \<or> tp_is_not_needed (to_peer c) \<longrightarrow>
            fp_is_established (from_peer c))) \<and>
    (case bootstrap_group_ref c of
       None \<Rightarrow> True
     | Some r \<Rightarrow> gr_peer_addr r = a \<and> \<not> is_complete c \<and>
         (tp_is_initiated (to_peer c) \<or> tp_is_established (to_peer c))) \<and>
    (case from_peer c of
       FpEstablished q reads \<Rightarrow>
         (\<forall>m \<in> set reads. \<not> is_handshake m) \<and> (tp_is_established (to_peer c) \<longrightarrow> reads = [])
     | _ \<Rightarrow> True)"

text \<open>
  The addresses in \<open>X\<close> are those whose entry a handler is still working on;
  between steps there is none.
\<close>

definition table_ok :: "socket_addr set \<Rightarrow> world \<Rightarrow> bool" where
  "table_ok X w \<longleftrightarrow>
    finite (dom (connections w)) \<and>
    (\<forall>a c. connections w a = Some c \<longrightarrow> conn_peer_addr c = a) \<and>
    (\<forall>a c. connections w a = Some c \<longrightarrow> a \<notin> X \<longrightarrow> conn_wf (our_type w) a c) \<and>
    (listening w \<longrightarrow> our_type w = OurNode)"

text \<open>
  An attempt that has not been told to stop belongs to a connection that waits
  for it, and a connection that waits has its attempt in flight.
\<close>

definition attempts_ok :: "socket_addr set \<Rightarrow> world \<Rightarrow> bool" where
  "attempts_ok X w \<longleftrightarrow>
    (\<forall>t a. attempts w t = Some a \<longrightarrow> t \<notin> signalled w \<longrightarrow>
       (\<exists>c cert sends. connections w a = Some c \<and> to_peer c = TpInitiated t cert sends)) \<and>
    (\<forall>a c t cert sends. connections w a = Some c \<longrightarrow> to_peer c = TpInitiated t cert sends \<longrightarrow>
       a \<notin> X \<longrightarrow> attempts w t = Some a) \<and>
    (\<forall>t a. attempts w t = Some a \<longrightarrow> t < next_term w)"

definition killers_ok :: "world \<Rightarrow> bool" where
  "killers_ok w \<longleftrightarrow>
    (\<forall>a c. connections w a = Some c \<longrightarrow> \<not> is_complete c \<longrightarrow> a \<in> set (killers w))"

text \<open>
  The strong count of a group is the number of its owners: the connections that
  hold a reference and the maker \<open>mk\<close>, which exists while bootstrapping starts.
\<close>

definition holds_ref :: "nat \<Rightarrow> connection \<Rightarrow> bool" where
  "holds_ref g c \<longleftrightarrow> (\<exists>r. bootstrap_group_ref c = Some r \<and> gr_group r = g)"

definition rc_of :: "world \<Rightarrow> nat \<Rightarrow> nat" where
  "rc_of w g = (case groups w g of None \<Rightarrow> 0 | Some grp \<Rightarrow> group_rc grp)"

definition groups_ok :: "nat option \<Rightarrow> world \<Rightarrow> bool" where
  "groups_ok mk w \<longleftrightarrow>
    (\<forall>g. rc_of w g = count_keys (holds_ref g) (connections w) + of_bool (mk = Some g)) \<and>
    (\<forall>g grp. groups w g = Some grp \<longrightarrow> 0 < group_rc grp) \<and>
    (\<forall>g. groups w g \<noteq> None \<longrightarrow> g < next_group w)"

text \<open>
  Every QUIC connection made is owned by exactly one slot of one connection, or
  closed, once.
\<close>

definition own_at :: "world \<Rightarrow> socket_addr \<Rightarrow> nat list" where
  "own_at w a = (case connections w a of None \<Rightarrow> [] | Some c \<Rightarrow> q_conns c)"

definition q_ok :: "world \<Rightarrow> bool" where
  "q_ok w \<longleftrightarrow>
    (\<forall>q. q < next_q w \<longleftrightarrow> q \<in> set (closed w) \<or> (\<exists>a. q \<in> set (own_at w a))) \<and>
    (\<forall>a q. q \<in> set (own_at w a) \<longrightarrow> q \<notin> set (closed w)) \<and>
    (\<forall>a b q. q \<in> set (own_at w a) \<longrightarrow> q \<in> set (own_at w b) \<longrightarrow> a = b) \<and>
    (\<forall>a. distinct (own_at w a)) \<and>
    distinct (closed w)"

text \<open>
  What the user sees of one peer: connected, then messages, then a failure, then
  perhaps connected again. The automaton is in state \<open>Some b\<close> when the events so
  far obey this and \<open>b\<close> says whether the peer is connected.
\<close>

fun ev_step :: "socket_addr \<Rightarrow> bool option \<Rightarrow> event \<Rightarrow> bool option" where
  "ev_step a None e = None"
| "ev_step a (Some b) (BootstrappedTo ni) =
     (if ni_peer_addr ni = a then (if b then None else Some True) else Some b)"
| "ev_step a (Some b) (ConnectedTo p) =
     (if peer_addr p = a then (if b then None else Some True) else Some b)"
| "ev_step a (Some b) (NewMessage a' m) = (if a' = a then (if b then Some b else None) else Some b)"
| "ev_step a (Some b) (ConnectionFailure a') =
     (if a' = a then (if b then Some False else None) else Some b)"
| "ev_step a (Some b) BootstrapFailure = Some b"
| "ev_step a (Some b) Finish = Some b"

definition ev_state :: "socket_addr \<Rightarrow> event list \<Rightarrow> bool option" where
  "ev_state a es = foldl (ev_step a) (Some False) es"

definition complete_at :: "world \<Rightarrow> socket_addr \<Rightarrow> bool" where
  "complete_at w a \<longleftrightarrow> (\<exists>c. connections w a = Some c \<and> is_complete c)"

definition events_ok :: "world \<Rightarrow> bool" where
  "events_ok w \<longleftrightarrow> (\<forall>a. ev_state a (events w) = Some (complete_at w a))"

definition inv :: "socket_addr set \<Rightarrow> nat option \<Rightarrow> world \<Rightarrow> bool" where
  "inv X mk w \<longleftrightarrow> table_ok X w \<and> attempts_ok X w \<and> killers_ok w \<and> groups_ok mk w \<and> q_ok w \<and> events_ok w"

section \<open>Invariants see the core and the events only\<close>

lemma inv_core:
  assumes "core w = core w'" and "events w = events w'"
  shows "inv X mk w \<longleftrightarrow> inv X mk w'"
  using core_fields [OF assms(1)] assms(2)
  by (simp add: inv_def table_ok_def attempts_ok_def killers_ok_def groups_ok_def rc_of_def
      q_ok_def own_at_def events_ok_def complete_at_def)

lemma inv_initial: "initial_world w \<Longrightarrow> inv {} None w"
  by (auto simp: initial_world_def context_new_def inv_def table_ok_def attempts_ok_def
      killers_ok_def groups_ok_def rc_of_def q_ok_def own_at_def events_ok_def complete_at_def
      ev_state_def
      intro: our_type.exhaust)

section \<open>The event automaton\<close>

lemma ev_state_append: "ev_state a (es @ es') = foldl (ev_step a) (ev_state a es) es'"
  by (simp add: ev_state_def)

lemma foldl_ev_failures:
  "set es \<subseteq> {BootstrapFailure} \<Longrightarrow> foldl (ev_step a) s es = s"
  by (induction es) (auto simp: ev_step.simps split: option.splits, (cases s; simp)+)

lemma foldl_ev_messages:
  "foldl (ev_step a) (Some b) (concat (map (msg_events a') ms)) =
    (if a' = a \<and> \<not> b \<and> (\<exists>m. UserMsg m \<in> set ms) then None else Some b)"
proof (induction ms)
  case Nil
  then show ?case by simp
next
  case (Cons m ms)
  have none: "foldl (ev_step a) None es = None" for es
    by (induction es) simp_all
  show ?case
    using Cons.IH none by (cases m) (auto simp: msg_events_def)
qed

section \<open>Removing a connection\<close>

lemma table_ok_remove: "table_ok X w \<Longrightarrow> table_ok (X - {a}) (remove_connection a w)"
  by (auto simp: table_ok_def world_simps)

lemma attempts_ok_live:
  "attempts_ok X w \<Longrightarrow> attempts w t = Some a \<Longrightarrow> t \<notin> signalled w \<Longrightarrow>
    \<exists>c cert sends. connections w a = Some c \<and> to_peer c = TpInitiated t cert sends"
  by (simp add: attempts_ok_def)

lemma attempts_ok_waiting:
  "attempts_ok X w \<Longrightarrow> connections w a = Some c \<Longrightarrow> to_peer c = TpInitiated t cert sends \<Longrightarrow>
    a \<notin> X \<Longrightarrow> attempts w t = Some a"
  by (simp add: attempts_ok_def)

lemma attempts_ok_fresh: "attempts_ok X w \<Longrightarrow> attempts w t = Some a \<Longrightarrow> t < next_term w"
  by (simp add: attempts_ok_def)

lemma attempts_okI:
  assumes "\<And>t a. attempts w t = Some a \<Longrightarrow> t \<notin> signalled w \<Longrightarrow>
       \<exists>c cert sends. connections w a = Some c \<and> to_peer c = TpInitiated t cert sends"
    and "\<And>a c t cert sends. connections w a = Some c \<Longrightarrow> to_peer c = TpInitiated t cert sends \<Longrightarrow>
       a \<notin> X \<Longrightarrow> attempts w t = Some a"
    and "\<And>t a. attempts w t = Some a \<Longrightarrow> t < next_term w"
  shows "attempts_ok X w"
  using assms by (simp add: attempts_ok_def)

lemma signalled_remove_connection_mono: "signalled w \<subseteq> signalled (remove_connection a w)"
  by (auto simp: signalled_remove_connection split: option.splits to_peer.splits)

lemma remove_connection_signals:
  "connections w a = Some c \<Longrightarrow> to_peer c = TpInitiated t cert sends \<Longrightarrow>
    t \<in> signalled (remove_connection a w)"
  by (simp add: signalled_remove_connection)

lemma attempts_ok_remove:
  assumes "attempts_ok X w"
  shows "attempts_ok (X - {a}) (remove_connection a w)"
proof (rule attempts_okI)
  fix t b
  assume t: "attempts (remove_connection a w) t = Some b" "t \<notin> signalled (remove_connection a w)"
  then have "t \<notin> signalled w" using signalled_remove_connection_mono by blast
  then obtain c cert sends where c: "connections w b = Some c" "to_peer c = TpInitiated t cert sends"
    using attempts_ok_live [OF assms, of t b] t(1) by (auto simp: world_simps)
  then have "b \<noteq> a" using remove_connection_signals t(2) by blast
  with c show "\<exists>c cert sends. connections (remove_connection a w) b = Some c \<and>
      to_peer c = TpInitiated t cert sends"
    by (simp add: world_simps)
qed (use assms in \<open>auto simp: world_simps split: if_splits
      intro: attempts_ok_waiting attempts_ok_fresh\<close>)

lemma killers_ok_remove: "killers_ok w \<Longrightarrow> killers_ok (remove_connection a w)"
  by (auto simp: killers_ok_def world_simps)

lemma rc_of_drop_group_rc:
  assumes "\<And>grp. groups w g = Some grp \<Longrightarrow> 0 < group_rc grp"
  shows "rc_of (drop_group_rc g w) = (rc_of w)(g := rc_of w g - 1)"
  using assms
  by (auto simp: rc_of_def drop_group_rc_def drop_bootstrap_group_def effect_defs Let_def
      fun_eq_iff split: option.splits)

lemma rc_pos_drop_group_rc:
  assumes "\<And>g grp. groups w g = Some grp \<Longrightarrow> 0 < group_rc grp"
    and "groups (drop_group_rc g w) g' = Some grp"
  shows "0 < group_rc grp"
  using assms
  by (auto simp: drop_group_rc_def drop_bootstrap_group_def effect_defs Let_def
      split: option.splits if_splits)

lemma groups_dom_drop_group_rc: "groups (drop_group_rc g w) g' \<noteq> None \<Longrightarrow> groups w g' \<noteq> None"
  by (auto simp: drop_group_rc_def drop_bootstrap_group_def effect_defs Let_def
      split: option.splits if_splits)

lemma groups_ok_drop_rc:
  assumes pos: "\<And>g grp. groups w g = Some grp \<Longrightarrow> 0 < group_rc grp"
    and bound: "\<And>g. groups w g \<noteq> None \<Longrightarrow> g < next_group w"
    and rc: "\<And>g'. rc_of w g' =
      count_keys (holds_ref g') (connections w) + of_bool (mk = Some g') + of_bool (g' = g)"
  shows "groups_ok mk (drop_group_rc g w)"
  unfolding groups_ok_def
proof (intro conjI allI impI)
  fix g'
  show "rc_of (drop_group_rc g w) g' =
      count_keys (holds_ref g') (connections (drop_group_rc g w)) + of_bool (mk = Some g')"
    using rc [of g'] by (cases "g' = g") (auto simp: rc_of_drop_group_rc [OF pos] world_simps)
next
  fix g' grp
  assume "groups (drop_group_rc g w) g' = Some grp"
  then show "0 < group_rc grp" by (rule rc_pos_drop_group_rc [rotated]) (rule pos)
next
  fix g'
  assume "groups (drop_group_rc g w) g' \<noteq> None"
  then show "g' < next_group (drop_group_rc g w)"
    using bound groups_dom_drop_group_rc by (simp add: world_simps)
qed

lemma groups_ok_drop_ref:
  assumes pos: "\<And>g grp. groups w g = Some grp \<Longrightarrow> 0 < group_rc grp"
    and bound: "\<And>g. groups w g \<noteq> None \<Longrightarrow> g < next_group w"
    and rc: "\<And>g. rc_of w g =
      count_keys (holds_ref g) (connections w) + of_bool (mk = Some g) + of_bool (g = gr_group r)"
  shows "groups_ok mk (drop_bootstrap_group_ref r w)"
proof -
  define w1 where "w1 = (case groups w (gr_group r) of
       None \<Rightarrow> w
     | Some grp \<Rightarrow>
         w\<lparr>groups := (groups w)(gr_group r \<mapsto>
            grp\<lparr>terminators := AList.delete (gr_peer_addr r) (terminators grp)\<rparr>)\<rparr>)"
  have "rc_of w1 = rc_of w"
    by (auto simp: w1_def rc_of_def fun_eq_iff split: option.splits)
  moreover have "connections w1 = connections w" "next_group w1 = next_group w"
    by (simp_all add: w1_def split: option.splits)
  moreover have "0 < group_rc grp" if "groups w1 g = Some grp" for g grp
    using that pos by (auto simp: w1_def split: option.splits if_splits)
  moreover have "groups w g \<noteq> None" if "groups w1 g \<noteq> None" for g
    using that by (auto simp: w1_def split: option.splits if_splits)
  ultimately have "groups_ok mk (drop_group_rc (gr_group r) w1)"
    using rc bound by (intro groups_ok_drop_rc) auto
  then show ?thesis by (simp add: drop_bootstrap_group_ref_def w1_def)
qed

lemma groups_ok_rc: "groups_ok mk w \<Longrightarrow>
    rc_of w g = count_keys (holds_ref g) (connections w) + of_bool (mk = Some g)"
  by (simp add: groups_ok_def)

lemma groups_ok_pos: "groups_ok mk w \<Longrightarrow> groups w g = Some grp \<Longrightarrow> 0 < group_rc grp"
  by (simp add: groups_ok_def)

lemma groups_ok_bound: "groups_ok mk w \<Longrightarrow> groups w g \<noteq> None \<Longrightarrow> g < next_group w"
  by (simp add: groups_ok_def)

text \<open>The owners are counted, so only the connections, the groups and the next handle matter.\<close>

lemma groups_ok_cong:
  assumes "groups w = groups w'" "connections w = connections w'" "next_group w = next_group w'"
  shows "groups_ok mk w \<longleftrightarrow> groups_ok mk w'"
  using assms by (simp add: groups_ok_def rc_of_def)

lemma count_holds_ref_upd:
  assumes "finite (dom m)"
  shows "count_keys (holds_ref g) (m(a := oc)) +
      (case m a of Some c \<Rightarrow> of_bool (holds_ref g c) | None \<Rightarrow> 0) =
    count_keys (holds_ref g) m + (case oc of Some c \<Rightarrow> of_bool (holds_ref g c) | None \<Rightarrow> 0)"
  by (rule count_keys_upd [OF assms])

lemma groups_ok_remove:
  assumes ok: "groups_ok mk w" and fin: "finite (dom (connections w))"
  shows "groups_ok mk (remove_connection a w)"
proof (cases "connections w a")
  case None
  then show ?thesis using ok by (simp add: remove_connection_def)
next
  case (Some c)
  define w1 where "w1 = drop_from_peer (from_peer c) (drop_to_peer (to_peer c)
      (if is_complete c then send_event (ConnectionFailure (conn_peer_addr c))
          (w\<lparr>connections := (connections w)(a := None)\<rparr>)
       else w\<lparr>connections := (connections w)(a := None)\<rparr>))"
  have w1: "groups w1 = groups w" "connections w1 = (connections w)(a := None)"
      "next_group w1 = next_group w" "rc_of w1 = rc_of w"
    by (simp_all add: w1_def world_simps effect_defs rc_of_def fun_eq_iff)
  have count: "count_keys (holds_ref g) (connections w) =
      count_keys (holds_ref g) (connections w1) + of_bool (holds_ref g c)" for g
    using count_holds_ref_upd [OF fin, of g a None] Some by (simp add: w1)
  have eq: "remove_connection a w = drop_group_ref_opt (bootstrap_group_ref c) w1"
    using Some by (simp add: remove_connection_def drop_connection_def w1_def Let_def)
  show ?thesis
  proof (cases "bootstrap_group_ref c")
    case None
    then have "groups_ok mk w1"
      using ok count by (simp add: groups_ok_def w1 holds_ref_def)
    then show ?thesis by (simp add: eq None drop_group_ref_opt_def)
  next
    case (Some r)
    have "groups_ok mk (drop_bootstrap_group_ref r w1)"
    proof (rule groups_ok_drop_ref)
      fix g
      show "rc_of w1 g = count_keys (holds_ref g) (connections w1) + of_bool (mk = Some g) +
          of_bool (g = gr_group r)"
        using groups_ok_rc [OF ok, of g] count [of g] Some by (auto simp: w1 holds_ref_def)
    qed (use ok in \<open>auto simp: w1 groups_ok_def\<close>)
    then show ?thesis by (simp add: eq Some drop_group_ref_opt_def)
  qed
qed

lemma own_at_remove: "own_at (remove_connection a w) = (own_at w)(a := [])"
  by (auto simp: own_at_def world_simps fun_eq_iff)

lemma q_ok_remove:
  assumes ok: "q_ok w"
  shows "q_ok (remove_connection a w)"
proof -
  have cl: "closed (remove_connection a w) = closed w @ own_at w a"
    by (simp add: closed_remove_connection own_at_def split: option.splits)
  have owned: "q < next_q w \<longleftrightarrow> q \<in> set (closed w @ own_at w a) \<or>
      (\<exists>b. q \<in> set (((own_at w)(a := [])) b))" for q
    using ok by (auto simp: q_ok_def)
  show ?thesis
    unfolding q_ok_def cl own_at_remove
    using ok owned by (auto simp: q_ok_def world_simps)
qed

lemma events_ok_append:
  assumes ok: "events_ok w" and ev: "events w' = events w @ es"
    and "\<And>b. foldl (ev_step b) (Some (complete_at w b)) es = Some (complete_at w' b)"
  shows "events_ok w'"
  using assms by (simp add: events_ok_def ev_state_append)

lemma events_ok_remove:
  assumes ok: "events_ok w" and tab: "table_ok X w"
  shows "events_ok (remove_connection a w)"
proof -
  obtain es where es: "set es \<subseteq> {BootstrapFailure}" and
    ev: "events (remove_connection a w) = events w @ (case connections w a of
       Some c \<Rightarrow> if is_complete c then [ConnectionFailure (conn_peer_addr c)] else []
     | None \<Rightarrow> []) @ es"
    using events_remove_connection by blast
  have addr: "connections w a = Some c \<Longrightarrow> conn_peer_addr c = a" for c
    using tab by (simp add: table_ok_def conn_wf_def)
  show ?thesis
    by (rule events_ok_append [OF ok ev])
      (auto simp: foldl_ev_failures [OF es] complete_at_def world_simps addr split: option.splits)
qed

lemma table_ok_finite: "table_ok X w \<Longrightarrow> finite (dom (connections w))"
  by (simp add: table_ok_def)

lemma inv_remove: "inv X mk w \<Longrightarrow> inv (X - {a}) mk (remove_connection a w)"
  unfolding inv_def
  by (blast intro: table_ok_remove attempts_ok_remove killers_ok_remove q_ok_remove
      events_ok_remove groups_ok_remove table_ok_finite)

lemma inv_remove_at: "inv {a} mk w \<Longrightarrow> inv {} mk (remove_connection a w)"
  using inv_remove [of "{a}" mk w a] by simp

lemma inv_remove_clean: "inv {} mk w \<Longrightarrow> inv {} mk (remove_connection a w)"
  using inv_remove [of "{}" mk w a] by simp

lemma inv_weaken: "inv {} mk w \<Longrightarrow> inv X mk w"
  by (simp add: inv_def table_ok_def attempts_ok_def)


section \<open>Attempts end\<close>

lemma inv_finish_attempt:
  assumes inv: "inv {} mk w"
    and gone: "\<And>c cert sends. connections w a = Some c \<Longrightarrow> to_peer c \<noteq> TpInitiated t cert sends"
    and mine: "attempts w t = Some a"
  shows "inv {} mk (finish_attempt t w)"
proof -
  have att: "attempts_ok {} w" using inv by (simp add: inv_def)
  have nobody: "to_peer c \<noteq> TpInitiated t cert sends" if "connections w b = Some c" for b c cert sends
    using attempts_ok_waiting [OF att that] gone mine that by (metis empty_iff option.inject)
  have "attempts_ok {} (finish_attempt t w)"
  proof (rule attempts_okI)
    fix t' b
    assume "attempts (finish_attempt t w) t' = Some b" and "t' \<notin> signalled (finish_attempt t w)"
    then show "\<exists>c cert sends. connections (finish_attempt t w) b = Some c \<and>
        to_peer c = TpInitiated t' cert sends"
      using attempts_ok_live [OF att, of t' b] by (simp add: finish_attempt_def split: if_splits)
  qed (use att nobody in \<open>auto simp: finish_attempt_def attempts_ok_def split: if_splits\<close>)
  then show ?thesis using inv
    by (simp add: inv_def finish_attempt_def table_ok_def killers_ok_def groups_ok_def rc_of_def
        q_ok_def own_at_def events_ok_def complete_at_def)
qed

section \<open>References to a bootstrap group\<close>

text \<open>The entry of an address while its attempt is being set up.\<close>

definition entry_ready :: "socket_addr \<Rightarrow> connection \<Rightarrow> world \<Rightarrow> bool" where
  "entry_ready a c w \<longleftrightarrow>
    connections w a = Some c \<and> to_peer c = TpNoConnection \<and>
    (our_type w = OurClient \<longrightarrow> from_peer c = FpNoConnection) \<and>
    \<not> fp_is_not_needed (from_peer c) \<and>
    (\<forall>r. bootstrap_group_ref c = Some r \<longrightarrow> gr_peer_addr r = a) \<and>
    (\<forall>q reads. from_peer c = FpEstablished q reads \<longrightarrow> (\<forall>m \<in> set reads. \<not> is_handshake m))"

lemma rc_of_add_member:
  "groups w g \<noteq> None \<Longrightarrow>
    rc_of (snd (add_member_and_get_group_ref g a t w)) = (rc_of w)(g := Suc (rc_of w g))"
  by (auto simp: add_member_and_get_group_ref_def rc_of_def effect_defs Let_def fun_eq_iff
      split: option.splits)

lemma groups_add_member_pos:
  assumes "\<And>g grp. groups w g = Some grp \<Longrightarrow> 0 < group_rc grp"
    and "groups (snd (add_member_and_get_group_ref g a t w)) g' = Some grp"
  shows "0 < group_rc grp"
  using assms
  by (auto simp: add_member_and_get_group_ref_def effect_defs Let_def
      split: option.splits if_splits)

lemma groups_add_member_dom:
  "groups (snd (add_member_and_get_group_ref g a t w)) g' \<noteq> None \<longleftrightarrow> groups w g' \<noteq> None"
  by (auto simp: add_member_and_get_group_ref_def effect_defs Let_def split: option.splits)

text \<open>
  Taking a reference and storing it in the entry of \<open>a\<close>, which held none.
\<close>

definition make_ref_ok :: "nat option \<Rightarrow> world \<Rightarrow> bool" where
  "make_ref_ok maker w \<longleftrightarrow> (\<forall>g. maker = Some g \<longrightarrow> groups w g \<noteq> None)"

lemma make_group_ref_conv:
  "make_group_ref maker a t w =
    (case maker of
       None \<Rightarrow> (None, w)
     | Some g \<Rightarrow> (Some \<lparr>gr_peer_addr = a, gr_group = g\<rparr>,
                  snd (add_member_and_get_group_ref g a t w)))"
  by (auto simp: make_group_ref_def add_member_and_get_group_ref_def split: option.splits)

lemma make_group_ref_frame [world_simps]:
  "connections (snd (make_group_ref maker a t w)) = connections w"
  "our_type (snd (make_group_ref maker a t w)) = our_type w"
  "listening (snd (make_group_ref maker a t w)) = listening w"
  "attempts (snd (make_group_ref maker a t w)) = attempts w"
  "killers (snd (make_group_ref maker a t w)) = killers w"
  "closed (snd (make_group_ref maker a t w)) = closed w"
  "events (snd (make_group_ref maker a t w)) = events w"
  "next_term (snd (make_group_ref maker a t w)) = next_term w"
  "next_q (snd (make_group_ref maker a t w)) = next_q w"
  "next_group (snd (make_group_ref maker a t w)) = next_group w"
  by (simp_all add: make_group_ref_conv world_simps split: option.splits)

lemma signalled_make_group_ref: "signalled w \<subseteq> signalled (snd (make_group_ref maker a t w))"
  using signalled_add_member by (auto simp: make_group_ref_conv split: option.splits)

lemma fst_make_group_ref:
  "fst (make_group_ref maker a t w) =
    map_option (\<lambda>g. \<lparr>gr_peer_addr = a, gr_group = g\<rparr>) maker"
  by (simp add: make_group_ref_conv split: option.splits)

lemma groups_make_group_ref_dom:
  "groups (snd (make_group_ref maker a t w)) g \<noteq> None \<longleftrightarrow> groups w g \<noteq> None"
  by (simp add: make_group_ref_conv groups_add_member_dom [simplified] split: option.splits)

section \<open>Writing one entry of the table\<close>

definition put_conn :: "socket_addr \<Rightarrow> connection \<Rightarrow> world \<Rightarrow> world" where
  "put_conn a c w = w\<lparr>connections := (connections w)(a \<mapsto> c)\<rparr>"

lemma put_conn_frame [world_simps]:
  "connections (put_conn a c w) = (connections w)(a \<mapsto> c)"
  "our_type (put_conn a c w) = our_type w"
  "listening (put_conn a c w) = listening w"
  "groups (put_conn a c w) = groups w"
  "signalled (put_conn a c w) = signalled w"
  "attempts (put_conn a c w) = attempts w"
  "killers (put_conn a c w) = killers w"
  "closed (put_conn a c w) = closed w"
  "events (put_conn a c w) = events w"
  "next_term (put_conn a c w) = next_term w"
  "next_q (put_conn a c w) = next_q w"
  "next_group (put_conn a c w) = next_group w"
  by (simp_all add: put_conn_def)

lemma table_ok_put:
  assumes "table_ok X w" and "conn_peer_addr c = a" and "a \<notin> Y \<Longrightarrow> conn_wf (our_type w) a c"
    and "X \<subseteq> insert a Y"
  shows "table_ok Y (put_conn a c w)"
proof -
  have "b \<notin> X" if "b \<noteq> a" "b \<notin> Y" for b using that assms(4) by blast
  then show ?thesis using assms(1,2,3) by (auto simp: table_ok_def world_simps)
qed

lemma killers_ok_put:
  assumes "killers_ok w" and "\<not> is_complete c \<Longrightarrow> a \<in> set (killers w)"
  shows "killers_ok (put_conn a c w)"
  using assms by (auto simp: killers_ok_def world_simps)

lemma groups_ok_put:
  assumes ok: "groups_ok mk w" and fin: "finite (dom (connections w))"
    and same: "bootstrap_group_ref c =
      (case connections w a of None \<Rightarrow> None | Some c0 \<Rightarrow> bootstrap_group_ref c0)"
  shows "groups_ok mk (put_conn a c w)"
proof -
  have "count_keys (holds_ref g) ((connections w)(a \<mapsto> c)) = count_keys (holds_ref g) (connections w)"
    for g
    using count_holds_ref_upd [OF fin, of g a "Some c"] same
    by (auto simp: holds_ref_def split: option.splits)
  then show ?thesis using ok by (simp add: groups_ok_def world_simps rc_of_def)
qed

lemma groups_ok_put_ref:
  assumes ok: "groups_ok mk w" and fin: "finite (dom (connections w))"
    and none: "\<And>c0. connections w a = Some c0 \<Longrightarrow> bootstrap_group_ref c0 = None"
    and mk: "make_ref_ok maker w"
    and ref: "bootstrap_group_ref c = fst (make_group_ref maker a t w)"
  shows "groups_ok mk (put_conn a c (snd (make_group_ref maker a t w)))"
proof (cases maker)
  case None
  then show ?thesis
    using groups_ok_put [OF ok fin, of c a] none ref
    by (simp add: make_group_ref_def split: option.splits)
next
  case (Some g)
  let ?w1 = "snd (add_member_and_get_group_ref g a t w)"
  have g: "groups w g \<noteq> None" using mk Some by (simp add: make_ref_ok_def)
  have count: "count_keys (holds_ref g') ((connections w)(a \<mapsto> c)) =
      count_keys (holds_ref g') (connections w) + of_bool (g' = g)" for g'
    using count_holds_ref_upd [OF fin, of g' a "Some c"] none ref Some
    by (auto simp: holds_ref_def fst_make_group_ref split: option.splits)
  have "groups_ok mk (put_conn a c ?w1)"
    unfolding groups_ok_def
  proof (intro conjI allI impI)
    fix g'
    have "rc_of (put_conn a c ?w1) = rc_of ?w1" by (simp add: rc_of_def fun_eq_iff world_simps)
    then show "rc_of (put_conn a c ?w1) g' =
        count_keys (holds_ref g') (connections (put_conn a c ?w1)) + of_bool (mk = Some g')"
      using groups_ok_rc [OF ok, of g'] count [of g'] by (auto simp: rc_of_add_member [OF g] world_simps)
  next
    fix g' grp
    assume "groups (put_conn a c ?w1) g' = Some grp"
    then show "0 < group_rc grp"
      using groups_add_member_pos [of w g a t g' grp] groups_ok_pos [OF ok] by (auto simp: world_simps)
  next
    fix g'
    assume "groups (put_conn a c ?w1) g' \<noteq> None"
    then show "g' < next_group (put_conn a c ?w1)"
      using groups_ok_bound [OF ok] groups_add_member_dom [of g a t w g'] by (simp add: world_simps)
  qed
  then show ?thesis using Some by (simp add: make_group_ref_conv)
qed

lemma own_at_put: "own_at (put_conn a c w) = (own_at w)(a := q_conns c)"
  by (auto simp: own_at_def world_simps fun_eq_iff)

lemma q_ok_put:
  assumes "q_ok w" and "q_conns c = own_at w a"
  shows "q_ok (put_conn a c w)"
proof -
  have "own_at (put_conn a c w) = own_at w" using assms(2) by (simp add: own_at_put)
  then show ?thesis using assms(1) by (simp add: q_ok_def world_simps)
qed

lemma events_ok_put:
  assumes "events_ok w" and "is_complete c \<longleftrightarrow> complete_at w a"
  shows "events_ok (put_conn a c w)"
  using assms by (auto simp: events_ok_def complete_at_def world_simps)

lemma attempts_ok_put:
  assumes ok: "attempts_ok X w" and sub: "X \<subseteq> insert a Y"
    and wait: "\<And>t cert sends. to_peer c = TpInitiated t cert sends \<Longrightarrow> a \<notin> Y \<Longrightarrow> attempts w t = Some a"
    and live: "\<And>c0 t cert sends. connections w a = Some c0 \<Longrightarrow> to_peer c0 = TpInitiated t cert sends \<Longrightarrow>
       t \<notin> signalled w \<Longrightarrow> attempts w t = Some a \<Longrightarrow> \<exists>cert sends. to_peer c = TpInitiated t cert sends"
  shows "attempts_ok Y (put_conn a c w)"
proof (rule attempts_okI)
  fix t b
  assume t: "attempts (put_conn a c w) t = Some b" "t \<notin> signalled (put_conn a c w)"
  then obtain c0 cert sends where "connections w b = Some c0" "to_peer c0 = TpInitiated t cert sends"
    using attempts_ok_live [OF ok, of t b] by (auto simp: world_simps)
  then show "\<exists>c' cert sends. connections (put_conn a c w) b = Some c' \<and>
      to_peer c' = TpInitiated t cert sends"
    using live t by (auto simp: world_simps)
next
  fix b c' t cert sends
  assume "connections (put_conn a c w) b = Some c'" "to_peer c' = TpInitiated t cert sends" "b \<notin> Y"
  moreover from this(3) sub have "b \<noteq> a \<Longrightarrow> b \<notin> X" by blast
  ultimately show "attempts (put_conn a c w) t = Some b"
    using wait attempts_ok_waiting [OF ok] by (auto simp: world_simps split: if_splits)
qed (use attempts_ok_fresh [OF ok] in \<open>simp add: world_simps\<close>)
text \<open>
  Signals, timers and handles may be added, and groups change, without touching
  the other invariants.
\<close>

lemma frame_but_groups:
  assumes inv: "inv X mk w"
    and same: "connections w' = connections w" "our_type w' = our_type w"
      "attempts w' = attempts w" "closed w' = closed w" "next_q w' = next_q w"
      "events w' = events w"
    and grow: "listening w' \<longrightarrow> listening w" "signalled w \<subseteq> signalled w'"
      "set (killers w) \<subseteq> set (killers w')" "next_term w \<le> next_term w'"
  shows "table_ok X w'" "attempts_ok X w'" "killers_ok w'" "q_ok w'" "events_ok w'"
proof -
  have att: "attempts_ok X w" using inv by (simp add: inv_def)
  show "attempts_ok X w'"
  proof (rule attempts_okI)
    fix t a
    assume "attempts w' t = Some a" "t \<notin> signalled w'"
    then show "\<exists>c cert sends. connections w' a = Some c \<and> to_peer c = TpInitiated t cert sends"
      using attempts_ok_live [OF att, of t a] grow(2) same by auto
  next
    fix t a
    assume "attempts w' t = Some a"
    then show "t < next_term w'" using attempts_ok_fresh [OF att] grow(4) same by fastforce
  qed (use att same in \<open>auto intro: attempts_ok_waiting\<close>)
  show "table_ok X w'" "killers_ok w'" "q_ok w'" "events_ok w'"
    using inv same grow
    by (auto simp: inv_def table_ok_def killers_ok_def q_ok_def own_at_def events_ok_def
        complete_at_def)
qed

lemma inv_frame:
  assumes inv: "inv X mk w"
    and same: "connections w' = connections w" "our_type w' = our_type w"
      "attempts w' = attempts w" "closed w' = closed w" "next_q w' = next_q w"
      "events w' = events w" "groups w' = groups w" "next_group w' = next_group w"
    and grow: "listening w' \<longrightarrow> listening w" "signalled w \<subseteq> signalled w'"
      "set (killers w) \<subseteq> set (killers w')" "next_term w \<le> next_term w'"
  shows "inv X mk w'"
proof -
  have "groups_ok mk w'" using inv same groups_ok_cong [of w' w] by (simp add: inv_def)
  then show ?thesis using frame_but_groups [OF inv same(1-6) grow] by (simp add: inv_def)
qed

section \<open>Starting an attempt\<close>

lemma entry_or_insert_conv:
  "entry_or_insert maker a t w =
    (case connections w a of
       Some c \<Rightarrow> (c, w)
     | None \<Rightarrow>
         (let c = \<lparr>to_peer = TpNoConnection, from_peer = FpNoConnection,
                   bootstrap_group_ref = fst (make_group_ref maker a t w),
                   we_contacted_peer = False, conn_peer_addr = a\<rparr>;
              w1 = snd (make_group_ref maker a t w)
          in (c, put_conn a c (w1\<lparr>killers := killers w1 @ [a]\<rparr>))))"
  by (cases "make_group_ref maker a t w")
    (simp add: entry_or_insert_def connection_new_def put_conn_def default_to_peer_def to_peer_default_def
      default_from_peer_def from_peer_default_def effect_defs Let_def split: option.splits)

lemma inv_entry_or_insert:
  assumes inv: "inv {} mk w" and mk: "make_ref_ok maker w"
    and eq: "entry_or_insert maker a t w = (c, w1)"
    and new: "connections w a = None"
  shows "inv {a} mk w1" and "entry_ready a c w1"
proof -
  let ?w0 = "snd (make_group_ref maker a t w)"
  let ?w' = "?w0\<lparr>killers := killers ?w0 @ [a]\<rparr>"
  have c: "c = \<lparr>to_peer = TpNoConnection, from_peer = FpNoConnection,
      bootstrap_group_ref = fst (make_group_ref maker a t w),
      we_contacted_peer = False, conn_peer_addr = a\<rparr>" and w1: "w1 = put_conn a c ?w'"
    using eq new by (auto simp: entry_or_insert_conv Let_def)
  have nc: "\<not> is_complete c" by (simp add: c is_complete_def)
  show "entry_ready a c w1"
    by (auto simp: entry_ready_def w1 c world_simps fst_make_group_ref)
  have fin: "finite (dom (connections w))" using inv by (simp add: inv_def table_ok_def)
  have "groups_ok mk (put_conn a c ?w0)"
    by (rule groups_ok_put_ref [OF _ fin _ mk]) (use inv new c in \<open>auto simp: inv_def\<close>)
  then have g: "groups_ok mk w1"
    by (simp add: w1 groups_ok_def rc_of_def world_simps)
  have "table_ok {} ?w'" "attempts_ok {} ?w'" "killers_ok ?w'" "q_ok ?w'" "events_ok ?w'"
    using frame_but_groups [OF inv, of ?w'] signalled_make_group_ref [of w maker a t]
    by (auto simp: world_simps)
  then have "table_ok {a} w1" "attempts_ok {a} w1" "killers_ok w1" "q_ok w1" "events_ok w1"
    unfolding w1
    by (auto intro!: table_ok_put attempts_ok_put killers_ok_put q_ok_put events_ok_put
        simp: c nc [unfolded c] new world_simps own_at_def q_conns_def complete_at_def)
  then show "inv {a} mk w1" using g by (simp add: inv_def)
qed

end
