(* ===== verification/Handler_Invariant.thy ===== *)
theory Handler_Invariant
  imports Conn_Invariant
begin

text \<open>
  Every handler of the event loop keeps the invariants of \<open>Conn_Invariant\<close>, and
  none of them panics where the invariants hold, with the one exception that a
  message may find a connection which is not ready for it.
\<close>

section \<open>Connection attempts\<close>

text \<open>
  The reference an entry ends up with, the entry as the attempt leaves it, and the
  world that holds it.
\<close>

definition group_ref_for ::
  "nat option \<Rightarrow> socket_addr \<Rightarrow> nat \<Rightarrow> connection \<Rightarrow> world \<Rightarrow> bootstrap_group_ref option \<times> world" where
  "group_ref_for maker a t c w =
    (if bootstrap_group_ref c = None then make_group_ref maker a t w
     else (bootstrap_group_ref c, w))"

definition initiated_conn ::
  "node_info \<Rightarrow> wire_msg option \<Rightarrow> nat option \<Rightarrow> nat \<Rightarrow> connection \<Rightarrow> world \<Rightarrow> connection" where
  "initiated_conn ni msg maker t c w =
    c\<lparr>from_peer := (if our_type w = OurClient then FpNotNeeded else from_peer c),
      bootstrap_group_ref := fst (group_ref_for maker (ni_peer_addr ni) t c w),
      to_peer := TpInitiated t (ni_peer_cert_der ni) (case msg of None \<Rightarrow> [] | Some m \<Rightarrow> [m])\<rparr>"

definition initiated_world ::
  "node_info \<Rightarrow> wire_msg option \<Rightarrow> nat option \<Rightarrow> nat \<Rightarrow> connection \<Rightarrow> world \<Rightarrow> world" where
  "initiated_world ni msg maker t c w =
    put_conn (ni_peer_addr ni) (initiated_conn ni msg maker t c w)
      (snd (group_ref_for maker (ni_peer_addr ni) t c w))"

lemma initiate_connection_conv:
  assumes ready: "entry_ready (ni_peer_addr ni) c w"
  shows "initiate_connection E ni msg maker t c w =
    (let w2 = initiated_world ni msg maker t c w
     in case connect_with E t (ni_peer_addr ni) of
          Some e \<Rightarrow> Inr (Inl (Connect e), w2)
        | None \<Rightarrow> Inr (Inr (), w2\<lparr>attempts := (attempts w2)(t \<mapsto> ni_peer_addr ni)\<rparr>))"
proof -
  have "from_peer c = FpNoConnection" if "our_type w = OurClient"
    using ready that by (simp add: entry_ready_def)
  then show ?thesis
    by (cases c) (auto simp: initiate_connection_def initiated_world_def initiated_conn_def group_ref_for_def
        put_conn_def Let_def split: option.splits prod.splits)
qed

lemma inv_initiate:
  assumes inv: "inv {a} mk w" and ready: "entry_ready a c w" and mk: "make_ref_ok maker w"
    and fresh: "attempts w t = None" "t < next_term w" and a: "a = ni_peer_addr ni"
    and w2: "w2 = initiated_world ni msg maker t c w"
  shows "inv {a} mk w2" and "inv {} mk (w2\<lparr>attempts := (attempts w2)(t \<mapsto> a)\<rparr>)"
proof -
  define mw where "mw = group_ref_for maker a t c w"
  define c' where "c' = initiated_conn ni msg maker t c w"
  note c'_defs = c'_def initiated_conn_def mw_def [unfolded a, symmetric]
  have w2_def': "w2 = put_conn a c' (snd mw)"
    by (simp add: w2 initiated_world_def c'_def mw_def a)
  let ?w3 = "w2\<lparr>attempts := (attempts w2)(t \<mapsto> a)\<rparr>"
  have at_a: "connections w a = Some c" and tp: "to_peer c = TpNoConnection"
    using ready by (simp_all add: entry_ready_def)
  have addr: "conn_peer_addr c' = a"
    using inv at_a by (simp add: c'_defs inv_def table_ok_def)
  have ref: "gr_peer_addr r = a" if "fst mw = Some r" for r
    using that ready
    by (auto simp: mw_def group_ref_for_def fst_make_group_ref entry_ready_def split: if_splits)
  have wf: "conn_wf (our_type w) a c'"
    using ready ref addr
    by (auto simp: conn_wf_def c'_defs is_complete_def entry_ready_def
        split: our_type.splits option.splits from_peer.splits)
  have kill: "a \<in> set (killers w)"
    using inv at_a tp by (auto simp: inv_def killers_ok_def is_complete_def)
  have nc: "\<not> is_complete c'" by (simp add: c'_defs is_complete_def)
  have ncw: "\<not> complete_at w a" using at_a tp by (auto simp: complete_at_def is_complete_def)
  have snd_mw: "connections (snd mw) = connections w" "our_type (snd mw) = our_type w"
      "attempts (snd mw) = attempts w" "closed (snd mw) = closed w" "next_q (snd mw) = next_q w"
      "events (snd mw) = events w" "listening (snd mw) = listening w"
      "killers (snd mw) = killers w" "next_term (snd mw) = next_term w"
    by (simp_all add: mw_def group_ref_for_def world_simps)
  have "signalled w \<subseteq> signalled (snd mw)"
    using signalled_make_group_ref by (simp add: mw_def group_ref_for_def)
  with frame_but_groups [OF inv, of "snd mw"] snd_mw
  have sub: "table_ok {a} (snd mw)" "attempts_ok {a} (snd mw)" "killers_ok (snd mw)"
      "q_ok (snd mw)" "events_ok (snd mw)"
    by simp_all
  have g: "groups_ok mk w2"
  proof (cases "bootstrap_group_ref c")
    case None
    have "groups_ok mk (put_conn a c' (snd (make_group_ref maker a t w)))"
      by (rule groups_ok_put_ref [OF _ _ _ mk])
        (use inv at_a None a in \<open>auto simp: inv_def table_ok_def c'_defs mw_def group_ref_for_def\<close>)
    then show ?thesis by (simp add: w2_def' mw_def group_ref_for_def None)
  next
    case (Some r)
    have "groups_ok mk (put_conn a c' w)"
      by (rule groups_ok_put) (use inv at_a Some in \<open>auto simp: inv_def table_ok_def c'_defs mw_def group_ref_for_def\<close>)
    then show ?thesis by (simp add: w2_def' mw_def group_ref_for_def Some)
  qed
  have tab: "table_ok Y w2" for Y
    unfolding w2_def' by (rule table_ok_put [OF sub(1) addr]) (simp_all add: wf snd_mw)
  have "own_at (snd mw) a = q_conns c'"
    using at_a tp ready
    by (auto simp: own_at_def snd_mw q_conns_def c'_defs entry_ready_def)
  then have q: "q_ok w2" unfolding w2_def' by (intro q_ok_put sub) simp
  have k: "killers_ok w2" unfolding w2_def' by (intro killers_ok_put sub) (simp add: kill snd_mw)
  have ev: "events_ok w2"
    unfolding w2_def' using ncw nc by (intro events_ok_put sub) (simp add: complete_at_def snd_mw)
  have att: "attempts_ok {a} w2"
    unfolding w2_def' by (rule attempts_ok_put [OF sub(2)]) (auto simp: snd_mw at_a tp)
  have att3: "attempts_ok {} ?w3"
  proof (rule attempts_okI)
    fix t' b
    assume "attempts ?w3 t' = Some b" "t' \<notin> signalled ?w3"
    then show "\<exists>c cert sends. connections ?w3 b = Some c \<and> to_peer c = TpInitiated t' cert sends"
      using attempts_ok_live [OF att, of t' b]
      by (auto simp: w2_def' c'_defs world_simps split: if_splits)
  next
    fix b d t' cert sends
    assume "connections ?w3 b = Some d" "to_peer d = TpInitiated t' cert sends" "b \<notin> {}"
    then show "attempts ?w3 t' = Some b"
      using attempts_ok_waiting [OF att, of b d t' cert sends] fresh(1)
      by (auto simp: w2_def' c'_defs world_simps snd_mw split: if_splits)
  qed (use attempts_ok_fresh [OF att] fresh in \<open>auto simp: w2_def' world_simps snd_mw split: if_splits\<close>)
  show "inv {a} mk w2" using tab att k g q ev by (simp add: inv_def)
  show "inv {} mk ?w3"
    using tab [of "{}"] att3 k g q ev
    by (simp add: inv_def table_ok_def killers_ok_def groups_ok_def rc_of_def q_ok_def own_at_def
        events_ok_def complete_at_def)
qed

lemma inv_next_term: "inv X mk w \<Longrightarrow> inv X mk (w\<lparr>next_term := Suc (next_term w)\<rparr>)"
  by (rule inv_frame) auto

lemma make_ref_ok_maker:
  assumes "inv X mk w" and "maker = None \<or> maker = mk"
  shows "make_ref_ok maker w"
  unfolding make_ref_ok_def
proof (intro allI impI)
  fix g
  assume "maker = Some g"
  then have "0 < rc_of w g" using assms groups_ok_rc [of mk w g] by (auto simp: inv_def)
  then show "groups w g \<noteq> None" by (auto simp: rc_of_def split: option.splits)
qed

lemma entry_ready_of_wf:
  assumes "inv {} mk w" and "connections w a = Some c" and "tp_is_no_connection (to_peer c)"
  shows "entry_ready a c w"
proof -
  have "conn_wf (our_type w) a c" using assms by (simp add: inv_def table_ok_def)
  then show ?thesis
    using assms(2,3)
    by (cases "to_peer c")
      (auto simp: entry_ready_def conn_wf_def split: our_type.splits option.splits)
qed

text \<open>What \<open>connect_to\<close> may be called in: the entry is absent, or consistent, or new.\<close>

definition may_connect :: "socket_addr \<Rightarrow> nat option \<Rightarrow> world \<Rightarrow> bool" where
  "may_connect a mk w \<longleftrightarrow>
    inv {} mk w \<or> (inv {a} mk w \<and> (\<exists>c. entry_ready a c w))"

lemma may_connect_inv: "may_connect a mk w \<Longrightarrow> inv {a} mk w"
  by (auto simp: may_connect_def intro: inv_weaken)

lemma entry_or_insert_ready:
  assumes may: "may_connect a mk w" and mk: "maker = None \<or> maker = mk"
    and eq: "entry_or_insert maker a t w = (c, w1)"
  shows "tp_is_no_connection (to_peer c) \<Longrightarrow> inv {a} mk w1 \<and> entry_ready a c w1"
    and "\<not> tp_is_no_connection (to_peer c) \<Longrightarrow> inv {} mk w1 \<and> w1 = w"
    and "next_term w1 = next_term w" and "attempts w1 = attempts w"
proof -
  show "next_term w1 = next_term w" "attempts w1 = attempts w"
    using eq by (auto simp: entry_or_insert_conv Let_def world_simps split: option.splits)
  have both: "(tp_is_no_connection (to_peer c) \<longrightarrow> inv {a} mk w1 \<and> entry_ready a c w1) \<and>
      (\<not> tp_is_no_connection (to_peer c) \<longrightarrow> inv {} mk w1 \<and> w1 = w)"
  proof (cases "connections w a")
    case None
    with may have "inv {} mk w" by (auto simp: may_connect_def entry_ready_def)
    from inv_entry_or_insert [OF this make_ref_ok_maker [OF this mk] eq None] show ?thesis
      by (simp add: entry_ready_def)
  next
    case (Some c0)
    then have c: "c = c0" "w1 = w" using eq by (simp_all add: entry_or_insert_conv)
    show ?thesis
    proof (cases "inv {} mk w")
      case True
      then show ?thesis using entry_ready_of_wf [OF True, of a c0] Some c by (auto intro: inv_weaken)
    next
      case False
      then show ?thesis using may Some c by (auto simp: may_connect_def entry_ready_def)
    qed
  qed
  show "tp_is_no_connection (to_peer c) \<Longrightarrow> inv {a} mk w1 \<and> entry_ready a c w1" using both by simp
  show "\<not> tp_is_no_connection (to_peer c) \<Longrightarrow> inv {} mk w1 \<and> w1 = w" using both by blast
qed

lemma inv_connect_err:
  assumes "inv {a} mk w" and "\<And>b. e \<noteq> DuplicateConnectionToPeer b"
  shows "inv {} mk (handle_connect_err a e w)"
  using assms inv_remove_at [of a mk w] by (cases e) (auto simp: handle_connect_err_def)

lemma may_connect_next_term:
  "may_connect a mk w \<Longrightarrow> may_connect a mk (w\<lparr>next_term := Suc (next_term w)\<rparr>)"
  by (auto simp: may_connect_def entry_ready_def inv_next_term)

lemma inv_connect_to:
  assumes may: "may_connect (ni_peer_addr ni) mk w" and mk: "maker = None \<or> maker = mk"
  shows "\<exists>r w'. connect_to E ni msg maker w = Inr (r, w') \<and> inv {} mk w'"
proof (cases "new_client_cfg E (ni_peer_cert_der ni) w")
  case (Inl e)
  then have "inv {} mk (handle_connect_err (ni_peer_addr ni) e w)"
    using inv_connect_err may_connect_inv [OF may] new_client_cfg_err_not_duplicate by blast
  then show ?thesis using Inl by (simp add: connect_to_def)
next
  case (Inr cfg)
  let ?a = "ni_peer_addr ni" and ?t = "next_term w"
  let ?w = "w\<lparr>next_term := Suc ?t\<rparr>"
  obtain c w1 where eq: "entry_or_insert maker ?a ?t ?w = (c, w1)" by fastforce
  note facts = entry_or_insert_ready [OF may_connect_next_term [OF may] mk eq]
  show ?thesis
  proof (cases "tp_is_no_connection (to_peer c)")
    case False
    then show ?thesis using facts(2) Inr eq
      by (auto simp: connect_to_def handle_connect_err_def)
  next
    case True
    then have inv1: "inv {?a} mk w1" and ready: "entry_ready ?a c w1" using facts(1) by simp_all
    have "attempts w1 ?t = None"
      using attempts_ok_fresh [of "{?a}" w ?t] may_connect_inv [OF may] facts(4)
      by (cases "attempts w ?t") (auto simp: inv_def)
    moreover have "?t < next_term w1" using facts(3) by simp
    ultimately have i: "inv {?a} mk (initiated_world ni msg maker ?t c w1)"
      "inv {} mk ((initiated_world ni msg maker ?t c w1)\<lparr>attempts :=
         (attempts (initiated_world ni msg maker ?t c w1))(?t \<mapsto> ?a)\<rparr>)"
      using inv_initiate [OF inv1 ready make_ref_ok_maker [OF inv1 mk] _ _ refl refl] by blast+
    have "inv {} mk (handle_connect_err ?a (Connect e) (initiated_world ni msg maker ?t c w1))" for e
      by (rule inv_connect_err [OF i(1)]) simp
    then show ?thesis using i(2) True Inr eq initiate_connection_conv [OF ready]
      by (auto simp: connect_to_def Let_def split: option.splits)
  qed
qed

section \<open>Sending and bootstrapping\<close>

lemma inv_update:
  assumes inv: "inv {} mk w" and at_a: "connections w a = Some c"
    and wf: "conn_wf (our_type w) a c'"
    and same: "bootstrap_group_ref c' = bootstrap_group_ref c" "q_conns c' = q_conns c"
      "is_complete c' \<longleftrightarrow> is_complete c"
    and waits: "\<And>t. (\<exists>cert sends. to_peer c' = TpInitiated t cert sends) \<longleftrightarrow>
      (\<exists>cert sends. to_peer c = TpInitiated t cert sends)"
  shows "inv {} mk (put_conn a c' w)"
proof -
  have ok: "table_ok {} w" "attempts_ok {} w" "killers_ok w" "groups_ok mk w" "q_ok w" "events_ok w"
    using inv by (simp_all add: inv_def)
  have "table_ok {} (put_conn a c' w)"
    by (rule table_ok_put [OF ok(1)]) (use wf in \<open>simp_all add: conn_wf_def\<close>)
  moreover have "attempts_ok {} (put_conn a c' w)"
  proof (rule attempts_ok_put [OF ok(2)])
    fix t cert sends
    assume "to_peer c' = TpInitiated t cert sends"
    then obtain cert0 sends0 where "to_peer c = TpInitiated t cert0 sends0" using waits by blast
    then show "attempts w t = Some a" using attempts_ok_waiting [OF ok(2) at_a] by simp
  qed (use waits at_a in auto)
  moreover have "killers_ok (put_conn a c' w)"
    by (rule killers_ok_put [OF ok(3)]) (use same at_a ok(3) in \<open>simp add: killers_ok_def\<close>)
  moreover have "groups_ok mk (put_conn a c' w)"
    by (rule groups_ok_put [OF ok(4)]) (use same at_a table_ok_finite [OF ok(1)] in simp_all)
  moreover have "q_ok (put_conn a c' w)"
    by (rule q_ok_put [OF ok(5)]) (use same at_a in \<open>simp add: own_at_def\<close>)
  moreover have "events_ok (put_conn a c' w)"
    by (rule events_ok_put [OF ok(6)]) (use same at_a in \<open>simp add: complete_at_def\<close>)
  ultimately show ?thesis by (simp add: inv_def)
qed

lemma inv_conn_wf: "inv {} mk w \<Longrightarrow> connections w a = Some c \<Longrightarrow> conn_wf (our_type w) a c"
  by (simp add: inv_def table_ok_def)

lemma inv_set_we_contacted:
  assumes inv: "inv {} mk w"
  shows "inv {} mk (set_we_contacted_peer a w)"
proof (cases "connections w a")
  case None
  then show ?thesis using inv by (simp add: set_we_contacted_peer_def)
next
  case (Some c)
  have "inv {} mk (put_conn a (c\<lparr>we_contacted_peer := True\<rparr>) w)"
    by (rule inv_update [OF inv Some])
      (use inv_conn_wf [OF inv Some] in \<open>auto simp: conn_wf_def is_complete_def q_conns_def
          split: our_type.splits option.splits from_peer.splits\<close>)
  then show ?thesis using Some by (simp add: set_we_contacted_peer_def put_conn_def)
qed

lemma inv_write [simp]: "inv X mk (write_to_peer_connection a q m w) \<longleftrightarrow> inv X mk w"
  by (rule inv_core) simp_all

lemma inv_write_to_peer: "inv X mk w \<Longrightarrow> inv X mk (write_to_peer a m w)"
  by (auto simp: write_to_peer_def split: option.splits to_peer.splits from_peer.splits)

lemma inv_write_or_queue:
  assumes inv: "inv {} mk w"
  shows "\<exists>r w1. write_or_queue ni msg w = (r, w1) \<and>
    (r = None \<longrightarrow> inv {} mk w1) \<and> (r \<noteq> None \<longrightarrow> may_connect (ni_peer_addr ni) mk w1)"
proof -
  let ?a = "ni_peer_addr ni"
  have may: "may_connect ?a mk w" using inv by (simp add: may_connect_def)
  obtain c w1 where eq: "entry_or_insert None ?a 0 w = (c, w1)" by fastforce
  note facts = entry_or_insert_ready [OF may disjI1 [OF refl] eq]
  show ?thesis
  proof (cases "to_peer c")
    case TpNoConnection
    then show ?thesis using facts(1) eq by (auto simp: write_or_queue_def may_connect_def)
  next
    case TpNotNeeded
    then show ?thesis using facts(2) eq by (auto simp: write_or_queue_def)
  next
    case (TpEstablished cert q)
    then show ?thesis using facts(2) eq by (auto simp: write_or_queue_def)
  next
    case (TpInitiated t cert sends)
    then have w1: "inv {} mk w1" using facts(2) by auto
    have at_a: "connections w1 ?a = Some c"
      using eq by (auto simp: entry_or_insert_conv Let_def world_simps split: option.splits)
    have "inv {} mk (put_conn ?a (c\<lparr>to_peer := TpInitiated t cert (sends @ [msg])\<rparr>) w1)"
      by (rule inv_update [OF w1 at_a])
        (use inv_conn_wf [OF w1 at_a] TpInitiated in
          \<open>auto simp: conn_wf_def is_complete_def q_conns_def split: our_type.splits option.splits
             from_peer.splits\<close>)
    then show ?thesis using TpInitiated eq by (simp add: write_or_queue_def put_conn_def)
  qed
qed

lemma inv_try_write:
  assumes "inv {} mk w"
  shows "\<exists>w'. try_write_to_peer E p msg w = Inr w' \<and> inv {} mk w'"
proof (cases p)
  case (PeerClient a)
  then show ?thesis using assms inv_write_to_peer by (auto simp: try_write_to_peer_def)
next
  case (PeerNode ni)
  obtain r w1 where eq: "write_or_queue ni msg w = (r, w1)" and
    r: "r = None \<longrightarrow> inv {} mk w1" "r \<noteq> None \<longrightarrow> may_connect (ni_peer_addr ni) mk w1"
    using inv_write_or_queue [OF assms] by blast
  show ?thesis
  proof (cases r)
    case None
    then show ?thesis using r eq PeerNode by (simp add: try_write_to_peer_def)
  next
    case (Some m)
    then obtain r' w' where "connect_to E ni (Some m) None w1 = Inr (r', w')" "inv {} mk w'"
      using inv_connect_to [of ni mk w1 None E "Some m"] r by auto
    then show ?thesis using Some eq PeerNode by (auto simp: try_write_to_peer_def)
  qed
qed

lemma inv_qp2p_send:
  "inv {} mk w \<Longrightarrow> \<exists>w'. qp2p_send E p m w = Inr w' \<and> inv {} mk w'"
  using inv_try_write [of mk w E p "UserMsg m"] inv_set_we_contacted
  by (fastforce simp: qp2p_send_def)

lemma may_connectI: "inv {} mk w \<Longrightarrow> may_connect a mk w"
  by (simp add: may_connect_def)

lemma inv_qp2p_connect_to:
  assumes "inv {} mk w"
  shows "\<exists>w'. qp2p_connect_to E ni w = Inr w' \<and> inv {} mk w'"
proof -
  obtain r w' where "connect_to E ni None None w = Inr (r, w')" "inv {} mk w'"
    using inv_connect_to [OF may_connectI [OF assms]] by blast
  then show ?thesis using inv_set_we_contacted by (cases r) (auto simp: qp2p_connect_to_def)
qed

lemma inv_register_and_ask_echo:
  assumes "inv {} mk w"
  shows "\<exists>w'. register_and_ask_echo E ni ch w = Inr w' \<and> inv {} mk w'"
proof -
  have "inv {} mk (drop_inform_tx (our_ext_addr_tx w) (w\<lparr>our_ext_addr_tx := Some ch\<rparr>))"
    by (rule inv_core [THEN iffD2, OF _ _ assms]) simp_all
  then show ?thesis using inv_try_write by (simp add: register_and_ask_echo_def)
qed

lemma inv_install_proxies: "inv {} mk w \<Longrightarrow> inv {} mk (install_proxies ps ex w)"
  by (rule inv_core [THEN iffD2, rotated 2]) (simp_all add: install_proxies_def core_def Let_def)

text \<open>A new group has the maker as its only owner, and dropping the maker gives that up.\<close>

lemma inv_group_maker_new:
  assumes inv: "inv {} None w"
  shows "inv {} (Some (next_group w)) (snd (group_maker_new w))"
proof -
  let ?g = "next_group w" and ?w = "snd (group_maker_new w)"
  have ok: "groups_ok None w" using inv by (simp add: inv_def)
  have "groups w ?g = None" using groups_ok_bound [OF ok, of ?g] by (cases "groups w ?g") auto
  then have zero: "count_keys (holds_ref ?g) (connections w) = 0"
    using groups_ok_rc [OF ok, of ?g] by (simp add: rc_of_def)
  have rc: "rc_of ?w = (rc_of w)(?g := 1)"
    by (auto simp: group_maker_new_def rc_of_def fun_eq_iff)
  have "groups_ok (Some ?g) ?w"
    unfolding groups_ok_def
  proof (intro conjI allI impI)
    fix g
    show "rc_of ?w g = count_keys (holds_ref g) (connections ?w) + of_bool (Some ?g = Some g)"
      using zero groups_ok_rc [OF ok, of g] rc by (simp add: group_maker_new_def)
  next
    fix g
    assume "groups ?w g \<noteq> None"
    then show "g < next_group ?w"
      using groups_ok_bound [OF ok, of g] by (auto simp: group_maker_new_def split: if_splits)
  qed (use groups_ok_pos [OF ok] in \<open>auto simp: group_maker_new_def split: if_splits\<close>)
  moreover have "table_ok {} ?w" "attempts_ok {} ?w" "killers_ok ?w" "q_ok ?w" "events_ok ?w"
    using frame_but_groups [OF inv, of ?w] by (simp_all add: group_maker_new_def)
  ultimately show ?thesis by (simp add: inv_def)
qed

text \<open>Dropping a reference of a group that no connection holds any more.\<close>

lemma events_ok_failures:
  assumes "events_ok w" and "connections w' = connections w"
    and "events w' = events w @ es" and "set es \<subseteq> {BootstrapFailure}"
  shows "events_ok w'"
  by (rule events_ok_append [OF assms(1,3)])
    (simp add: foldl_ev_failures [OF assms(4)] complete_at_def assms(2))

lemma inv_drop_group_maker:
  assumes inv: "inv {} (Some g) w"
  shows "inv {} None (drop_group_maker g w)"
proof -
  let ?w = "drop_group_rc g w"
  have ok: "groups_ok (Some g) w" using inv by (simp add: inv_def)
  have "groups_ok None ?w"
    by (rule groups_ok_drop_rc) (use groups_ok_pos [OF ok] groups_ok_bound [OF ok] groups_ok_rc [OF ok] in auto)
  moreover have "events_ok ?w"
    by (rule events_ok_failures [of w _ "case groups w g of
       Some grp \<Rightarrow> if group_rc grp \<le> 1 \<and> \<not> is_bootstrap_successful_yet grp
                   then [BootstrapFailure] else []
     | None \<Rightarrow> []"]) (use inv in \<open>auto simp: inv_def world_simps events_drop_group_rc split: option.splits\<close>)
  moreover have "table_ok {} ?w" "attempts_ok {} ?w" "killers_ok ?w" "q_ok ?w"
    using inv by (simp_all add: inv_def table_ok_def attempts_ok_def killers_ok_def q_ok_def own_at_def
        world_simps)
  ultimately show ?thesis by (simp add: inv_def drop_group_maker_def)
qed

lemma inv_start:
  assumes inv: "inv {} None w"
  shows "\<exists>w'. start E w = Inr w' \<and> inv {} None w'"
proof -
  let ?g = "next_group w" and ?w = "snd (group_maker_new w)"
  let ?f = "\<lambda>proxy w. case connect_to E proxy None (Some ?g) w of Inl p \<Rightarrow> Inl p | Inr (_, w') \<Rightarrow> Inr w'"
  have "\<exists>w'. fold_p ?f (proxies_of w) ?w = Inr w' \<and> inv {} (Some ?g) w'"
  proof (rule fold_p_no_panic)
    fix ni w
    assume "inv {} (Some ?g) w"
    then obtain r w' where "connect_to E ni None (Some ?g) w = Inr (r, w')" "inv {} (Some ?g) w'"
      using inv_connect_to [OF may_connectI] by blast
    then show "\<exists>w'. ?f ni w = Inr w' \<and> inv {} (Some ?g) w'" by simp
  qed (rule inv_group_maker_new [OF inv])
  then show ?thesis
    using inv_drop_group_maker by (fastforce simp: start_def group_maker_new_def)
qed

section \<open>A QUIC connection joins an entry\<close>

lemma next_q_fresh:
  assumes "q_ok w"
  shows "next_q w \<notin> set (own_at w b)" and "next_q w \<notin> set (closed w)"
  using assms less_irrefl by (auto simp: q_ok_def)

lemma q_ok_add:
  assumes ok: "q_ok w" and cl: "closed w' = closed w" and nq: "next_q w' = Suc (next_q w)"
    and own: "own_at w' = (own_at w)(a := qs)"
    and qs: "qs = next_q w # own_at w a \<or> qs = own_at w a @ [next_q w]"
  shows "q_ok w'"
proof -
  have set_qs: "set qs = insert (next_q w) (set (own_at w a))" using qs by auto
  have fresh: "next_q w \<notin> set (own_at w b)" for b using next_q_fresh [OF ok] by simp
  have "distinct qs" using qs fresh [of a] ok by (auto simp: q_ok_def)
  then show ?thesis
    unfolding q_ok_def own cl nq
  proof (intro conjI allI impI)
    fix q
    show "q < Suc (next_q w) \<longleftrightarrow> q \<in> set (closed w) \<or> (\<exists>b. q \<in> set (((own_at w)(a := qs)) b))"
      using ok set_qs unfolding q_ok_def less_Suc_eq by (auto split: if_splits)
  next
    fix b q
    assume "q \<in> set (((own_at w)(a := qs)) b)"
    then show "q \<notin> set (closed w)"
      using ok set_qs next_q_fresh [OF ok] by (auto simp: q_ok_def split: if_splits)
  next
    fix b b' q
    assume "q \<in> set (((own_at w)(a := qs)) b)" "q \<in> set (((own_at w)(a := qs)) b')"
    then show "b = b'"
      using ok set_qs fresh [of b] fresh [of b'] unfolding q_ok_def
      by (auto split: if_splits)
  next
    fix b
    show "distinct (((own_at w)(a := qs)) b)" using \<open>distinct qs\<close> ok by (auto simp: q_ok_def)
  qed (use ok in \<open>simp add: q_ok_def\<close>)
qed

lemma q_ok_close_new:
  assumes ok: "q_ok w" and "closed w' = closed w @ [next_q w]" and "next_q w' = Suc (next_q w)"
    and "own_at w' = own_at w"
  shows "q_ok w'"
  using assms next_q_fresh [OF ok] unfolding q_ok_def by (auto simp: less_Suc_eq)

lemma inv_add_q:
  assumes inv: "inv {a} mk w" and at_a: "connections w a = Some c"
    and wf: "conn_wf (our_type w) a c'"
    and conns: "connections w' = (connections w)(a \<mapsto> c')"
    and same: "our_type w' = our_type w" "attempts w' = attempts w" "killers w' = killers w"
      "closed w' = closed w" "listening w' = listening w" "next_term w' = next_term w"
    and nq: "next_q w' = Suc (next_q w)" and sig: "signalled w \<subseteq> signalled w'"
    and qs: "q_conns c' = next_q w # q_conns c \<or> q_conns c' = q_conns c @ [next_q w]"
    and g: "groups_ok mk w'"
    and wait: "\<And>t cert sends. to_peer c' = TpInitiated t cert sends \<Longrightarrow> attempts w t = Some a"
    and live: "\<And>t cert sends. to_peer c = TpInitiated t cert sends \<Longrightarrow> t \<notin> signalled w' \<Longrightarrow>
      attempts w t = Some a \<Longrightarrow> to_peer c' = to_peer c"
    and kill: "\<not> is_complete c"
    and ev: "events w' = events w @ es"
      "\<And>b. foldl (ev_step b) (Some (complete_at w b)) es =
        Some (if b = a then is_complete c' else complete_at w b)"
  shows "inv {} mk w'"
proof -
  let ?w = "w\<lparr>signalled := signalled w'\<rparr>"
  have ok: "table_ok {a} ?w" "attempts_ok {a} ?w" "killers_ok ?w" "q_ok w" "events_ok w"
    using frame_but_groups [OF inv, of ?w] sig inv by (simp_all add: inv_def)
  have "table_ok {} (put_conn a c' ?w)"
    by (rule table_ok_put [OF ok(1)]) (use wf in \<open>simp_all add: conn_wf_def\<close>)
  then have t: "table_ok {} w'" by (simp add: table_ok_def world_simps conns same)
  have "attempts_ok {} (put_conn a c' ?w)"
    by (rule attempts_ok_put [OF ok(2)]) (use wait live at_a in auto)
  then have att: "attempts_ok {} w'" by (simp add: attempts_ok_def world_simps conns same)
  have "killers_ok (put_conn a c' ?w)"
    by (rule killers_ok_put [OF ok(3)]) (use kill at_a ok(3) in \<open>simp add: killers_ok_def\<close>)
  then have k: "killers_ok w'" by (simp add: killers_ok_def world_simps conns same)
  have "q_ok w'"
    by (rule q_ok_add [OF ok(4) same(4) nq, of a "q_conns c'"])
      (use qs at_a in \<open>auto simp: own_at_def conns fun_eq_iff\<close>)
  moreover have "events_ok w'"
    by (rule events_ok_append [OF ok(5) ev(1)]) (use ev(2) in \<open>simp add: complete_at_def conns\<close>)
  ultimately show ?thesis using t att k g by (simp add: inv_def)
qed

section \<open>Taking the reference to the group\<close>

lemma terminate_group_groups:
  "groups (terminate_group True g w) =
    (case groups w g of
       None \<Rightarrow> groups w
     | Some grp \<Rightarrow> (groups w)(g \<mapsto> grp\<lparr>is_bootstrap_successful_yet := True, terminators := []\<rparr>))"
  by (simp add: terminate_group_def fold_try_send Let_def split: option.splits)

lemma take_group_ref_frame:
  assumes "take_group_ref_event ro ni w = (ev, w1)"
  shows "connections w1 = connections w" "our_type w1 = our_type w" "attempts w1 = attempts w"
    "killers w1 = killers w" "closed w1 = closed w" "listening w1 = listening w"
    "next_term w1 = next_term w" "next_q w1 = next_q w" "next_group w1 = next_group w"
    "signalled w \<subseteq> signalled w1" "events w1 = events w" "writes w1 = writes w"
    "ev = (if ro = None then ConnectedTo (PeerNode ni) else BootstrappedTo ni)"
  using assms
  by (auto simp: take_group_ref_event_def world_simps events_drop_group_ref terminate_group_groups
      node_info_into_peer_def signalled_terminate_group [THEN subsetD]
      split: option.splits if_splits)

lemma groups_drop_ref_connections:
  "groups (drop_bootstrap_group_ref r (w\<lparr>connections := m\<rparr>)) = groups (drop_bootstrap_group_ref r w)"
  by (simp add: drop_bootstrap_group_ref_def drop_group_rc_def drop_bootstrap_group_def effect_defs
      Let_def split: option.splits)

lemma terminate_group_connections:
  "terminate_group b g (w\<lparr>connections := m\<rparr>) = (terminate_group b g w)\<lparr>connections := m\<rparr>"
  by (simp add: terminate_group_def fold_try_send Let_def split: option.splits)

lemma groups_ok_take:
  assumes ok: "groups_ok mk w" and fin: "finite (dom (connections w))"
    and at_a: "connections w a = Some c" and none: "bootstrap_group_ref c' = None"
    and eq: "take_group_ref_event (bootstrap_group_ref c) ni w = (ev, w1)"
  shows "groups_ok mk (put_conn a c' w1)"
proof (cases "bootstrap_group_ref c")
  case None
  then have "w1 = w" using eq by (simp add: take_group_ref_event_def)
  then show ?thesis using groups_ok_put [OF ok fin, of c' a] at_a none None by simp
next
  case (Some r)
  define w0 where "w0 = terminate_group True (gr_group r) w"
  define w0' where "w0' = put_conn a c' w0"
  have w1: "w1 = drop_bootstrap_group_ref r w0"
    using eq Some by (simp add: take_group_ref_event_def w0_def)
  have grp: "rc_of w0 = rc_of w" "0 < group_rc grp" if "groups w0 g = Some grp" for g grp
    using that groups_ok_pos [OF ok]
    by (auto simp: w0_def rc_of_def terminate_group_groups fun_eq_iff
        split: option.splits if_splits)
  have rc: "rc_of w0 = rc_of w"
    by (auto simp: w0_def rc_of_def terminate_group_groups fun_eq_iff split: option.splits)
  have dom: "groups w g \<noteq> None" if "groups w0 g \<noteq> None" for g
    using that by (auto simp: w0_def terminate_group_groups split: option.splits if_splits)
  have count: "count_keys (holds_ref g) (connections w) =
      count_keys (holds_ref g) ((connections w)(a \<mapsto> c')) + of_bool (g = gr_group r)" for g
    using count_holds_ref_upd [OF fin, of g a "Some c'"] at_a none Some by (auto simp: holds_ref_def)
  have conns: "connections w0' = (connections w)(a \<mapsto> c')" "groups w0' = groups w0"
      "next_group w0' = next_group w"
    by (simp_all add: w0'_def w0_def world_simps)
  have "groups_ok mk (drop_bootstrap_group_ref r w0')"
  proof (rule groups_ok_drop_ref)
    fix g
    have "rc_of w0' g = rc_of w g" using rc by (simp add: rc_of_def conns fun_eq_iff)
    then show "rc_of w0' g = count_keys (holds_ref g) (connections w0') + of_bool (mk = Some g) +
        of_bool (g = gr_group r)"
      using groups_ok_rc [OF ok, of g] count [of g] by (simp add: conns)
  next
    fix g
    assume "groups w0' g \<noteq> None"
    then show "g < next_group w0'" using dom [of g] groups_ok_bound [OF ok] by (simp add: conns)
  qed (use grp(2) in \<open>simp add: conns\<close>)
  moreover have "groups (drop_bootstrap_group_ref r w0') = groups w1"
    by (simp add: w0'_def put_conn_def w1 groups_drop_ref_connections)
  ultimately show ?thesis
    using groups_ok_cong [of "put_conn a c' w1" "drop_bootstrap_group_ref r w0'"]
    by (simp add: world_simps w1 conns w0_def)
qed

section \<open>Incoming connections\<close>

lemma inv_close_new:
  assumes inv: "inv X mk w"
  shows "inv X mk (drop_q_conn (next_q w) (w\<lparr>next_q := Suc (next_q w)\<rparr>))"
proof -
  let ?w = "drop_q_conn (next_q w) (w\<lparr>next_q := Suc (next_q w)\<rparr>)"
  have "q_ok ?w"
    by (rule q_ok_close_new) (use inv in \<open>auto simp: inv_def drop_q_conn_def own_at_def fun_eq_iff\<close>)
  then show ?thesis using inv
    by (simp add: inv_def drop_q_conn_def table_ok_def attempts_ok_def killers_ok_def groups_ok_def
        rc_of_def events_ok_def complete_at_def)
qed

lemma entry_or_insert_next_q:
  "entry_or_insert None a t w = (c, w1) \<Longrightarrow>
    entry_or_insert None a t (w\<lparr>next_q := n\<rparr>) = (c, w1\<lparr>next_q := n\<rparr>)"
  by (auto simp: entry_or_insert_conv make_group_ref_def put_conn_def Let_def split: option.splits)

text \<open>The entry an incoming connection finds: consistent, or brand new.\<close>

definition awaits_peer :: "nat option \<Rightarrow> socket_addr \<Rightarrow> connection \<Rightarrow> world \<Rightarrow> bool" where
  "awaits_peer mk a c w \<longleftrightarrow>
    inv {a} mk w \<and> connections w a = Some c \<and> our_type w = OurNode \<and> conn_peer_addr c = a \<and>
    from_peer c = FpNoConnection \<and> \<not> is_complete c \<and> \<not> tp_is_not_needed (to_peer c) \<and>
    (case bootstrap_group_ref c of None \<Rightarrow> True
     | Some r \<Rightarrow> gr_peer_addr r = a \<and> (tp_is_initiated (to_peer c) \<or> tp_is_established (to_peer c))) \<and>
    (\<forall>t cert sends. to_peer c = TpInitiated t cert sends \<longrightarrow> attempts w t = Some a)"

lemma awaits_peerD:
  assumes "awaits_peer mk a c w"
  shows "inv {a} mk w" "connections w a = Some c" "our_type w = OurNode" "conn_peer_addr c = a"
    "from_peer c = FpNoConnection" "\<not> is_complete c" "\<not> tp_is_not_needed (to_peer c)"
    "\<And>t cert sends. to_peer c = TpInitiated t cert sends \<Longrightarrow> attempts w t = Some a"
    "groups_ok mk w" "finite (dom (connections w))"
    "\<And>r. bootstrap_group_ref c = Some r \<Longrightarrow>
      gr_peer_addr r = a \<and> (tp_is_initiated (to_peer c) \<or> tp_is_established (to_peer c))"
proof -
  show "inv {a} mk w" using assms by (simp add: awaits_peer_def)
  then show "groups_ok mk w" "finite (dom (connections w))" by (simp_all add: inv_def table_ok_def)
qed (use assms in \<open>simp_all add: awaits_peer_def\<close>)

lemma entry_for_incoming:
  assumes inv: "inv {} mk w" and node: "our_type w = OurNode"
    and eq: "entry_or_insert None a 0 w = (c, w1)"
    and none: "fp_is_no_connection (from_peer c)"
  shows "awaits_peer mk a c w1"
proof -
  note facts = entry_or_insert_ready [OF may_connectI [OF inv] disjI1 [OF refl] eq]
  have inv1: "inv {a} mk w1" using facts(1,2) inv_weaken by blast
  have at1: "connections w1 a = Some c" and node1: "our_type w1 = OurNode"
    using eq node by (auto simp: entry_or_insert_conv Let_def world_simps split: option.splits)
  have addr: "conn_peer_addr c = a" using inv1 at1 by (simp add: inv_def table_ok_def)
  have fp: "from_peer c = FpNoConnection" using none by (cases "from_peer c") simp_all
  then have nc: "\<not> is_complete c" by (simp add: is_complete_def)
  have wf: "conn_wf OurNode a c" if "connections w a = Some c"
    using inv_conn_wf [OF inv that] node by simp
  have new: "c = \<lparr>to_peer = TpNoConnection, from_peer = FpNoConnection, bootstrap_group_ref = None,
      we_contacted_peer = False, conn_peer_addr = a\<rparr>" if "connections w a \<noteq> Some c"
    using that eq by (auto simp: entry_or_insert_conv fst_make_group_ref Let_def split: option.splits)
  have nn: "\<not> tp_is_not_needed (to_peer c)"
    using wf new fp by (cases "connections w a = Some c") (auto simp: conn_wf_def)
  have ref: "case bootstrap_group_ref c of None \<Rightarrow> True
     | Some r \<Rightarrow> gr_peer_addr r = a \<and> (tp_is_initiated (to_peer c) \<or> tp_is_established (to_peer c))"
    using wf new by (cases "connections w a = Some c") (auto simp: conn_wf_def split: option.splits)
  have "attempts w1 t = Some a" if "to_peer c = TpInitiated t cert sends" for t cert sends
    using facts(2) that attempts_ok_waiting [of "{}" w1 a c t cert sends] at1 by (auto simp: inv_def)
  then show ?thesis using inv1 at1 node1 addr fp nc nn ref by (simp add: awaits_peer_def)
qed

lemma inv_incoming_waits:
  assumes e: "awaits_peer mk a c w" and tp: "\<not> tp_is_established (to_peer c)"
  defines "c1 \<equiv> c\<lparr>from_peer := FpEstablished (next_q w) []\<rparr>"
  shows "inv {} mk (put_conn a c1 (w\<lparr>next_q := Suc (next_q w)\<rparr>))"
proof (rule inv_add_q [OF awaits_peerD(1,2) [OF e], of c1 _ "[]"])
  let ?w' = "put_conn a c1 (w\<lparr>next_q := Suc (next_q w)\<rparr>)"
  note d = awaits_peerD [OF e]
  show "conn_wf (our_type w) a c1"
    using d(3-7) d(11) tp
    by (cases "to_peer c"; cases "bootstrap_group_ref c") (auto simp: c1_def conn_wf_def is_complete_def)
  have "groups_ok mk (put_conn a c1 w)" using groups_ok_put d by (simp add: c1_def)
  then show "groups_ok mk ?w'" by (simp add: put_conn_def groups_ok_def rc_of_def)
  show "foldl (ev_step b) (Some (complete_at w b)) [] =
      Some (if b = a then is_complete c1 else complete_at w b)" for b
    using d tp by (auto simp: c1_def complete_at_def is_complete_def)
  show "to_peer c1 = TpInitiated t cert sends \<Longrightarrow> attempts w t = Some a" for t cert sends
    using d(8) by (simp add: c1_def)
qed (use awaits_peerD [OF e] in \<open>auto simp: c1_def put_conn_def q_conns_def\<close>)

lemma inv_incoming_completes:
  assumes e: "awaits_peer mk a c w" and tp: "to_peer c = TpEstablished cert tq"
    and ev: "take_group_ref_event (bootstrap_group_ref c) \<lparr>ni_peer_addr = a, ni_peer_cert_der = cert\<rparr>
      (w\<lparr>next_q := Suc (next_q w)\<rparr>) = (ev, w2)"
  defines "c2 \<equiv> c\<lparr>from_peer := FpEstablished (next_q w) [], bootstrap_group_ref := None\<rparr>"
  shows "inv {} mk (put_conn a c2 (send_event ev w2))"
proof -
  let ?w' = "put_conn a c2 (send_event ev w2)"
  note d = awaits_peerD [OF e] and f = take_group_ref_frame [OF ev]
  have "groups_ok mk (w\<lparr>next_q := Suc (next_q w)\<rparr>)" using d(9) by (simp add: groups_ok_def rc_of_def)
  then have "groups_ok mk (put_conn a c2 w2)"
    by (rule groups_ok_take [OF _ _ _ _ ev]) (use d in \<open>simp_all add: c2_def\<close>)
  then have g: "groups_ok mk ?w'"
    by (simp add: put_conn_def groups_ok_def rc_of_def send_event_def)
  show ?thesis
  proof (rule inv_add_q [OF d(1,2) _ _ _ _ _ _ _ _ _ _ _ g, of c2 "[ev]"])
    show "conn_wf (our_type w) a c2" using d tp by (auto simp: c2_def conn_wf_def)
    show "foldl (ev_step b) (Some (complete_at w b)) [ev] =
        Some (if b = a then is_complete c2 else complete_at w b)" for b
      using d tp f(13) by (auto simp: c2_def complete_at_def is_complete_def)
  qed (use d f tp in \<open>auto simp: c2_def put_conn_def q_conns_def send_event_def\<close>)
qed

lemma inv_read_from_peer: "inv X mk w \<Longrightarrow> inv X mk (read_from_peer a q w)"
  by (rule inv_core [THEN iffD2, rotated 2]) (simp_all add: read_from_peer_def core_def)

lemma inv_handle_new_conn:
  assumes inv: "inv {} mk w" and node: "our_type w = OurNode"
  shows "inv {} mk (handle_new_conn a (next_q w) (w\<lparr>next_q := Suc (next_q w)\<rparr>))"
proof -
  let ?q = "next_q w"
  let ?wb = "w\<lparr>drivers := drivers w @ [(?q, a, Incoming)]\<rparr>"
  obtain c w1 where eqb: "entry_or_insert None a 0 ?wb = (c, w1)" by fastforce
  have eq: "entry_or_insert None a 0 (w\<lparr>next_q := Suc ?q, drivers := drivers w @ [(?q, a, Incoming)]\<rparr>)
      = (c, w1\<lparr>next_q := Suc ?q\<rparr>)"
    using entry_or_insert_next_q [OF eqb, of "Suc ?q"] by (cases w) simp
  have invb: "inv {} mk ?wb" by (rule inv_core [THEN iffD2, OF _ _ inv]) (simp_all add: core_def)
  have nq: "next_q w1 = ?q"
    using eqb by (auto simp: entry_or_insert_conv Let_def world_simps split: option.splits)
  show ?thesis
  proof (cases "fp_is_no_connection (from_peer c)")
    case False
    then have "w1 = ?wb"
      using eqb by (auto simp: entry_or_insert_conv Let_def split: option.splits)
    then show ?thesis
      using False eq inv_close_new [OF invb] by (simp add: handle_new_conn_def)
  next
    case True
    have e: "awaits_peer mk a c w1" using entry_for_incoming [OF invb _ eqb True] node by simp
    show ?thesis
    proof (cases "to_peer c")
      case (TpEstablished cert tq)
      obtain ev w2 where "take_group_ref_event (bootstrap_group_ref c)
          \<lparr>ni_peer_addr = a, ni_peer_cert_der = cert\<rparr> (w1\<lparr>next_q := Suc ?q\<rparr>) = (ev, w2)"
        by fastforce
      then show ?thesis
        using inv_read_from_peer inv_incoming_completes [OF e TpEstablished] True TpEstablished eq nq
        by (simp add: handle_new_conn_def put_conn_def Let_def)
    qed (use inv_read_from_peer inv_incoming_waits [OF e] True eq nq in
        \<open>simp_all add: handle_new_conn_def put_conn_def\<close>)
  qed
qed

section \<open>Attempts succeed\<close>

text \<open>What greeting a peer leaves of the world, the groups and the events apart.\<close>

definition keeps :: "world \<Rightarrow> world \<Rightarrow> bool" where
  "keeps w w' \<longleftrightarrow>
    connections w' = connections w \<and> our_type w' = our_type w \<and> attempts w' = attempts w \<and>
    killers w' = killers w \<and> closed w' = closed w \<and> listening w' = listening w \<and>
    next_term w' = next_term w \<and> next_q w' = next_q w \<and> next_group w' = next_group w \<and>
    signalled w \<subseteq> signalled w'"

lemma keeps_trans: "keeps w w1 \<Longrightarrow> keeps w1 w2 \<Longrightarrow> keeps w w2"
  by (auto simp: keeps_def)

lemma keeps_core: "core w' = core w \<Longrightarrow> keeps w w'"
  by (simp add: keeps_def core_def)

lemma keeps_take: "take_group_ref_event ro ni w = (ev, w1) \<Longrightarrow> keeps w w1"
  using take_group_ref_frame [of ro ni w ev w1] by (simp add: keeps_def)

lemma core_flush [simp]: "core (flush_pending_sends a q ms w) = core w"
  unfolding flush_pending_sends_def by (induction ms arbitrary: w) simp_all

lemma events_flush [simp]: "events (flush_pending_sends a q ms w) = events w"
  unfolding flush_pending_sends_def by (induction ms arbitrary: w) simp_all

text \<open>The entry whose attempt has just succeeded.\<close>

definition connecting :: "nat option \<Rightarrow> socket_addr \<Rightarrow> bytes \<Rightarrow> connection \<Rightarrow> world \<Rightarrow> bool" where
  "connecting mk a cert c w \<longleftrightarrow>
    connections w a = Some c \<and> conn_wf (our_type w) a c \<and>
    (\<exists>t sends. to_peer c = TpInitiated t cert sends) \<and>
    groups_ok mk w \<and> finite (dom (connections w))"

definition greeted ::
  "nat option \<Rightarrow> socket_addr \<Rightarrow> connection \<Rightarrow> world \<Rightarrow> connection \<Rightarrow> world \<Rightarrow> event list \<Rightarrow> bool" where
  "greeted mk a c w c2 w2 es \<longleftrightarrow>
    keeps w w2 \<and> groups_ok mk (put_conn a c2 w2) \<and> events w2 = events w @ es \<and>
    (\<forall>b. foldl (ev_step b) (Some (complete_at w b)) es =
      Some (if b = a then is_complete c2 else complete_at w b))"

lemma groups_ok_core: "core w = core w' \<Longrightarrow> groups_ok mk w \<longleftrightarrow> groups_ok mk w'"
  by (rule groups_ok_cong) (auto dest: core_fields)

lemma groups_ok_put_core:
  "core w = core w' \<Longrightarrow> groups_ok mk (put_conn a c w) \<longleftrightarrow> groups_ok mk (put_conn a c w')"
  by (rule groups_ok_cong) (auto dest: core_fields simp: world_simps)

lemma foldl_connected:
  assumes "ev = ConnectedTo (PeerNode ni) \<or> ev = BootstrappedTo ni" and "ni_peer_addr ni = a"
    and "\<not> complete_at w a"
  shows "foldl (ev_step b) (Some (complete_at w b)) (ev # concat (map (msg_events a) ms)) =
    Some (b = a \<or> complete_at w b)"
  using assms by (auto simp: foldl_ev_messages)

lemma take_greeted:
  assumes c: "connecting mk a cert c w" and none: "bootstrap_group_ref c2 = None"
    and complete: "is_complete c2"
    and ev: "take_group_ref_event (bootstrap_group_ref c)
      \<lparr>ni_peer_addr = a, ni_peer_cert_der = cert\<rparr> w = (ev, w1)"
    and w2: "core w2 = core w1" "events w2 = events w1 @ ev # concat (map (msg_events a) ms)"
  shows "greeted mk a c w c2 w2 (ev # concat (map (msg_events a) ms))"
proof -
  have "groups_ok mk (put_conn a c2 w1)"
    by (rule groups_ok_take [OF _ _ _ none ev]) (use c in \<open>auto simp: connecting_def\<close>)
  then have "groups_ok mk (put_conn a c2 w2)" using groups_ok_put_core [OF w2(1)] by simp
  moreover have "keeps w w2" using keeps_take [OF ev] keeps_core [OF w2(1)] by (rule keeps_trans)
  moreover have "\<not> complete_at w a" using c by (auto simp: connecting_def complete_at_def is_complete_def)
  then have "foldl (ev_step b) (Some (complete_at w b)) (ev # concat (map (msg_events a) ms)) =
      Some (b = a \<or> complete_at w b)" for b
    by (rule foldl_connected [rotated 2]) (use take_group_ref_frame(13) [OF ev] in \<open>auto split: if_splits\<close>)
  ultimately show ?thesis
    using w2(2) complete take_group_ref_frame(11) [OF ev] by (simp add: greeted_def)
qed

lemma greet_peer_greets:
  assumes c: "connecting mk a cert c w"
  defines "ni \<equiv> \<lparr>ni_peer_addr = a, ni_peer_cert_der = cert\<rparr>"
  shows "\<exists>c1 acc w2 es. greet_peer E a q ni c w = Inr ((c1, acc), w2) \<and>
    greeted mk a c w (c1\<lparr>to_peer := TpEstablished cert q\<rparr>) w2 es \<and>
    conn_wf (our_type w) a (c1\<lparr>to_peer := TpEstablished cert q\<rparr>) \<and>
    q_conns (c1\<lparr>to_peer := TpEstablished cert q\<rparr>) = q # q_conns c"
proof -
  have at_a: "connections w a = Some c" and wf: "conn_wf (our_type w) a c"
    and g: "groups_ok mk w" and fin: "finite (dom (connections w))"
    using c by (simp_all add: connecting_def)
  obtain t sends where tp: "to_peer c = TpInitiated t cert sends" using c by (auto simp: connecting_def)
  note wf' = wf [unfolded conn_wf_def]
  show ?thesis
  proof (cases "from_peer c")
    case FpNoConnection
    let ?c2 = "c\<lparr>to_peer := TpEstablished cert q\<rparr>"
    have "\<not> complete_at w a" using at_a tp by (simp add: complete_at_def is_complete_def)
    moreover have "groups_ok mk (put_conn a ?c2 w)" using groups_ok_put [OF g fin] at_a by simp
    ultimately have "greeted mk a c w ?c2 (write_to_peer_connection a q m w) []" for m
      using groups_ok_put_core [of w "write_to_peer_connection a q m w" mk a ?c2] FpNoConnection
      by (simp add: greeted_def keeps_core is_complete_def)
    moreover have "conn_wf (our_type w) a ?c2"
      using wf' FpNoConnection tp
      by (auto simp: conn_wf_def is_complete_def split: our_type.splits option.splits)
    ultimately show ?thesis using FpNoConnection tp by (auto simp: greet_peer_def q_conns_def)
  next
    case FpNotNeeded
    let ?c1 = "c\<lparr>bootstrap_group_ref := None\<rparr>"
    let ?w1 = "write_to_peer_connection a q (Handshake HandshakeClient) w"
    obtain ev w2 where ev: "take_group_ref_event (bootstrap_group_ref c) ni ?w1 = (ev, w2)"
      by fastforce
    have "connecting mk a cert c ?w1" using c groups_ok_core [of w ?w1]
      by (simp add: connecting_def write_to_peer_connection_def groups_ok_def rc_of_def)
    from take_greeted [OF this, of "?c1\<lparr>to_peer := TpEstablished cert q\<rparr>" ev w2 "send_event ev w2" "[]"]
    have "greeted mk a c ?w1 (?c1\<lparr>to_peer := TpEstablished cert q\<rparr>) (send_event ev w2) [ev]"
      using FpNotNeeded ev take_group_ref_frame(11) [OF ev]
      by (simp add: ni_def is_complete_def send_event_def core_def)
    then have "greeted mk a c w (?c1\<lparr>to_peer := TpEstablished cert q\<rparr>) (send_event ev w2) [ev]"
      by (simp add: greeted_def keeps_def write_to_peer_connection_def complete_at_def)
    moreover have "conn_wf (our_type w) a (?c1\<lparr>to_peer := TpEstablished cert q\<rparr>)"
      using wf' FpNotNeeded by (auto simp: conn_wf_def split: our_type.splits)
    ultimately show ?thesis
      using FpNotNeeded ev tp by (auto simp: greet_peer_def q_conns_def)
  next
    case (FpEstablished fq reads)
    let ?c1 = "c\<lparr>bootstrap_group_ref := None, from_peer := FpEstablished fq []\<rparr>"
    obtain ev w1 where ev: "take_group_ref_event (bootstrap_group_ref c) ni w = (ev, w1)" by fastforce
    have "\<forall>m \<in> set reads. \<not> is_handshake m" using wf' FpEstablished by simp
    from dispatch_all [OF this, of E "PeerNode ni" q "we_contacted_peer c" "send_event ev w1"]
    obtain w3 where w3: "fold_p (take_and_dispatch E (PeerNode ni) q (we_contacted_peer c)) reads
        (send_event ev w1) = Inr w3" "core w3 = core w1"
      "events w3 = events w1 @ ev # concat (map (msg_events a) reads)"
      by (auto simp: ni_def send_event_def core_def)
    have "greeted mk a c w (?c1\<lparr>to_peer := TpEstablished cert q\<rparr>) w3
        (ev # concat (map (msg_events a) reads))"
      by (rule take_greeted [OF c _ _ ev [unfolded ni_def] w3(2,3)]) (simp_all add: is_complete_def)
    moreover have "conn_wf (our_type w) a (?c1\<lparr>to_peer := TpEstablished cert q\<rparr>)"
      using wf' FpEstablished by (auto simp: conn_wf_def split: our_type.splits)
    ultimately show ?thesis
      using FpEstablished ev tp w3(1) by (auto simp: greet_peer_def q_conns_def)
  qed
qed

lemma handle_new_connection_res_conv:
  assumes "connections w a = Some c" and "to_peer c = TpInitiated t cert sends"
    and "w0 = w\<lparr>drivers := drivers w @ [(q, a, Outgoing)]\<rparr>"
    and "w1 = (if we_contacted_peer c
      then cache_add_peer E \<lparr>ni_peer_addr = a, ni_peer_cert_der = cert\<rparr> w0 else w0)"
    and "greet_peer E a q \<lparr>ni_peer_addr = a, ni_peer_cert_der = cert\<rparr> c w1 = Inr ((c1, acc), w2)"
  shows "handle_new_connection_res E a (Inr q) w =
    Inr (let w5 = try_send t (put_conn a (c1\<lparr>to_peer := TpEstablished cert q\<rparr>)
               (flush_pending_sends a q sends w2))
         in if acc then w5\<lparr>readers := readers w5 @ [(q, a)]\<rparr> else w5)"
proof -
  have "handle_new_connection_res E a (Inr q) w =
    (case greet_peer E a q \<lparr>ni_peer_addr = a, ni_peer_cert_der = cert\<rparr> c w1 of
       Inl p \<Rightarrow> Inl p
     | Inr ((conn1, acc), w2) \<Rightarrow>
         Inr (let w5 = try_send t (put_conn a (conn1\<lparr>to_peer := TpEstablished cert q\<rparr>)
               (flush_pending_sends a q sends w2))
         in if acc then w5\<lparr>readers := readers w5 @ [(q, a)]\<rparr> else w5))"
    using assms(1,2) unfolding assms(3,4)
    by (simp add: handle_new_connection_res_def put_conn_def Let_def split: sum.splits prod.splits)
  then show ?thesis by (simp add: assms(5) Let_def)
qed

lemma inv_attempt_connected:
  assumes inv: "inv {} mk w" and att: "attempts w t = Some a" "t \<notin> signalled w"
  shows "\<exists>w' c cert. handle_new_connection_res E a (Inr (next_q w)) (w\<lparr>next_q := Suc (next_q w)\<rparr>) = Inr w' \<and>
    inv {} mk w' \<and> connections w' a = Some c \<and> to_peer c = TpEstablished cert (next_q w) \<and>
    attempts w' = attempts w"
proof -
  let ?q = "next_q w"
  define w0 where "w0 = w\<lparr>next_q := Suc ?q, drivers := drivers w @ [(?q, a, Outgoing)]\<rparr>"
  obtain c cert sends where at_a: "connections w a = Some c" and
    tp: "to_peer c = TpInitiated t cert sends"
    using inv att attempts_ok_live [of "{}" w t a] by (auto simp: inv_def)
  let ?ni = "\<lparr>ni_peer_addr = a, ni_peer_cert_der = cert\<rparr>"
  define w1 where "w1 = (if we_contacted_peer c then cache_add_peer E ?ni w0 else w0)"
  have w1: "core w1 = core w0" "events w1 = events w" by (simp_all add: w1_def w0_def)
  note w1f = core_fields [OF w1(1), unfolded w0_def, simplified]
  have "connecting mk a cert c w1"
    using inv at_a tp inv_conn_wf [OF inv at_a] w1f
    by (auto simp: connecting_def inv_def table_ok_def groups_ok_def rc_of_def)
  from greet_peer_greets [OF this, of E ?q]
  obtain c1 acc w2 es where gr: "greet_peer E a ?q ?ni c w1 = Inr ((c1, acc), w2)" and
    greeted: "greeted mk a c w1 (c1\<lparr>to_peer := TpEstablished cert ?q\<rparr>) w2 es" and
    wf: "conn_wf (our_type w1) a (c1\<lparr>to_peer := TpEstablished cert ?q\<rparr>)" and
    qs: "q_conns (c1\<lparr>to_peer := TpEstablished cert ?q\<rparr>) = ?q # q_conns c"
    by blast
  define c2 where "c2 = c1\<lparr>to_peer := TpEstablished cert ?q\<rparr>"
  define w3 where "w3 = flush_pending_sends a ?q sends w2"
  define w' where "w' = (let w5 = try_send t (put_conn a c2 w3)
    in if acc then w5\<lparr>readers := readers w5 @ [(?q, a)]\<rparr> else w5)"
  have res: "handle_new_connection_res E a (Inr ?q) (w\<lparr>next_q := Suc ?q\<rparr>) = Inr w'"
    unfolding w'_def w3_def c2_def
    by (rule handle_new_connection_res_conv [OF _ tp _ w1_def gr]) (simp_all add: at_a w0_def)
  have w3: "core w3 = core w2" "events w3 = events w2" by (simp_all add: w3_def)
  note w3f = core_fields [OF w3(1)]
  have g: "groups_ok mk w'"
    using greeted groups_ok_put_core [OF w3(1), of mk a c2]
    by (auto simp: greeted_def c2_def w'_def put_conn_def try_send_def groups_ok_def rc_of_def Let_def)
  have conns: "connections w' = (connections w)(a \<mapsto> c2)"
    using greeted w1f w3f by (simp add: greeted_def keeps_def w'_def put_conn_def try_send_def Let_def)
  have fr: "our_type w' = our_type w" "attempts w' = attempts w" "killers w' = killers w"
      "closed w' = closed w" "listening w' = listening w" "next_term w' = next_term w"
      "next_q w' = Suc ?q" "insert t (signalled w) \<subseteq> signalled w'"
    using greeted w1f w3f
    by (simp_all add: greeted_def keeps_def w'_def put_conn_def try_send_def Let_def subset_insertI2)
  have "inv {} mk w'"
  proof (rule inv_add_q [OF inv_weaken [OF inv] at_a _ conns fr(1-7) _ _ g])
    show "events w' = events w @ es"
      using greeted w3 w1(2) by (simp add: greeted_def w'_def put_conn_def try_send_def Let_def)
    show "foldl (ev_step b) (Some (complete_at w b)) es =
        Some (if b = a then is_complete c2 else complete_at w b)" for b
      using greeted w1f by (simp add: greeted_def c2_def complete_at_def)
  qed (use fr(8) w1f wf qs tp in \<open>auto simp: c2_def is_complete_def\<close>)
  then show ?thesis using res conns fr(2) by (auto simp: c2_def)
qed

section \<open>Messages\<close>

text \<open>
  The outcome of handling a message: either the invariants hold again or, on a
  node, the message met an entry without a connection from the peer.
\<close>

definition good_result :: "nat option \<Rightarrow> world \<Rightarrow> panic + world \<Rightarrow> bool" where
  "good_result mk w r \<longleftrightarrow>
    (case r of
       Inl p \<Rightarrow> p = UnreachableNoConnectionForMessage \<and> our_type w = OurNode
     | Inr w' \<Rightarrow> inv {} mk w')"

lemma good_result_Inr [simp]: "good_result mk w (Inr w') \<longleftrightarrow> inv {} mk w'"
  by (simp add: good_result_def)

lemma inv_dispatch:
  assumes inv: "inv {} mk w" and "complete_at w (peer_addr p)" and "\<not> is_handshake m"
  shows "good_result mk w (take_and_dispatch E p q b m w)"
proof -
  obtain w' where w': "take_and_dispatch E p q b m w = Inr w'" "core w' = core w"
      "events w' = events w @ msg_events (peer_addr p) m"
    using take_and_dispatch_total [OF assms(3)] by blast
  let ?w = "w\<lparr>events := events w'\<rparr>"
  have "events_ok ?w"
    by (rule events_ok_append [of w _ "msg_events (peer_addr p) m"])
      (use inv assms(2) w'(3) foldl_ev_messages [of _ _ "peer_addr p" "[m]"] in
        \<open>auto simp: inv_def complete_at_def\<close>)
  then have "inv {} mk ?w" using inv
    by (simp add: inv_def table_ok_def attempts_ok_def killers_ok_def groups_ok_def rc_of_def
        q_ok_def own_at_def)
  then have "inv {} mk w'"
    by (rule inv_core [THEN iffD2, rotated 2]) (use w'(2) in \<open>simp_all add: core_def\<close>)
  then show ?thesis using w'(1) by simp
qed

lemma inv_rx_cert:
  assumes "inv {} mk w"
  shows "\<exists>w'. handle_rx_cert E a cert w = Inr w' \<and> inv {} mk w'"
  using assms inv_connect_to [OF may_connectI [OF assms], where maker = None and E = E and msg = None
      and ni = "\<lparr>ni_peer_addr = a, ni_peer_cert_der = cert\<rparr>"]
  by (auto simp: handle_rx_cert_def Let_def split: option.splits to_peer.splits)

lemma inv_rx_client:
  assumes inv: "inv {} mk w"
  shows "good_result mk w (handle_rx_handshake E a HandshakeClient w)"
proof (cases "\<exists>c. connections w a = Some c \<and> to_peer c = TpNoConnection")
  case False
  then show ?thesis
    using inv by (auto simp: handle_rx_handshake_def split: option.splits to_peer.splits)
next
  case True
  then obtain c where at_a: "connections w a = Some c" and tp: "to_peer c = TpNoConnection" by blast
  let ?c = "c\<lparr>to_peer := TpNotNeeded\<rparr>"
  let ?w = "send_event (ConnectedTo (PeerClient a)) (put_conn a ?c w)"
  have wf: "conn_wf (our_type w) a c" by (rule inv_conn_wf [OF inv at_a])
  have ok: "table_ok {} w" "attempts_ok {} w" "killers_ok w" "groups_ok mk w" "q_ok w" "events_ok w"
    using inv by (simp_all add: inv_def)
  have wf': "conn_wf (our_type w) a ?c" and compl: "is_complete ?c"
    using wf tp by (auto simp: conn_wf_def is_complete_def
        split: our_type.splits option.splits from_peer.splits)
  have "table_ok {} (put_conn a ?c w)" "attempts_ok {} (put_conn a ?c w)"
      "killers_ok (put_conn a ?c w)" "q_ok (put_conn a ?c w)" "groups_ok mk (put_conn a ?c w)"
    using wf wf' compl tp at_a ok table_ok_finite [OF ok(1)]
    by (auto intro!: table_ok_put attempts_ok_put killers_ok_put q_ok_put groups_ok_put
        simp: conn_wf_def own_at_def q_conns_def)
  moreover have "events_ok ?w"
    by (rule events_ok_append [OF ok(6), of _ "[ConnectedTo (PeerClient a)]"])
      (use at_a tp compl in \<open>auto simp: send_event_def complete_at_def world_simps is_complete_def\<close>)
  ultimately have "inv {} mk ?w"
    by (simp add: inv_def send_event_def table_ok_def attempts_ok_def killers_ok_def groups_ok_def
        rc_of_def q_ok_def own_at_def)
  then show ?thesis using at_a tp by (simp add: handle_rx_handshake_def put_conn_def)
qed

lemma inv_queue_read:
  assumes inv: "inv {} mk w" and at_a: "connections w a = Some c"
    and fp: "from_peer c = FpEstablished q reads" and tp: "\<not> tp_is_established (to_peer c)"
    and m: "\<not> is_handshake m"
  shows "inv {} mk (put_conn a (c\<lparr>from_peer := FpEstablished q (reads @ [m])\<rparr>) w)"
  by (rule inv_update [OF inv at_a])
    (use inv_conn_wf [OF inv at_a] fp tp m in
      \<open>auto simp: conn_wf_def is_complete_def q_conns_def split: our_type.splits option.splits\<close>)

lemma inv_plain_msg:
  assumes inv: "inv {} mk w" and m: "\<not> is_handshake m"
  shows "good_result mk w (handle_wire_msg E a m w)"
proof (cases "connections w a")
  case None
  then show ?thesis using inv m by (cases m) (simp_all add: handle_wire_msg_def)
next
  case (Some c)
  have eq: "handle_wire_msg E a m w =
      (case from_peer c of
         FpNotNeeded \<Rightarrow> (case to_peer c of
             TpEstablished cert q \<Rightarrow> take_and_dispatch E
               (PeerNode \<lparr>ni_peer_addr = a, ni_peer_cert_der = cert\<rparr>) q (we_contacted_peer c) m w
           | _ \<Rightarrow> Inr w)
       | FpEstablished q reads \<Rightarrow> (case to_peer c of
             TpNotNeeded \<Rightarrow> take_and_dispatch E (PeerClient a) q (we_contacted_peer c) m w
           | TpEstablished cert tq \<Rightarrow> take_and_dispatch E
               (PeerNode \<lparr>ni_peer_addr = a, ni_peer_cert_der = cert\<rparr>) tq (we_contacted_peer c) m w
           | _ \<Rightarrow> Inr (put_conn a (c\<lparr>from_peer := FpEstablished q (reads @ [m])\<rparr>) w))
       | FpNoConnection \<Rightarrow> Inl UnreachableNoConnectionForMessage)"
    using Some m by (cases m) (simp_all add: handle_wire_msg_def put_conn_def node_info_into_peer_def
        split: from_peer.splits to_peer.splits)
  have complete: "complete_at w a" if "is_complete c"
    using that Some by (simp add: complete_at_def)
  show ?thesis
  proof (cases "from_peer c")
    case FpNoConnection
    then show ?thesis
      using eq inv_conn_wf [OF inv Some]
      by (auto simp: good_result_def conn_wf_def split: our_type.splits)
  next
    case FpNotNeeded
    then show ?thesis
      using eq complete inv inv_dispatch [OF inv _ m] by (cases "to_peer c") (auto simp: is_complete_def)
  next
    case (FpEstablished q reads)
    then show ?thesis
      using eq complete inv_dispatch [OF inv _ m] inv_queue_read [OF inv Some FpEstablished _ m]
      by (cases "to_peer c") (auto simp: is_complete_def)
  qed
qed

lemma inv_wire_msg:
  assumes "inv {} mk w"
  shows "good_result mk w (handle_wire_msg E a m w)"
proof (cases m)
  case (Handshake h)
  then have eq: "handle_wire_msg E a m w = handle_rx_handshake E a h w"
    by (simp add: handle_wire_msg_def)
  show ?thesis
  proof (cases h)
    case (HandshakeNode cert)
    then show ?thesis
      using eq inv_rx_cert [OF assms, of E a cert] by (auto simp: handle_rx_handshake_def)
  next
    case HandshakeClient
    then show ?thesis using eq inv_rx_client [OF assms] by simp
  qed
qed (use inv_plain_msg [OF assms, of m] in simp_all)

lemma inv_read_task:
  assumes "inv {} mk w"
  shows "good_result mk w (run_read_task E a out w)"
  using inv_wire_msg [OF assms] inv_remove_clean [OF assms]
  by (auto simp: run_read_task_def handle_communication_err_def split: sum.splits)

lemma inv_wire: "inv X mk w \<Longrightarrow> inv X mk (w\<lparr>wire := v\<rparr>)"
  by (rule inv_core [THEN iffD2, rotated 2]) (simp_all add: core_def)

lemma inv_write_task:
  assumes "inv {} mk w" and "bincode_wire (msg_codec E)"
  shows "\<exists>w'. run_write_task E t out w = Inr w' \<and> inv {} mk w'"
proof -
  obtain bs where "into_bytes (msg_codec E) (wt_msg t) = Inr bs"
    using bincode_wire.into_bytes_total [OF assms(2)] by blast
  then show ?thesis
    using inv_remove_clean [OF assms(1)] inv_remove_clean [OF inv_wire [OF assms(1)]] inv_wire [OF assms(1)]
    by (cases out) (simp_all add: run_write_task_def handle_communication_err_def)
qed

section \<open>Timers\<close>

lemma killer_condition:
  assumes "inv {} mk w" and "connections w a = Some c"
  shows "incomplete_conn_killer_fires a (w\<lparr>killers := ks\<rparr>) =
    (if is_complete c then w\<lparr>killers := ks\<rparr> else remove_connection a (w\<lparr>killers := ks\<rparr>))"
  using inv_conn_wf [OF assms] assms(2)
  by (cases "to_peer c"; cases "from_peer c")
    (auto simp: incomplete_conn_killer_fires_def is_complete_def conn_wf_def split: our_type.splits)

lemma inv_fewer_killers:
  assumes inv: "inv X mk w"
    and left: "\<And>a c. connections w a = Some c \<Longrightarrow> \<not> is_complete c \<Longrightarrow> a \<in> set ks"
  shows "inv X mk (w\<lparr>killers := ks\<rparr>)"
  using assms
  by (simp add: inv_def table_ok_def attempts_ok_def killers_ok_def groups_ok_def rc_of_def
        q_ok_def own_at_def events_ok_def complete_at_def)

lemma inv_killer_fires:
  assumes inv: "inv {} mk w"
  shows "inv {} mk (incomplete_conn_killer_fires a (w\<lparr>killers := remove1 a (killers w)\<rparr>))"
proof -
  let ?w = "w\<lparr>killers := remove1 a (killers w)\<rparr>"
  have k: "killers_ok w" using inv by (simp add: inv_def)
  have other: "b \<in> set (remove1 a (killers w))"
    if "connections w b = Some c" "\<not> is_complete c" "b \<noteq> a" for b c
    using that k by (auto simp: killers_ok_def in_set_remove1)
  show ?thesis
  proof (cases "\<exists>c. connections w a = Some c \<and> \<not> is_complete c")
    case True
    then obtain c where c: "connections w a = Some c" "\<not> is_complete c" by blast
    have "killers_ok (remove_connection a ?w)"
      using other by (auto simp: killers_ok_def world_simps)
    moreover have "table_ok {} ?w" "attempts_ok {} ?w" "groups_ok mk ?w" "q_ok ?w" "events_ok ?w"
      using inv by (simp_all add: inv_def table_ok_def attempts_ok_def groups_ok_def rc_of_def
          q_ok_def own_at_def events_ok_def complete_at_def)
    ultimately have "inv {} mk (remove_connection a ?w)"
      using table_ok_remove [of "{}" ?w a] attempts_ok_remove [of "{}" ?w a] groups_ok_remove [of mk ?w a]
        table_ok_finite [of "{}" ?w] q_ok_remove [of ?w a] events_ok_remove [of ?w "{}" a]
      by (simp add: inv_def)
    then show ?thesis using killer_condition [OF inv c(1)] c(2) by simp
  next
    case False
    then have "incomplete_conn_killer_fires a ?w = ?w"
      using killer_condition [OF inv]
      by (cases "connections w a") (auto simp: incomplete_conn_killer_fires_def)
    moreover have "inv {} mk ?w" by (rule inv_fewer_killers [OF inv]) (use False other in blast)
    ultimately show ?thesis by simp
  qed
qed

end
