(* ===== verification/Run_Invariant.thy ===== *)
theory Run_Invariant
  imports Handler_Invariant
begin

text \<open>
  The event loop as an instance of \<open>invariant_system\<close>: every step keeps the
  invariants, and the only panic it can end in is the \<open>unreachable!\<close> of a node
  that reads a message for an entry without a connection from the peer.
\<close>

section \<open>Steps keep the invariants\<close>

lemma good_result_of_total:
  "\<exists>w'. r = Inr w' \<and> inv {} mk w' \<Longrightarrow> good_result mk w r"
  by auto

lemma inv_spawned:
  "inv X mk (w\<lparr>drivers := ds\<rparr>) = inv X mk w"
  "inv X mk (w\<lparr>readers := rs\<rparr>) = inv X mk w"
  "inv X mk (w\<lparr>stream_reads := ss\<rparr>) = inv X mk w"
  "inv X mk (w\<lparr>writes := ws\<rparr>) = inv X mk w"
  by (rule inv_core; simp add: core_def)+

lemma inv_attempt_ends:
  assumes "inv {} mk w" and "attempts w t = Some a"
  shows "inv {} mk (finish_attempt t (remove_connection a w))"
  by (rule inv_finish_attempt [OF inv_remove_clean [OF assms(1)]])
    (use assms(2) in \<open>auto simp: world_simps\<close>)

lemma inv_attempt_succeeds:
  assumes "inv {} mk w" and "attempts w t = Some a" and "t \<notin> signalled w"
  shows "\<exists>w' c cert. bind_p (handle_new_connection_res E a (Inr (next_q w)) (w\<lparr>next_q := Suc (next_q w)\<rparr>))
      (\<lambda>w'. Inr (finish_attempt t w')) = Inr w' \<and> inv {} mk w' \<and> connections w' a = Some c \<and>
      to_peer c = TpEstablished cert (next_q w)"
proof -
  obtain w' c cert where w': "handle_new_connection_res E a (Inr (next_q w))
      (w\<lparr>next_q := Suc (next_q w)\<rparr>) = Inr w'" "inv {} mk w'" "connections w' a = Some c"
      "to_peer c = TpEstablished cert (next_q w)" "attempts w' = attempts w"
    using inv_attempt_connected [OF assms] by blast
  have "inv {} mk (finish_attempt t w')"
    by (rule inv_finish_attempt [OF w'(2)]) (use w' assms(2) in auto)
  then show ?thesis using w' by (simp add: finish_attempt_def)
qed

lemma inv_listener_fails: "inv X mk w \<Longrightarrow> inv X mk (w\<lparr>listening := False\<rparr>)"
  by (rule inv_frame) auto

lemma step_good:
  assumes step: "el_step E w l r" and inv: "inv {} None w" and C: "bincode_wire (msg_codec E)"
  shows "good_result None w r"
  using step
proof cases
  case (incoming_connection a)
  then have "our_type w = OurNode" using inv by (simp add: inv_def table_ok_def)
  then show ?thesis using incoming_connection inv_handle_new_conn [OF inv] by simp
next
  case (attempt_connected t a)
  then show ?thesis using inv_attempt_succeeds [OF inv, of t a E] by auto
next
  case (read_finished a out)
  have "good_result None (w\<lparr>stream_reads := remove1 a (stream_reads w)\<rparr>) r"
    unfolding read_finished(2) by (rule inv_read_task) (simp add: inv_spawned inv)
  then show ?thesis by (simp add: good_result_def split: sum.splits)
next
  case (write_finished t out)
  then show ?thesis
    using inv_write_task [OF _ C, of None "w\<lparr>writes := remove1 t (writes w)\<rparr>"] inv
    by (auto simp: inv_spawned intro: good_result_of_total)
next
  case (stream_uni q a)
  then show ?thesis using inv by (simp add: read_peer_stream_def inv_spawned)
next
  case (post_proxies ps ex)
  then show ?thesis using inv_install_proxies [OF inv] by simp
qed (use inv inv_start [OF inv] inv_qp2p_connect_to [OF inv] inv_qp2p_send [OF inv]
      inv_register_and_ask_echo [OF inv] inv_attempt_ends [OF inv] inv_remove_clean
      inv_killer_fires [OF inv] inv_listener_fails [OF inv] good_result_of_total in
      \<open>simp_all add: qp2p_bootstrap_def qp2p_disconnect_from_def handle_connect_err_def
        handle_communication_err_def handle_new_connection_res_def read_peer_stream_def inv_spawned\<close>)

section \<open>Runs\<close>

text \<open>What a step may panic with.\<close>

definition loop_may_panic :: "world \<Rightarrow> panic \<Rightarrow> bool" where
  "loop_may_panic w p \<longleftrightarrow> p = UnreachableNoConnectionForMessage \<and> our_type w = OurNode"

text \<open>The runs of the library whose message serialisation behaves as \<open>bincode\<close> documents.\<close>

locale qp2p_runs = bincode_wire "msg_codec E" for E :: extern

sublocale qp2p_runs \<subseteq> loop: invariant_system initial_world "el_step E" "inv {} None" loop_may_panic
proof
  show "inv {} None w" if "initial_world w" for w
    using that by (rule inv_initial)
next
  fix w l w'
  assume "inv {} None w" and "el_step E w l (Inr w')"
  then show "inv {} None w'" using step_good bincode_wire_axioms by fastforce
next
  fix w l p
  assume "inv {} None w" and "el_step E w l (Inl p)"
  then show "loop_may_panic w p"
    using step_good [of E w l "Inl p"] bincode_wire_axioms
    by (simp add: good_result_def loop_may_panic_def)
qed

context qp2p_runs
begin

lemma reachable_inv: "reachable E w \<Longrightarrow> inv {} None w"
  by (simp add: reachable_def loop.reach_I)

lemma reachable_panic: "reachable E w \<Longrightarrow> el_step E w l (Inl p) \<Longrightarrow> loop_may_panic w p"
  by (simp add: reachable_def loop.reach_panic)

end

end
