(* ===== verification/Scenario.thy ===== *)
theory Scenario
  imports Run_Invariant Store_Format
begin

text \<open>
  Concrete runs: an environment that serialises as \<open>bincode\<close> does, a fresh node
  and a fresh client, and the worlds that given sequences of steps lead to. They
  show that the hypotheses of the properties can hold together, and they exhibit
  the runs on which the code goes wrong.
\<close>

section \<open>An environment\<close>

definition bincode_extern ::
  "(bytes \<Rightarrow> string option) \<Rightarrow> (bytes \<Rightarrow> string option) \<Rightarrow> (bytes \<Rightarrow> setup_error option) \<Rightarrow>
   (bytes \<Rightarrow> bytes \<Rightarrow> setup_error option) \<Rightarrow> (nat \<Rightarrow> socket_addr \<Rightarrow> string option) \<Rightarrow> extern" where
  "bincode_extern cert key ca own conn =
    \<lparr>certificate_from_der = cert, private_key_from_der = key, add_certificate_authority = ca,
     add_own_certificate = own, connect_with = conn, peers_codec = bincode_peers,
     msg_codec = bincode_codec\<rparr>"

lemma bincode_extern_codec [simp]:
  "msg_codec (bincode_extern cert key ca own conn) = bincode_codec"
  by (simp add: bincode_extern_def)

interpretation bincode_runs: qp2p_runs "bincode_extern cert key ca own conn"
  for cert key ca own conn
  by (intro qp2p_runs.intro) (simp add: bincode.bincode_wire_axioms)

text \<open>The same with every certificate accepted and every attempt started.\<close>

definition sample_extern :: extern where
  "sample_extern = bincode_extern (\<lambda>_. None) (\<lambda>_. None) (\<lambda>_. None) (\<lambda>_ _. None) (\<lambda>_ _. None)"

lemma sample_codec: "bincode_wire (msg_codec sample_extern)"
  by (simp add: sample_extern_def bincode.bincode_wire_axioms)

section \<open>Runs from a fresh start\<close>

definition sample_disk :: disk where
  "sample_disk = \<lparr>files = Map.empty, created_dirs = [], io_fault = (\<lambda>_. False), io_written = (\<lambda>_. 0),
     io_seq = 0\<rparr>"

definition sample_cache :: bootstrap_cache where
  "sample_cache = \<lparr>peers = [], cache_path = [''bootstrap_cache''], add_count = 0, hard_coded_contacts = []\<rparr>"

definition sample_start :: "our_type \<Rightarrow> world" where
  "sample_start ty =
    (context_new \<lparr>cert_der = [1], key_der = [2]\<rparr> 4096 30000 10000 ty sample_cache sample_disk)
      \<lparr>listening := (ty \<noteq> OurClient)\<rparr>"

definition addr1 :: socket_addr where
  "addr1 = SocketAddrV4 2130706433 5001"

definition addr2 :: socket_addr where
  "addr2 = SocketAddrV4 2130706433 5002"

definition node1 :: node_info where
  "node1 = \<lparr>ni_peer_addr = addr1, ni_peer_cert_der = [7]\<rparr>"

definition node2 :: node_info where
  "node2 = \<lparr>ni_peer_addr = addr2, ni_peer_cert_der = [8]\<rparr>"

lemma sample_start_initial: "initial_world (sample_start ty)"
  unfolding initial_world_def sample_start_def by blast

definition runs :: "our_type \<Rightarrow> label list \<Rightarrow> bool" where
  "runs ty ls \<longleftrightarrow> \<not> Option.is_none (el_run sample_extern ls (sample_start ty))"

definition after :: "our_type \<Rightarrow> label list \<Rightarrow> world" where
  "after ty ls = the (el_run sample_extern ls (sample_start ty))"

lemma after_reachable: "runs ty ls \<Longrightarrow> reachable sample_extern (after ty ls)"
  using el_run_reachable [OF _ reachable_init [OF sample_start_initial]]
  by (auto simp: runs_def after_def Option.is_none_def)

definition sample_sockets :: sockets where
  "sample_sockets = \<lparr>udp_bind = (\<lambda>_ _. None), ep_with_socket = (\<lambda>_ _. None), ep_bind = (\<lambda>_ _. None),
     ep_local_addr = Inr addr2\<rparr>"

text \<open>A stream holding one message.\<close>

definition raw_of :: "wire_msg \<Rightarrow> bytes" where
  "raw_of m = enc_wire m"

text \<open>Sequences of steps.\<close>

definition ls_connecting :: "label list" where
  "ls_connecting = [PostConnectTo node1]"

definition ls_connected :: "label list" where
  "ls_connected = [PostConnectTo node1, AttemptConnected 0, IncomingConnection addr1]"

definition ls_stale :: "label list" where
  "ls_stale = [IncomingConnection addr1, StreamArrived 0 addr1 UniStream, PostDisconnectFrom addr1,
     PostConnectTo node1]"

definition ls_bootstrap :: "label list" where
  "ls_bootstrap = [PostProxies [node1, node2] True, PostBootstrap]"

definition ls_reconnect :: "label list" where
  "ls_reconnect = [PostConnectTo node1, PostDisconnectFrom addr1, PostConnectTo node1]"

definition ls_early_msg :: "label list" where
  "ls_early_msg = [IncomingConnection addr1, StreamArrived 0 addr1 UniStream,
     ReadFinished addr1 (Inr (raw_of (UserMsg [5])))]"

definition ls_query :: "label list" where
  "ls_query = [PostQueryEcho node1 0, AttemptConnected 0, IncomingConnection addr1]"

section \<open>Evaluating runs\<close>

lemma from_raw_raw_of:
  "wire_ok m \<Longrightarrow> length (enc_wire m) \<le> 1024 \<Longrightarrow> from_raw bincode_codec (raw_of m) = Inr m"
  by (rule bincode.from_raw_small) (simp_all add: raw_of_def bincode_codec_def prefix_to_codec_def)

lemma length_raw_of [simp]: "length (raw_of m) = length (enc_wire m)"
  by (simp add: raw_of_def)

lemmas exec_defs =
  el_exec_def qp2p_bootstrap_def qp2p_connect_to_def qp2p_disconnect_from_def qp2p_send_def
  register_and_ask_echo_def install_proxies_def finish_attempt_def handle_connect_err_def
  handle_new_connection_res_def handle_new_conn_def handle_communication_err_def
  read_peer_stream_def run_read_task_def run_write_task_def incomplete_conn_killer_fires_def
  connect_to_def new_client_cfg_def new_transport_cfg_def entry_or_insert_def make_group_ref_def
  connection_new_def initiate_connection_def set_we_contacted_peer_def remove_connection_def
  drop_connection_def drop_group_ref_opt_def drop_bootstrap_group_ref_def drop_group_rc_def
  drop_bootstrap_group_def take_group_ref_event_def terminate_group_def fold_try_send
  flush_pending_sends_def greet_peer_def cache_add_peer_def write_to_peer_connection_def
  take_and_dispatch_def dispatch_wire_msg_def handle_user_msg_def handle_echo_req_def
  handle_echo_resp_def drop_inform_tx_def write_to_peer_def write_or_queue_def
  try_write_to_peer_def read_from_peer_def handle_rx_cert_def handle_rx_handshake_def
  handle_wire_msg_def start_def proxies_of_def group_maker_new_def drop_group_maker_def
  add_member_and_get_group_ref_def effect_defs is_complete_def node_info_into_peer_def
  default_to_peer_def to_peer_default_def default_from_peer_def from_peer_default_def Let_def
  add_peer_def insert_new_def try_sync_to_disk_def move_to_cache_top_def MAX_CACHE_SIZE_def

lemmas sample_defs =
  runs_def after_def sample_start_def context_new_def sample_extern_def bincode_extern_def
  sample_disk_def sample_cache_def node1_def node2_def addr1_def addr2_def


end
