(* ===== verification/Store_Properties.thy ===== *)
theory Store_Properties
  imports Scenario
begin

text \<open>
  The properties of what the program keeps: the bootstrap cache, its file, and the
  configuration file. The serialisation is a parameter with the law
  \<open>faithful_codec\<close>; the witnesses use the codecs of \<open>Store_Format\<close>.
\<close>

section \<open>The bootstrap cache\<close>

text \<open>
  C20. \<open>add_peer\<close> implements a least-recently-used list: for a peer that is no
  hard-coded contact, the peer moves or is appended to the recent end and the
  oldest peers beyond 200 are forgotten.
\<close>

theorem add_peer_is_lru:
  assumes "distinct (peers bc)" and "length (peers bc) \<le> MAX_CACHE_SIZE"
    and "p \<notin> set (hard_coded_contacts bc)"
  shows "peers (fst (add_peer C p (bc, d))) = lru_add MAX_CACHE_SIZE p (peers bc)"
  using bcache.add_refines_lru [of "(bc, d)" p C] assms by simp

theorem add_peer_is_lru_witness:
  "peers (fst (add_peer bincode_peers node1 (sample_cache\<lparr>peers := [node1, node2]\<rparr>, sample_disk))) =
     [node2, node1]"
proof -
  have "peers (fst (add_peer bincode_peers node1 (sample_cache\<lparr>peers := [node1, node2]\<rparr>, sample_disk))) =
      lru_add MAX_CACHE_SIZE node1 [node1, node2]"
    using add_peer_is_lru [of "sample_cache\<lparr>peers := [node1, node2]\<rparr>" node1 bincode_peers sample_disk]
    by (simp add: sample_cache_def node1_def node2_def addr1_def addr2_def MAX_CACHE_SIZE_def)
  then show ?thesis
    by (simp add: lru_add_def node1_def node2_def addr1_def addr2_def MAX_CACHE_SIZE_def)
qed

text \<open>
  C21. \<open>add_peer\<close> keeps the cache well formed: no duplicates, at most 200 peers,
  no hard-coded contact among them, the contacts themselves unchanged, and the
  insertion counter, a \<open>u8\<close>, at most 9, so its increment never overflows.
\<close>

theorem add_peer_keeps_cache:
  assumes "distinct (peers bc)" and "length (peers bc) \<le> MAX_CACHE_SIZE"
    and "set (peers bc) \<inter> set (hard_coded_contacts bc) = {}" and "add_count bc \<le> 9"
    and "add_peer C p (bc, d) = (bc', d')"
  shows "distinct (peers bc') \<and> length (peers bc') \<le> MAX_CACHE_SIZE \<and>
    set (peers bc') \<inter> set (hard_coded_contacts bc') = {} \<and>
    hard_coded_contacts bc' = hard_coded_contacts bc \<and> add_count bc' \<le> 9"
proof -
  let ?st = "(bc, d)"
  have "distinct (peers bc')" using bcache.entries_distinct [of ?st C p] assms(1,5) by simp
  moreover have "length (peers bc') \<le> MAX_CACHE_SIZE"
    using bcache.entries_bounded [of ?st C p] assms(2,5) by simp
  moreover have "set (peers bc') \<inter> set (hard_coded_contacts bc') = {}"
    using bcache.pinned_stay_out [of ?st C p] assms(3,5) by simp
  moreover have "hard_coded_contacts bc' = hard_coded_contacts bc"
    using hard_coded_add_peer [of C p ?st] assms(5) by simp
  moreover have "add_count bc' \<le> 9"
    using cache_inv_add_peer [of ?st C p] assms(4,5) by (simp add: cache_inv_def)
  ultimately show ?thesis by blast
qed

theorem add_peer_keeps_cache_witness:
  "\<exists>bc' d'. add_peer bincode_peers node1 (sample_cache\<lparr>peers := [node2]\<rparr>, sample_disk) = (bc', d') \<and>
     distinct (peers bc') \<and> length (peers bc') \<le> 200 \<and> add_count bc' \<le> 9"
proof -
  let ?bc = "sample_cache\<lparr>peers := [node2]\<rparr>"
  obtain bc' d' where eq: "add_peer bincode_peers node1 (?bc, sample_disk) = (bc', d')" by fastforce
  from add_peer_keeps_cache [OF _ _ _ _ eq] have "distinct (peers bc') \<and>
      length (peers bc') \<le> MAX_CACHE_SIZE \<and> add_count bc' \<le> 9"
    by (simp add: sample_cache_def MAX_CACHE_SIZE_def)
  then show ?thesis using eq by (simp add: MAX_CACHE_SIZE_def)
qed

text \<open>
  The cache remembers the most recent peers: after adding up to 200 different
  peers in a row, none of them a hard-coded contact, the cache ends with exactly
  these peers in that order.
\<close>

theorem recent_peers_are_kept:
  assumes "distinct ps" and "set ps \<inter> set (hard_coded_contacts bc) = {}"
    and "length ps \<le> MAX_CACHE_SIZE" and "length (peers bc) \<le> MAX_CACHE_SIZE"
    and "distinct (peers bc)"
  shows "\<exists>old. peers (fst (fold (add_peer C) ps (bc, d))) = old @ ps \<and> set old \<subseteq> set (peers bc)"
  using bcache.fold_suffix [of ps "(bc, d)" C] assms by auto

theorem recent_peers_are_kept_witness:
  "\<exists>old. peers (fst (fold (add_peer bincode_peers) [node1, node2]
      (sample_cache\<lparr>peers := [node2]\<rparr>, sample_disk))) = old @ [node1, node2] \<and> set old \<subseteq> {node2}"
  using recent_peers_are_kept [of "[node1, node2]" "sample_cache\<lparr>peers := [node2]\<rparr>" bincode_peers sample_disk]
  by (simp add: sample_cache_def node1_def node2_def addr1_def addr2_def MAX_CACHE_SIZE_def)

text \<open>
  C22. The tenth insertion persists the cache: when nine peers were inserted since
  the last write, inserting a new peer writes the peers to the cache file, and a
  cache opened on that file afterwards holds the same peers, with its counter reset.
\<close>

theorem tenth_insertion_persists:
  assumes "faithful_codec C ok" and "io_reliable d" and "add_count bc = 9"
    and "p \<notin> set (peers bc)" and "p \<notin> set (hard_coded_contacts bc)"
    and "cache_path bc = path_join (cache_dir dir) ''bootstrap_cache''"
    and "add_peer C p (bc, d) = (bc', d')" and "ok (peers bc')"
  shows "\<exists>bc2. fst (bootstrap_cache_new C found hcc (Some dir) d') = Inr bc2 \<and>
    peers bc2 = peers bc' \<and> add_count bc' = 0"
proof -
  have eq: "bc' = bc\<lparr>peers := pushed p (peers bc), add_count := 0\<rparr>"
      "d' = snd (write_to_disk C (cache_path bc) (pushed p (peers bc)) d)"
    using assms(3-5,7) by (simp_all add: add_peer_def insert_new_syncs)
  note rt = faithful_codec.write_read_roundtrip [OF assms(1,2), of "pushed p (peers bc)" "cache_path bc"]
  have "path_exists (cache_path bc) d'" "fst (read_from_disk C (cache_path bc) d') = Inr (peers bc')"
    using rt assms(8) eq by (auto simp: path_exists_def)
  then show ?thesis
    using assms(6) eq(1)
    by (auto simp: bootstrap_cache_new_def Let_def split: prod.splits)
qed

theorem tenth_insertion_persists_witness:
  "\<exists>bc' d' bc2. add_peer bincode_peers node1 (sample_cache\<lparr>add_count := 9\<rparr>, sample_disk) = (bc', d') \<and>
     fst (bootstrap_cache_new bincode_peers None [] (Some (Overide [])) d') = Inr bc2 \<and>
     peers bc2 = [node1]"
proof -
  obtain bc' d' where eq: "add_peer bincode_peers node1 (sample_cache\<lparr>add_count := 9\<rparr>, sample_disk) = (bc', d')"
    by fastforce
  then have ps: "peers bc' = [node1]"
    by (auto simp: add_peer_def sample_cache_def insert_new_syncs pushed_def MAX_CACHE_SIZE_def)
  have "io_reliable sample_disk" by (simp add: io_reliable_def sample_disk_def)
  moreover have "ok_list node_ok (peers bc')"
    by (simp add: ps ok_list_def node_ok_def node1_def addr1_def)
  ultimately show ?thesis
    using tenth_insertion_persists [OF peers_file.faithful_codec_axioms _ _ _ _ _ eq,
        of "Overide []" None "[]"] ps eq
    by (fastforce simp: sample_cache_def path_join_def)
qed

section \<open>Files\<close>

text \<open>
  C23. The configuration survives: when there is no configuration file, the call
  constructs the default configuration with the generated certificate, and every
  later call for that path reads back that configuration, whatever certificate would be
  generated then and whatever calls, for this path or for others, were made in between.
  The path is the one of the given directory, or of the project directory of the platform
  when none is given, as \<open>QuicP2p::new\<close> does.
\<close>

theorem config_constructed_then_read:
  assumes "faithful_codec C ok" and "io_reliable d" and "ok (with_default_cert g)"
    and "config_path found ov = Inr p" and "\<not> path_exists p d"
    and "read_or_construct_default C found g ov d = (r, d')"
    and "d'' = fold (\<lambda>(found, g, ov) d. snd (read_or_construct_default C found g ov d)) calls d'"
    and "config_path found' ov' = Inr p"
  shows "r = Inr (with_default_cert g) \<and>
    fst (read_or_construct_default C found' g' ov' d'') = Inr (with_default_cert g)"
proof -
  obtain bs where bs: "r = Inr (with_default_cert g)" "files d' p = Some bs"
      "deserialize C bs = Inr (with_default_cert g)" "io_reliable d'"
    using read_or_construct_fresh [OF assms(1-5) assms(6) [symmetric]] by auto
  show ?thesis
    using bs(1) read_or_construct_existing [OF assms(8) config_calls_keep(1) [OF bs(2,4) assms(7)] bs(3)
        config_calls_keep(2) [OF bs(2,4) assms(7)]] by simp
qed

theorem config_constructed_then_read_witness:
  "\<exists>dirs d' d''. config_path (Some dirs) None = Inr [''home'', ''config''] \<and>
     read_or_construct_default bincode_config (Some dirs) \<lparr>cert_der = [1], key_der = [2]\<rparr> None sample_disk =
       (Inr (with_default_cert \<lparr>cert_der = [1], key_der = [2]\<rparr>), d') \<and>
     d'' = snd (read_or_construct_default bincode_config None \<lparr>cert_der = [5], key_der = [6]\<rparr> (Some (Overide [''tmp'']))
       (snd (read_or_construct_default bincode_config (Some dirs) \<lparr>cert_der = [3], key_der = [4]\<rparr> None d'))) \<and>
     fst (read_or_construct_default bincode_config (Some dirs) \<lparr>cert_der = [3], key_der = [4]\<rparr> None d'') =
       Inr (with_default_cert \<lparr>cert_der = [1], key_der = [2]\<rparr>)"
proof -
  let ?g = "\<lparr>cert_der = [1], key_der = [2]\<rparr>"
  let ?dirs = "\<lparr>pd_config_dir = [''home''], pd_cache_dir = [''cache''], pd_data_dir = [''data'']\<rparr>"
  obtain r d' where eq: "read_or_construct_default bincode_config (Some ?dirs) ?g None sample_disk = (r, d')"
    by fastforce
  have "io_reliable sample_disk" by (simp add: io_reliable_def sample_disk_def)
  moreover have "config_ok (with_default_cert ?g)"
    by (simp add: config_ok_def with_default_cert_def config_default_def ok_list_def)
  moreover have path: "config_path (Some ?dirs) None = Inr [''home'', ''config'']"
    by (simp add: config_path_def project_dir_def path_join_def)
  moreover have "\<not> path_exists [''home'', ''config''] sample_disk"
    by (simp add: path_exists_def sample_disk_def)
  ultimately show ?thesis
    using config_constructed_then_read [OF config_file.faithful_codec_axioms _ _ _ _ eq, of "[''home'', ''config'']" _
        "[(Some ?dirs, \<lparr>cert_der = [3], key_der = [4]\<rparr>, None), (None, \<lparr>cert_der = [5], key_der = [6]\<rparr>, Some (Overide [''tmp'']))]"
        "Some ?dirs" None] eq by fastforce
qed

text \<open>
  A failing flush is reported as success: \<open>write_to_disk\<close> lets the
  \<open>BufWriter\<close> flush in its destructor, which ignores errors, so the function
  returns \<open>Ok\<close> while the file holds only a part of the value.
\<close>

theorem failed_flush_reported_as_success:
  assumes "serialize C v = Inr bs" and "\<not> io_fault d (io_seq d)" and "\<not> io_fault d (Suc (io_seq d))"
    and "io_fault d (Suc (Suc (io_seq d)))" and "io_written d (Suc (Suc (io_seq d))) < length bs"
  shows "fst (write_to_disk C p v d) = Inr () \<and>
    (\<exists>part. files (snd (write_to_disk C p v d)) p = Some part \<and> length part < length bs)"
  using assms by (simp add: write_to_disk_def io_step_def Let_def)

theorem failed_flush_reported_as_success_witness:
  "fst (write_to_disk bincode_peers [''bootstrap_cache''] [node1] (sample_disk\<lparr>io_fault := (\<lambda>n. n = 2)\<rparr>)) =
     Inr ()"
  using failed_flush_reported_as_success [of bincode_peers "[node1]" "enc_list enc_node [node1]"
      "sample_disk\<lparr>io_fault := (\<lambda>n. n = 2)\<rparr>" "[''bootstrap_cache'']"]
  by (simp add: bincode_peers_def prefix_to_codec_def sample_disk_def enc_list_def)

end
