(* ===== verification/Loop_Growth.thy ===== *)
theory Loop_Growth
  imports Run_Invariant "HOL-Library.Sublist"
begin

text \<open>
  What never goes back along a run: events already sent, QUIC connections already
  closed, handles already given out, and our type. The event loop interprets
  \<open>monotone_system\<close> with that order.
\<close>

section \<open>The order\<close>

definition grows :: "world \<Rightarrow> world \<Rightarrow> bool" where
  "grows w w' \<longleftrightarrow>
    prefix (events w) (events w') \<and> prefix (closed w) (closed w') \<and> our_type w' = our_type w \<and>
    our_complete_cert w' = our_complete_cert w \<and> next_term w \<le> next_term w' \<and> next_q w \<le> next_q w' \<and> next_group w \<le> next_group w'"

lemma grows_refl [simp]: "grows w w"
  by (simp add: grows_def)

lemma grows_trans: "grows w w1 \<Longrightarrow> grows w1 w2 \<Longrightarrow> grows w w2"
  by (auto simp: grows_def)

definition grows_res :: "world \<Rightarrow> panic + world \<Rightarrow> bool" where
  "grows_res w r \<longleftrightarrow> (\<forall>w'. r = Inr w' \<longrightarrow> grows w w')"

lemma grows_res_simps [simp]:
  "grows_res w (Inr w') = grows w w'"
  "grows_res w (Inl p)"
  by (simp_all add: grows_res_def)

lemma grows_core:
  "core w' = core w \<Longrightarrow> our_complete_cert w' = our_complete_cert w \<Longrightarrow> prefix (events w) (events w') \<Longrightarrow>
    grows w w'"
  by (auto simp: grows_def core_def)

lemma cert_frame [simp]:
  "our_complete_cert (write_to_peer_connection a q m w) = our_complete_cert w"
  "our_complete_cert (cache_add_peer E ni w) = our_complete_cert w"
  "our_complete_cert (drop_inform_tx tx w) = our_complete_cert w"
  "our_complete_cert (handle_user_msg E p bs known w) = our_complete_cert w"
  "our_complete_cert (handle_echo_resp a' tx' w) = our_complete_cert w"
  "our_complete_cert (snd (make_group_ref maker b t w)) = our_complete_cert w"
  "our_complete_cert (put_conn b c w) = our_complete_cert w"
  by (simp_all add: put_conn_def write_to_peer_connection_def cache_add_peer_def drop_inform_tx_def handle_user_msg_def
      handle_echo_resp_def make_group_ref_def add_member_and_get_group_ref_def effect_defs Let_def
      split: option.split prod.split peer.split)

lemma cert_dispatch: "take_and_dispatch E p q b m w = Inr w' \<Longrightarrow> our_complete_cert w' = our_complete_cert w"
  by (auto simp: take_and_dispatch_def dispatch_wire_msg_def handle_echo_req_def split: wire_msg.splits)

lemma cert_flush [simp]: "our_complete_cert (flush_pending_sends a q ms w) = our_complete_cert w"
  unfolding flush_pending_sends_def by (induction ms arbitrary: w) simp_all

lemma cert_take: "take_group_ref_event ro ni w = (ev, w1) \<Longrightarrow> our_complete_cert w1 = our_complete_cert w"
  by (auto simp: take_group_ref_event_def world_simps split: option.splits)

section \<open>Effects and handlers\<close>

lemma grows_remove: "grows w (remove_connection a w)"
  using events_remove_connection [of a w]
  by (auto simp: grows_def closed_remove_connection world_simps)

lemma grows_connect_err: "grows w (handle_connect_err a e w)"
  by (simp add: handle_connect_err_def grows_remove split: error.splits)

lemma grows_send_event: "grows w (send_event e w)"
  by (simp add: grows_def send_event_def)

lemma grows_make_group_ref: "grows w (snd (make_group_ref maker a t w))"
  by (simp add: grows_def world_simps)

lemma grows_entry: "entry_or_insert maker a t w = (c, w1) \<Longrightarrow> grows w w1"
  by (auto simp: entry_or_insert_conv grows_def world_simps Let_def split: option.splits)

lemma grows_initiate:
  "initiate_connection E ni msg maker t c w = Inr (r, w') \<Longrightarrow> grows w w'"
  using grows_make_group_ref [of w maker "ni_peer_addr ni" t]
  by (auto simp: initiate_connection_def grows_def Let_def simp del: cert_frame
      split: if_splits option.splits prod.splits)

lemma grows_connect_to:
  assumes "connect_to E ni msg maker w = Inr (r, w')"
  shows "grows w w'"
  using assms
proof (cases rule: connect_to_cases)
  case (bad_cert e)
  then show ?thesis using grows_connect_err by auto
next
  case (entry c w1 r2 w2)
  have "grows w (w\<lparr>next_term := Suc (next_term w)\<rparr>)" by (simp add: grows_def)
  then have w1: "grows w w1" using grows_entry [OF entry(1)] by (rule grows_trans)
  have "grows w1 w2" using entry(2) grows_initiate by (auto split: if_splits)
  then show ?thesis using w1 entry(3) grows_connect_err grows_trans by metis
qed

lemma grows_write [simp]: "grows w (write_to_peer_connection a q m w)"
  by (rule grows_core) simp_all

lemma grows_try_write: "grows_res w (try_write_to_peer E p m w)"
proof (cases p)
  case (PeerClient a)
  then show ?thesis
    by (auto simp: try_write_to_peer_def write_to_peer_def
        split: option.splits to_peer.splits from_peer.splits)
next
  case (PeerNode ni)
  obtain c w1 where eq: "entry_or_insert None (ni_peer_addr ni) 0 w = (c, w1)" by fastforce
  obtain r w2 where wq: "write_or_queue ni m w = (r, w2)" by fastforce
  have "grows w1 w2"
    using wq eq
    by (auto simp: write_or_queue_def grows_def write_to_peer_connection_def Let_def
        split: to_peer.splits)
  then have w2: "grows w w2" using grows_entry [OF eq] grows_trans by blast
  show ?thesis
  proof (cases r)
    case None
    then show ?thesis using wq w2 PeerNode by (simp add: try_write_to_peer_def)
  next
    case (Some m')
    have "grows w w'" if "connect_to E ni (Some m') None w2 = Inr (x, w')" for x w'
      using grows_trans [OF w2 grows_connect_to [OF that]] .
    then show ?thesis using wq PeerNode Some
      by (auto simp: try_write_to_peer_def grows_res_def split: sum.splits)
  qed
qed

lemma grows_set_contacted: "grows w (set_we_contacted_peer a w)"
  by (simp add: set_we_contacted_peer_def grows_def split: option.splits)

lemma grows_dispatch: "grows_res w (take_and_dispatch E p q b m w)"
  using take_and_dispatch_Inr [of E p q b m w] cert_dispatch [of E p q b m w]
  by (auto simp: grows_res_def intro!: grows_core)

lemma grows_fold_p:
  assumes "\<And>x w. grows_res w (f x w)"
  shows "grows_res w (fold_p f xs w)"
proof -
  have "grows w w'" if "fold_p f xs w = Inr w'" for w'
    by (rule fold_p_invariant [where I = "grows w", OF that])
      (use assms grows_trans in \<open>auto simp: grows_res_def\<close>)
  then show ?thesis by (simp add: grows_res_def)
qed

lemma grows_take: "take_group_ref_event ro ni w = (ev, w1) \<Longrightarrow> grows w w1"
  using take_group_ref_frame [of ro ni w ev w1] cert_take [of ro ni w ev w1] by (simp add: grows_def)

lemma grows_put [simp]: "grows w (put_conn a c w)"
  by (simp add: grows_def world_simps)

lemma grows_greet:
  assumes "greet_peer E a q ni c w = Inr (r, w')"
  shows "grows w w'"
proof (cases "from_peer c")
  case FpNoConnection
  then show ?thesis using assms by (auto simp: greet_peer_def)
next
  case FpNotNeeded
  let ?w1 = "write_to_peer_connection a q (Handshake HandshakeClient) w"
  obtain ev w2 where ev: "take_group_ref_event (bootstrap_group_ref c) ni ?w1 = (ev, w2)" by fastforce
  then have "w' = send_event ev w2" using assms FpNotNeeded by (simp add: greet_peer_def)
  then show ?thesis using grows_take [OF ev] grows_write grows_send_event grows_trans by metis
next
  case (FpEstablished fq reads)
  obtain ev w1 where ev: "take_group_ref_event (bootstrap_group_ref c) ni w = (ev, w1)" by fastforce
  have "fold_p (take_and_dispatch E (PeerNode ni) q (we_contacted_peer c)) reads (send_event ev w1) =
      Inr w'"
    using assms FpEstablished ev by (auto simp: greet_peer_def split: sum.splits)
  then have "grows (send_event ev w1) w'"
    using grows_fold_p [of "take_and_dispatch E (PeerNode ni) q (we_contacted_peer c)"] grows_dispatch
    by (auto simp: grows_res_def)
  then show ?thesis using grows_take [OF ev] grows_send_event grows_trans by metis
qed

lemma grows_new_connection_res: "grows_res w (handle_new_connection_res E a res w)"
proof (cases res)
  case (Inl e)
  then show ?thesis by (simp add: handle_new_connection_res_def grows_connect_err)
next
  case (Inr q)
  let ?w0 = "w\<lparr>drivers := drivers w @ [(q, a, Outgoing)]\<rparr>"
  have w0: "grows w ?w0" by (simp add: grows_def)
  show ?thesis
  proof (cases "\<exists>c t cert sends. connections w a = Some c \<and> to_peer c = TpInitiated t cert sends")
    case False
    then show ?thesis
      using Inr by (auto simp: handle_new_connection_res_def grows_def drop_q_conn_def Let_def
          split: option.splits to_peer.splits)
  next
    case True
    then obtain c t cert sends where c: "connections w a = Some c" "to_peer c = TpInitiated t cert sends"
      by blast
    let ?ni = "\<lparr>ni_peer_addr = a, ni_peer_cert_der = cert\<rparr>"
    define w1 where "w1 = (if we_contacted_peer c then cache_add_peer E ?ni ?w0 else ?w0)"
    have w1: "grows w w1" unfolding w1_def using w0 grows_core grows_trans by simp
    have tail: "grows w2 (let w5 = try_send t (put_conn a c' (flush_pending_sends a q sends w2))
         in if acc then w5\<lparr>readers := readers w5 @ [(q, a)]\<rparr> else w5)" for w2 c' acc
      using core_fields [OF core_flush [of a q sends w2]]
      by (simp add: grows_def try_send_def world_simps Let_def)
    show ?thesis
    proof (cases "greet_peer E a q ?ni c w1")
      case Inl
      then show ?thesis using \<open>res = Inr q\<close> c
        by (simp add: handle_new_connection_res_def w1_def Let_def)
    next
      case greet: (Inr r)
      then obtain c1 acc w2 where r: "greet_peer E a q ?ni c w1 = Inr ((c1, acc), w2)"
        by (cases r) auto
      show ?thesis
        unfolding \<open>res = Inr q\<close> handle_new_connection_res_conv [OF c refl w1_def r] grows_res_simps
        using w1 grows_greet [OF r] tail grows_trans by blast
    qed
  qed
qed

lemma grows_new_conn: "grows w (handle_new_conn a q w)"
proof -
  let ?w0 = "w\<lparr>drivers := drivers w @ [(q, a, Incoming)]\<rparr>"
  obtain c w1 where eq: "entry_or_insert None a 0 ?w0 = (c, w1)" by fastforce
  have "grows w ?w0" by (simp add: grows_def)
  then have w1: "grows w w1" using grows_entry [OF eq] grows_trans by blast
  have "grows w1 (handle_new_conn a q w)"
  proof (cases "fp_is_no_connection (from_peer c) \<and> tp_is_established (to_peer c)")
    case False
    then show ?thesis using eq
      by (auto simp: handle_new_conn_def grows_def drop_q_conn_def read_from_peer_def Let_def
          split: to_peer.splits)
  next
    case True
    then obtain cert tq where tp: "to_peer c = TpEstablished cert tq" by (cases "to_peer c") auto
    obtain ev w2 where ev: "take_group_ref_event (bootstrap_group_ref c)
        \<lparr>ni_peer_addr = a, ni_peer_cert_der = cert\<rparr> w1 = (ev, w2)" by fastforce
    then have "grows w1 (send_event ev w2)" using grows_take grows_send_event grows_trans by blast
    then show ?thesis using True tp eq ev
      by (simp add: handle_new_conn_def read_from_peer_def grows_def)
  qed
  then show ?thesis using w1 grows_trans by blast
qed

lemma grows_wire_msg: "grows_res w (handle_wire_msg E a m w)"
proof (cases m)
  case (Handshake h)
  have "grows w w'" if "handle_rx_cert E a cert w = Inr w'" for cert w'
    using that grows_connect_to [of E "\<lparr>ni_peer_addr = a, ni_peer_cert_der = cert\<rparr>" None None w]
    by (auto simp: handle_rx_cert_def Let_def split: if_splits sum.splits)
  then show ?thesis
    using Handshake by (auto simp: handle_wire_msg_def handle_rx_handshake_def grows_res_def grows_def
        send_event_def split: handshake.splits option.splits to_peer.splits)
qed (auto simp: handle_wire_msg_def grows_dispatch grows_def
    split: option.splits from_peer.splits to_peer.splits)

lemma grows_start: "grows_res w (start E w)"
proof -
  let ?w1 = "snd (group_maker_new w)"
  let ?f = "\<lambda>proxy w'. case connect_to E proxy None (Some (next_group w)) w' of
      Inl p \<Rightarrow> Inl p | Inr (_, w') \<Rightarrow> Inr w'"
  have w1: "grows w ?w1" by (simp add: grows_def group_maker_new_def)
  have "grows_res ?w1 (fold_p ?f (proxies_of w) ?w1)"
    by (rule grows_fold_p) (auto simp: grows_res_def dest: grows_connect_to split: sum.splits)
  then have "grows w w2" if "fold_p ?f (proxies_of w) ?w1 = Inr w2" for w2
    using that w1 grows_trans by (auto simp: grows_res_def)
  moreover have "grows w2 (drop_group_maker g w2)" for g w2
    by (simp add: drop_group_maker_def grows_def world_simps events_drop_group_rc)
  moreover have "start E w = (case fold_p ?f (proxies_of w) ?w1 of
      Inl p \<Rightarrow> Inl p | Inr w2 \<Rightarrow> Inr (drop_group_maker (next_group w) w2))"
    by (simp add: start_def group_maker_new_def)
  ultimately show ?thesis
    using grows_trans by (cases "fold_p ?f (proxies_of w) ?w1") auto
qed

section \<open>Steps\<close>

lemma grows_frame:
  "grows w (w'\<lparr>drivers := ds\<rparr>) = grows w w'" "grows w (w'\<lparr>readers := rs\<rparr>) = grows w w'"
  "grows w (w'\<lparr>stream_reads := ss\<rparr>) = grows w w'" "grows w (w'\<lparr>writes := ws\<rparr>) = grows w w'"
  "grows w (w'\<lparr>killers := ks\<rparr>) = grows w w'" "grows w (w'\<lparr>listening := b\<rparr>) = grows w w'"
  "grows w (w'\<lparr>wire := v\<rparr>) = grows w w'" "grows w (w'\<lparr>attempts := at\<rparr>) = grows w w'"
  "grows (w\<lparr>drivers := ds\<rparr>) w' = grows w w'" "grows (w\<lparr>readers := rs\<rparr>) w' = grows w w'"
  "grows (w\<lparr>stream_reads := ss\<rparr>) w' = grows w w'" "grows (w\<lparr>writes := ws\<rparr>) w' = grows w w'"
  "grows (w\<lparr>killers := ks\<rparr>) w' = grows w w'" "grows (w\<lparr>wire := v\<rparr>) w' = grows w w'"
  by (simp_all add: grows_def)

lemma step_grows:
  assumes "el_step E w l (Inr w')"
  shows "grows w w'"
  using assms
proof cases
  case post_connect_to
  then show ?thesis
    using grows_connect_to grows_set_contacted grows_trans
    by (fastforce simp: qp2p_connect_to_def split: sum.splits)
next
  case (post_send p m)
  then show ?thesis
    using grows_try_write [of w E p "UserMsg m"] grows_set_contacted grows_trans
    by (fastforce simp: qp2p_send_def grows_res_def split: sum.splits)
next
  case (post_query_echo ni ch)
  let ?w = "drop_inform_tx (our_ext_addr_tx w) (w\<lparr>our_ext_addr_tx := Some ch\<rparr>)"
  have "grows w ?w" by (rule grows_core) simp_all
  then show ?thesis
    using post_query_echo grows_try_write [of ?w E "PeerNode ni" EndpointEchoReq] grows_trans
    by (auto simp: register_and_ask_echo_def grows_res_def)
next
  case (attempt_connected t a)
  obtain w1 where "handle_new_connection_res E a (Inr (next_q w)) (w\<lparr>next_q := Suc (next_q w)\<rparr>) = Inr w1"
      "w' = finish_attempt t w1"
    using bind_p_Inr_conv [THEN iffD1, OF attempt_connected(2) [symmetric]] by blast
  then show ?thesis
    using grows_new_connection_res [of "w\<lparr>next_q := Suc (next_q w)\<rparr>" E a "Inr (next_q w)"]
    by (auto simp: finish_attempt_def grows_def)
next
  case (incoming_connection a)
  then show ?thesis using grows_new_conn [of "w\<lparr>next_q := Suc (next_q w)\<rparr>" a "next_q w"]
    by (auto simp: grows_def)
next
  case (read_finished a out)
  then show ?thesis
    using grows_remove [of "w\<lparr>stream_reads := remove1 a (stream_reads w)\<rparr>" a]
      grows_wire_msg [of "w\<lparr>stream_reads := remove1 a (stream_reads w)\<rparr>" E a]
    by (auto simp: run_read_task_def handle_communication_err_def grows_res_def grows_frame
        split: sum.splits if_splits)
next
  case (write_finished t out)
  then show ?thesis
    using grows_remove [of "w\<lparr>writes := remove1 t (writes w)\<rparr>" "wt_peer_addr t"]
      grows_remove [of "w\<lparr>writes := remove1 t (writes w), wire := v\<rparr>" "wt_peer_addr t" for v]
    by (auto simp: run_write_task_def handle_communication_err_def grows_frame Let_def
        split: write_outcome.splits sum.splits)
next
  case (post_bootstrap)
  then show ?thesis using grows_start [of w E] by (simp add: qp2p_bootstrap_def grows_res_def)
next
  case (killer_fired a)
  then show ?thesis
    using grows_remove [of "w\<lparr>killers := remove1 a (killers w)\<rparr>" a]
    by (auto simp: incomplete_conn_killer_fires_def grows_frame split: option.splits)
qed (auto simp: qp2p_disconnect_from_def install_proxies_def finish_attempt_def
      handle_connect_err_def handle_communication_err_def handle_new_connection_res_def
      read_peer_stream_def grows_frame grows_remove grows_def [of _ "_\<lparr>bootstrap_cache := _\<rparr>"] Let_def
      intro: grows_remove [of "_\<lparr>drivers := _\<rparr>", unfolded grows_frame]
        grows_remove [of "_\<lparr>readers := _\<rparr>", unfolded grows_frame])

interpretation loop_growth: monotone_system "el_step E" grows for E
  by unfold_locales (auto intro: grows_trans step_grows)

end
