(* ===== verification/Loop_Properties.thy ===== *)
theory Loop_Properties
  imports Loop_Growth Scenario
begin

text \<open>
  The properties of whole runs of the event loop. Each follows from the invariants
  through \<open>qp2p_runs\<close>; the hypothesis \<open>bincode_wire (msg_codec E)\<close> is what
  \<open>bincode\<close> documents, and \<open>sample_extern\<close> meets it.
\<close>

lemmas reachable_inv = qp2p_runs.reachable_inv [OF qp2p_runs.intro]
lemmas reachable_panic = qp2p_runs.reachable_panic [OF qp2p_runs.intro]

lemma runs_connecting: "runs ty ls_connecting"
  by (cases ty) (simp_all add: ls_connecting_def exec_defs sample_defs)

lemma runs_connected: "runs OurNode ls_connected"
  by (simp add: ls_connected_def exec_defs sample_defs)

lemmas reachable_connecting = after_reachable [OF runs_connecting]
lemmas reachable_connected = after_reachable [OF runs_connected]

section \<open>What the user sees\<close>

text \<open>
  C1. The event stream obeys its protocol for every peer at every moment of a run:
  a peer is announced (\<open>ConnectedTo\<close> or \<open>BootstrappedTo\<close>) before any message
  of it is delivered, it is not announced twice, a \<open>ConnectionFailure\<close> is sent
  only for an announced peer and exactly once, and the peers announced and not
  failed are exactly those with a complete connection in the table.
\<close>

theorem event_protocol:
  assumes "bincode_wire (msg_codec E)" and "reachable E w"
  shows "ev_state a (events w) = Some (complete_at w a)"
  using reachable_inv [OF assms] by (simp add: inv_def events_ok_def)

theorem event_protocol_witness:
  "bincode_wire (msg_codec sample_extern) \<and> reachable sample_extern (after OurNode ls_connected) \<and>
   events (after OurNode ls_connected) = [ConnectedTo (PeerNode node1)] \<and>
   ev_state addr1 (events (after OurNode ls_connected)) =
     Some (complete_at (after OurNode ls_connected) addr1) \<and>
   complete_at (after OurNode ls_connected) addr1"
proof -
  have "events (after OurNode ls_connected) = [ConnectedTo (PeerNode node1)]"
    "complete_at (after OurNode ls_connected) addr1"
    by (simp_all add: complete_at_def ls_connected_def exec_defs sample_defs)
  then show ?thesis
    using event_protocol [OF sample_codec reachable_connected, of addr1] sample_codec reachable_connected
    by blast
qed

section \<open>Resources\<close>

text \<open>
  C8. No QUIC connection leaks and none is closed twice: every QUIC connection the
  loop ever obtained is either closed, once, or held in exactly one place of
  exactly one entry of the table, and one that is held is not closed.
\<close>

theorem quic_connections_owned_once:
  assumes "bincode_wire (msg_codec E)" and "reachable E w"
  shows "distinct (closed w) \<and>
    (\<forall>q. q < next_q w \<longleftrightarrow> q \<in> set (closed w) \<or> (\<exists>!a. q \<in> set (own_at w a))) \<and>
    (\<forall>a q. q \<in> set (own_at w a) \<longrightarrow> q \<notin> set (closed w)) \<and>
    (\<forall>a. distinct (own_at w a))"
proof -
  have "q_ok w" using reachable_inv [OF assms] by (simp add: inv_def)
  then show ?thesis unfolding q_ok_def by blast
qed

theorem quic_connections_owned_once_witness:
  "bincode_wire (msg_codec sample_extern) \<and> reachable sample_extern (after OurNode ls_connected) \<and>
   own_at (after OurNode ls_connected) addr1 = [0, 1] \<and> next_q (after OurNode ls_connected) = 2 \<and>
   closed (after OurNode ls_connected) = [] \<and>
   (\<exists>!a. 1 \<in> set (own_at (after OurNode ls_connected) a))"
proof -
  have f: "own_at (after OurNode ls_connected) addr1 = [0, 1]" "next_q (after OurNode ls_connected) = 2"
    "closed (after OurNode ls_connected) = []"
    by (simp_all add: own_at_def q_conns_def ls_connected_def exec_defs sample_defs)
  have "\<forall>q. q < next_q (after OurNode ls_connected) \<longleftrightarrow> q \<in> set (closed (after OurNode ls_connected)) \<or>
      (\<exists>!a. q \<in> set (own_at (after OurNode ls_connected) a))"
    using quic_connections_owned_once [OF sample_codec reachable_connected] by blast
  from spec [OF this, of 1] have "\<exists>!a. 1 \<in> set (own_at (after OurNode ls_connected) a)"
    unfolding f by simp
  then show ?thesis using f sample_codec reachable_connected by blast
qed

text \<open>
  C10. A connection attempt that succeeds finds the entry that started it: when the
  endpoint reports the new QUIC connection, the entry of that address still waits
  for this very attempt, neither the \<open>unreachable!\<close> nor the branch that throws
  the connection away is taken, and the connection becomes the entry's connection
  to the peer, open.
\<close>

theorem attempt_connects:
  assumes "bincode_wire (msg_codec E)" and "reachable E w"
    and "attempts w t = Some a" and "t \<notin> signalled w"
  shows "\<exists>w' c cert. el_step E w (AttemptConnected t) (Inr w') \<and> connections w' a = Some c \<and>
    to_peer c = TpEstablished cert (next_q w) \<and> next_q w \<notin> set (closed w')"
proof -
  obtain w' c cert where w': "bind_p (handle_new_connection_res E a (Inr (next_q w))
        (w\<lparr>next_q := Suc (next_q w)\<rparr>)) (\<lambda>w'. Inr (finish_attempt t w')) = Inr w'"
      "inv {} None w'" "connections w' a = Some c" "to_peer c = TpEstablished cert (next_q w)"
    using inv_attempt_succeeds [OF reachable_inv [OF assms(1,2)] assms(3,4)] by blast
  have "next_q w \<in> set (own_at w' a)" using w'(3,4) by (simp add: own_at_def q_conns_def)
  then have "next_q w \<notin> set (closed w')" using w'(2) by (auto simp: inv_def q_ok_def)
  moreover have "el_step E w (AttemptConnected t) (Inr w')"
    using el_step.attempt_connected [OF assms(3,4), of E] w'(1) by simp
  ultimately show ?thesis using w'(3,4) by blast
qed

theorem attempt_connects_witness:
  "\<exists>w' c cert. el_step sample_extern (after OurNode ls_connecting) (AttemptConnected 0) (Inr w') \<and>
     connections w' addr1 = Some c \<and> to_peer c = TpEstablished cert 0 \<and> 0 \<notin> set (closed w')"
proof -
  have "attempts (after OurNode ls_connecting) 0 = Some addr1" "0 \<notin> signalled (after OurNode ls_connecting)"
    "next_q (after OurNode ls_connecting) = 0"
    by (simp_all add: ls_connecting_def exec_defs sample_defs)
  then show ?thesis
    using attempt_connects [OF sample_codec reachable_connecting, of OurNode 0 addr1] by simp
qed

text \<open>
  C11. The only panic an event loop can end in is the \<open>unreachable!\<close> of a
  message whose sender has an entry without a connection from it, and only a node's loop
  can: a client's never panics, whatever it is asked to do and whatever its peers do.
\<close>

theorem node_panics_only_there:
  assumes "bincode_wire (msg_codec E)" and "reachable E w" and "el_step E w l (Inl p)"
  shows "p = UnreachableNoConnectionForMessage \<and> our_type w = OurNode"
  using reachable_panic [OF assms] by (simp add: loop_may_panic_def)

lemma runs_stale: "runs OurNode ls_stale"
  by (simp add: ls_stale_def exec_defs sample_defs)

lemma stale_read_panics:
  "el_step sample_extern (after OurNode ls_stale) (ReadFinished addr1 (Inr (raw_of (UserMsg [1]))))
     (Inl UnreachableNoConnectionForMessage)"
  unfolding el_step_exec
  by (simp add: ls_stale_def exec_defs sample_defs from_raw_raw_of enc_bytes_def)

theorem node_panics_only_there_witness:
  "\<exists>w l p. bincode_wire (msg_codec sample_extern) \<and> reachable sample_extern w \<and>
     el_step sample_extern w l (Inl p) \<and> p = UnreachableNoConnectionForMessage \<and> our_type w = OurNode"
  using node_panics_only_there [OF sample_codec after_reachable [OF runs_stale] stale_read_panics]
    sample_codec after_reachable [OF runs_stale] stale_read_panics by blast

text \<open>
  C12. The strong count of a bootstrap group is the number of connections that hold
  a reference to it: a group lives exactly as long as some entry of the table
  belongs to it, so it is neither leaked nor dropped early.
\<close>

theorem group_count_is_owners:
  assumes "bincode_wire (msg_codec E)" and "reachable E w"
  shows "(case groups w g of None \<Rightarrow> 0 | Some grp \<Rightarrow> group_rc grp) =
      count_keys (holds_ref g) (connections w)
    \<and> (groups w g \<noteq> None \<longleftrightarrow> (\<exists>a c. connections w a = Some c \<and> holds_ref g c))"
proof -
  have ok: "groups_ok None w" and fin: "finite (dom (connections w))"
    using reachable_inv [OF assms] by (simp_all add: inv_def table_ok_def)
  have rc: "rc_of w g = count_keys (holds_ref g) (connections w)" using groups_ok_rc [OF ok] by simp
  have "groups w g \<noteq> None \<longleftrightarrow> rc_of w g \<noteq> 0"
    using groups_ok_pos [OF ok, of g] by (auto simp: rc_of_def split: option.splits)
  then show ?thesis using rc count_keys_0 [OF fin, of "holds_ref g"] by (auto simp: rc_of_def)
qed

lemma runs_bootstrap: "runs OurClient ls_bootstrap"
  by (simp add: ls_bootstrap_def exec_defs sample_defs)

theorem group_count_is_owners_witness:
  "bincode_wire (msg_codec sample_extern) \<and> reachable sample_extern (after OurClient ls_bootstrap) \<and>
   count_keys (holds_ref 0) (connections (after OurClient ls_bootstrap)) = 2"
proof -
  have "(case groups (after OurClient ls_bootstrap) 0 of None \<Rightarrow> 0 | Some grp \<Rightarrow> group_rc grp) = 2"
    by (simp add: ls_bootstrap_def exec_defs sample_defs)
  then show ?thesis
    using group_count_is_owners [OF sample_codec after_reachable [OF runs_bootstrap], of 0]
      sample_codec after_reachable [OF runs_bootstrap] by simp
qed

text \<open>
  C13. No connection stays incomplete for ever: an entry that is not complete has a
  killer timer running, and when a timer of its address fires the entry is
  removed; a complete entry is left alone by its timers.
\<close>

theorem incomplete_connection_is_killed:
  assumes "bincode_wire (msg_codec E)" and "reachable E w" and "connections w a = Some c"
  shows "(\<not> is_complete c \<longrightarrow> a \<in> set (killers w)) \<and>
    (a \<in> set (killers w) \<longrightarrow> (\<exists>w'. el_step E w (KillerFired a) (Inr w') \<and>
       (if is_complete c then connections w' = connections w \<and> events w' = events w
        else connections w' = (connections w)(a := None))))"
proof -
  have inv: "inv {} None w" by (rule reachable_inv [OF assms(1,2)])
  then have "\<not> is_complete c \<longrightarrow> a \<in> set (killers w)"
    using assms(3) by (auto simp: inv_def killers_ok_def)
  moreover have "\<exists>w'. el_step E w (KillerFired a) (Inr w') \<and>
       (if is_complete c then connections w' = connections w \<and> events w' = events w
        else connections w' = (connections w)(a := None))" if "a \<in> set (killers w)"
    using el_step.killer_fired [OF that, of E] killer_condition [OF inv assms(3)]
    by (auto simp: world_simps intro!: exI)
  ultimately show ?thesis by blast
qed

theorem incomplete_connection_is_killed_witness:
  "\<exists>c w'. connections (after OurNode ls_connecting) addr1 = Some c \<and> \<not> is_complete c \<and>
     el_step sample_extern (after OurNode ls_connecting) (KillerFired addr1) (Inr w') \<and>
     connections w' addr1 = None"
proof -
  obtain c where c: "connections (after OurNode ls_connecting) addr1 = Some c" "\<not> is_complete c"
    by (simp add: ls_connecting_def exec_defs sample_defs)
  then show ?thesis
    using incomplete_connection_is_killed [OF sample_codec reachable_connecting c(1)]
    by (auto simp: fun_eq_iff)
qed

section \<open>The table\<close>

text \<open>
  C14. Every entry of the table is well formed: it carries its own address; a
  client's entry expects no connection from the peer and has or awaits one to it; a
  node's entry without a connection to the peer has one from it; only an entry on
  its way belongs to a bootstrap group; messages wait only while the connection to
  the peer is missing, and handshakes never wait.
\<close>

theorem table_well_formed:
  assumes "bincode_wire (msg_codec E)" and "reachable E w" and "connections w a = Some c"
  shows "conn_wf (our_type w) a c"
  using reachable_inv [OF assms(1,2)] assms(3) by (rule inv_conn_wf)

theorem table_well_formed_witness:
  "\<exists>c. connections (after OurClient ls_bootstrap) addr1 = Some c \<and> bootstrap_group_ref c \<noteq> None \<and>
     conn_wf (our_type (after OurClient ls_bootstrap)) addr1 c"
proof -
  obtain c where c: "connections (after OurClient ls_bootstrap) addr1 = Some c"
      "bootstrap_group_ref c \<noteq> None"
    by (simp add: ls_bootstrap_def exec_defs sample_defs)
  then show ?thesis
    using table_well_formed [OF sample_codec after_reachable [OF runs_bootstrap] c(1)] by blast
qed

text \<open>
  Attempts in flight and waiting entries match: an entry in state
  \<open>Initiated\<close> has its attempt in flight, and an attempt that has not been told to
  stop belongs to an entry that waits for it, so an address never has two live
  attempts.
\<close>

theorem attempts_match_entries:
  assumes "bincode_wire (msg_codec E)" and "reachable E w"
  shows "(connections w a = Some c \<and> to_peer c = TpInitiated t cert sends \<longrightarrow> attempts w t = Some a)
    \<and> (attempts w t = Some a \<and> t \<notin> signalled w \<longrightarrow>
        (\<exists>c cert sends. connections w a = Some c \<and> to_peer c = TpInitiated t cert sends))
    \<and> (attempts w t = Some a \<and> t \<notin> signalled w \<and> attempts w t' = Some a \<and> t' \<notin> signalled w \<longrightarrow>
        t = t')"
proof -
  have ok: "attempts_ok {} w" using reachable_inv [OF assms] by (simp add: inv_def)
  show ?thesis
    using attempts_ok_waiting [OF ok, of a c t cert sends] attempts_ok_live [OF ok, of t a]
      attempts_ok_live [OF ok, of t' a] by fastforce
qed

theorem attempts_match_entries_witness:
  "bincode_wire (msg_codec sample_extern) \<and> reachable sample_extern (after OurNode ls_connecting) \<and>
   attempts (after OurNode ls_connecting) 0 = Some addr1 \<and>
   (\<exists>c cert sends. connections (after OurNode ls_connecting) addr1 = Some c \<and>
      to_peer c = TpInitiated 0 cert sends)"
proof -
  have "attempts (after OurNode ls_connecting) 0 = Some addr1" "0 \<notin> signalled (after OurNode ls_connecting)"
    by (simp_all add: ls_connecting_def exec_defs sample_defs)
  then show ?thesis
    using attempts_match_entries [OF sample_codec reachable_connecting, of OurNode addr1 _ 0]
      sample_codec reachable_connecting by blast
qed

text \<open>
  Nothing is taken back: along every run, whatever its steps, events already
  sent stay sent in their order, connections already closed stay closed, the
  handles given out only increase and we stay the client or node we are.
\<close>

theorem runs_only_append:
  assumes "steps (el_step E) w ls w'"
  shows "prefix (events w) (events w') \<and> prefix (closed w) (closed w') \<and> our_type w' = our_type w \<and>
    next_term w \<le> next_term w' \<and> next_q w \<le> next_q w'"
  using loop_growth.steps_le [OF assms] by (simp add: grows_def)

theorem runs_only_append_witness:
  "\<exists>w'. steps (el_step sample_extern) (after OurNode ls_connected) [PostDisconnectFrom addr1] w' \<and>
     prefix [ConnectedTo (PeerNode node1)] (events w')"
proof -
  let ?w = "after OurNode ls_connected"
  have "steps (el_step sample_extern) ?w ([] @ [PostDisconnectFrom addr1]) (qp2p_disconnect_from addr1 ?w)"
    by (rule steps_snoc [OF steps_nil [of "el_step sample_extern" ?w]]) (rule el_step.post_disconnect_from)
  moreover have "events ?w = [ConnectedTo (PeerNode node1)]"
    by (simp add: ls_connected_def exec_defs sample_defs)
  ultimately show ?thesis using runs_only_append by fastforce
qed

section \<open>Where runs go wrong\<close>

text \<open>
  A call of \<open>connect_to\<close> of a node on an address without an entry, with a certificate and an
  attempt that \<open>quinn\<close> accepts, leaves an entry without a connection from the peer.
\<close>

lemma connect_to_fresh_entry:
  assumes "our_type w = OurNode" and "connections w (ni_peer_addr ni) = None"
    and "new_client_cfg E (ni_peer_cert_der ni) w = Inr cfg" and "connect_with E (next_term w) (ni_peer_addr ni) = None"
  shows "\<exists>w' c. el_step E w (PostConnectTo ni) (Inr w') \<and> connections w' (ni_peer_addr ni) = Some c \<and>
    from_peer c = FpNoConnection \<and> stream_reads w' = stream_reads w \<and> max_msg_size_allowed w' = max_msg_size_allowed w"
  using assms
  by (simp add: el_step_simps qp2p_connect_to_def connect_to_def entry_or_insert_def make_group_ref_def
      connection_new_def initiate_connection_def set_we_contacted_peer_def effect_defs default_to_peer_def
      to_peer_default_def default_from_peer_def from_peer_default_def Let_def)

text \<open>
  C16. The one panic of a node does happen. Whenever a node listens for streams of a peer,
  in any world of a run and whatever else it holds: if the peer opens a stream, the user
  disconnects from the peer and connects to it again (with a certificate that is accepted),
  and then the old stream's message, anything but a handshake and not too long, arrives,
  then the entry is the new one, which has no connection from the peer, and the
  \<open>unreachable!\<close> ends the event loop.
\<close>

theorem stale_stream_panics:
  assumes "our_type w = OurNode" and "(q, ni_peer_addr ni) \<in> set (readers w)"
    and "new_client_cfg E (ni_peer_cert_der ni) w = Inr cfg" and "connect_with E (next_term w) (ni_peer_addr ni) = None"
    and "length raw \<le> max_msg_size_allowed w" and "from_raw (msg_codec E) raw = Inr msg" and "\<not> is_handshake msg"
  shows "\<exists>w'. steps (el_step E) w
      [StreamArrived q (ni_peer_addr ni) UniStream, PostDisconnectFrom (ni_peer_addr ni), PostConnectTo ni] w' \<and>
    el_step E w' (ReadFinished (ni_peer_addr ni) (Inr raw)) (Inl UnreachableNoConnectionForMessage)"
proof -
  let ?a = "ni_peer_addr ni"
  let ?w1 = "w\<lparr>stream_reads := stream_reads w @ [?a]\<rparr>"
  let ?w2 = "remove_connection ?a ?w1"
  have "el_step E w (StreamArrived q ?a UniStream) (Inr ?w1)"
    using assms(2) by (simp add: el_step_simps read_peer_stream_def)
  moreover have "el_step E ?w1 (PostDisconnectFrom ?a) (Inr ?w2)"
    by (simp add: el_step_simps qp2p_disconnect_from_def)
  ultimately have s2: "steps (el_step E) w ([] @ [StreamArrived q ?a UniStream] @ [PostDisconnectFrom ?a]) ?w2"
    using steps_snoc steps_nil by (metis append_assoc)
  have "our_type ?w2 = OurNode" "connections ?w2 ?a = None" "next_term ?w2 = next_term w"
      "max_msg_size_allowed ?w2 = max_msg_size_allowed w" "?a \<in> set (stream_reads ?w2)"
    using assms(1) by (simp_all add: world_simps)
  moreover have "\<exists>cfg. new_client_cfg E (ni_peer_cert_der ni) ?w2 = Inr cfg"
    using assms(3) by (auto simp: new_client_cfg_def Let_def split: option.splits)
  ultimately obtain w' c where w': "el_step E ?w2 (PostConnectTo ni) (Inr w')" "connections w' ?a = Some c"
      "from_peer c = FpNoConnection" "?a \<in> set (stream_reads w')" "max_msg_size_allowed w' = max_msg_size_allowed w"
    using connect_to_fresh_entry [of ?w2 ni E] assms(4) by auto
  have "el_step E w' (ReadFinished ?a (Inr raw)) (Inl UnreachableNoConnectionForMessage)"
    using assms(5-7) w'(2-5) by (cases msg) (simp_all add: el_step_simps run_read_task_def handle_wire_msg_def)
  moreover have "steps (el_step E) w [StreamArrived q ?a UniStream, PostDisconnectFrom ?a, PostConnectTo ni] w'"
    using steps_snoc [OF s2 w'(1)] by simp
  ultimately show ?thesis by blast
qed

theorem stale_stream_panics_witness:
  "\<exists>w w'. reachable sample_extern w \<and>
     steps (el_step sample_extern) w [StreamArrived 0 addr1 UniStream, PostDisconnectFrom addr1, PostConnectTo node1] w' \<and>
     el_step sample_extern w' (ReadFinished addr1 (Inr (raw_of (UserMsg [1])))) (Inl UnreachableNoConnectionForMessage)"
proof -
  let ?w = "after OurNode [IncomingConnection addr1]"
  have "our_type ?w = OurNode" "(0, addr1) \<in> set (readers ?w)" "max_msg_size_allowed ?w = 4096" "next_term ?w = 0"
      and run: "runs OurNode [IncomingConnection addr1]"
    by (simp_all add: exec_defs sample_defs)
  then show ?thesis
    using stale_stream_panics [of ?w 0 node1 sample_extern _ "raw_of (UserMsg [1])" "UserMsg [1]"] after_reachable [OF run]
    by (fastforce simp: node1_def sample_extern_def bincode_extern_def new_client_cfg_def from_raw_raw_of enc_bytes_def)
qed

text \<open>
  C17. A cancelled attempt takes a newer connection with it: if the entry of an
  address was removed while its attempt \<open>t\<close> was in flight and the address has a
  new entry that waits for attempt \<open>t'\<close>, then the end of attempt \<open>t\<close> removes
  the new entry and cancels \<open>t'\<close>.
\<close>

theorem stale_cancel_drops_new_connection:
  assumes "attempts w t = Some a" and "t \<in> signalled w"
    and "connections w a = Some c" and "to_peer c = TpInitiated t' cert sends"
  shows "\<exists>w'. el_step E w (AttemptCancelled t) (Inr w') \<and> connections w' a = None \<and>
    t' \<in> signalled w'"
proof -
  let ?w' = "finish_attempt t (handle_connect_err a ConnectionCancelled w)"
  have "el_step E w (AttemptCancelled t) (Inr ?w')"
    by (rule el_step.attempt_cancelled [OF assms(1,2)])
  moreover have "connections ?w' a = None" "t' \<in> signalled ?w'"
    using remove_connection_signals [OF assms(3,4)]
    by (simp_all add: finish_attempt_def handle_connect_err_def world_simps)
  ultimately show ?thesis by blast
qed

theorem stale_cancel_drops_new_connection_witness:
  "reachable sample_extern (after OurNode ls_reconnect) \<and>
   (\<exists>w'. el_step sample_extern (after OurNode ls_reconnect) (AttemptCancelled 0) (Inr w') \<and>
      connections w' addr1 = None \<and> 1 \<in> signalled w')"
proof -
  have "runs OurNode ls_reconnect"
    by (simp add: ls_reconnect_def exec_defs sample_defs)
  moreover obtain c where "connections (after OurNode ls_reconnect) addr1 = Some c"
      "to_peer c = TpInitiated 1 [7] []"
    by (simp add: ls_reconnect_def exec_defs sample_defs)
  moreover have "attempts (after OurNode ls_reconnect) 0 = Some addr1"
      "0 \<in> signalled (after OurNode ls_reconnect)"
    by (simp_all add: ls_reconnect_def exec_defs sample_defs)
  ultimately show ?thesis
    using stale_cancel_drops_new_connection [of "after OurNode ls_reconnect" 0 addr1] after_reachable
    by blast
qed

end
