(* ===== verification/Thread_End.thy ===== *)
theory Thread_End
  imports Loop_Properties
begin

text \<open>
  The end of the event loop thread (\<open>src/event\_loop.rs\<close>): when \<open>block_on_all\<close>
  returns, the runtime drops the futures that are still spawned, and the end of the
  thread drops the thread-local context with all its connections. Whether
  \<open>block_on_all\<close> lets other futures run after the terminator is \<open>tokio\<close>'s choice:
  the world it leaves is any reachable one.
\<close>

section \<open>Dropping the runtime and the context\<close>

definition drop_runtime :: "world \<Rightarrow> world" where
  "drop_runtime w = w\<lparr>attempts := Map.empty, killers := [], drivers := [], readers := [],
     stream_reads := [], writes := [], listening := False\<rparr>"

text \<open>
  \<open>Context\<close> is dropped field by field: the connections in the order of the \<open>HashMap\<close>,
  which Rust leaves open, then the sender an echo query waits on.
\<close>

definition drop_context :: "socket_addr list \<Rightarrow> world \<Rightarrow> world" where
  "drop_context order w =
    (let w1 = fold remove_connection order w
     in drop_inform_tx (our_ext_addr_tx w1) (w1\<lparr>our_ext_addr_tx := None\<rparr>))"

definition thread_exit :: "socket_addr list \<Rightarrow> ctx_cell \<Rightarrow> ctx_cell" where
  "thread_exit order cell = map_option (\<lambda>w. drop_context order (drop_runtime w)) cell"

section \<open>What is left\<close>

lemma runtime_commutes:
  "send_event e (drop_runtime w) = drop_runtime (send_event e w)"
  "drop_to_peer tp (drop_runtime w) = drop_runtime (drop_to_peer tp w)"
  "drop_from_peer fp (drop_runtime w) = drop_runtime (drop_from_peer fp w)"
  "(drop_runtime w)\<lparr>groups := gs\<rparr> = drop_runtime (w\<lparr>groups := gs\<rparr>)"
  "(drop_runtime w)\<lparr>connections := cs\<rparr> = drop_runtime (w\<lparr>connections := cs\<rparr>)"
  by (cases tp; cases fp; simp add: drop_runtime_def effect_defs)+

lemma runtime_fields [simp]:
  "groups (drop_runtime w) = groups w" "connections (drop_runtime w) = connections w"
  "events (drop_runtime w) = events w" "closed (drop_runtime w) = closed w"
  "our_ext_addr_tx (drop_runtime w) = our_ext_addr_tx w" "echo_dropped (drop_runtime w) = echo_dropped w"
  by (simp_all add: drop_runtime_def)

lemma group_runtime: "drop_group_rc g (drop_runtime w) = drop_runtime (drop_group_rc g w)"
  by (simp add: drop_group_rc_def drop_bootstrap_group_def runtime_commutes Let_def split: option.split)

lemma group_ref_runtime:
  "drop_group_ref_opt ro (drop_runtime w) = drop_runtime (drop_group_ref_opt ro w)"
  by (simp add: drop_group_ref_opt_def drop_bootstrap_group_ref_def runtime_commutes group_runtime Let_def
      split: option.split)

lemma remove_connection_runtime: "remove_connection a (drop_runtime w) = drop_runtime (remove_connection a w)"
  by (simp add: remove_connection_def drop_connection_def runtime_commutes group_ref_runtime Let_def
      split: option.split)

lemma remove_all_runtime:
  "fold remove_connection order (drop_runtime w) = drop_runtime (fold remove_connection order w)"
  by (induction order arbitrary: w) (simp_all add: remove_connection_runtime)

lemma connections_remove_all: "connections (fold remove_connection order w) = connections w |` (- set order)"
proof (induction order arbitrary: w)
  case (Cons a order)
  have "connections (remove_connection a w) = (connections w)(a := None)"
    by (auto simp: remove_connection_def world_simps split: option.split)
  then show ?case using Cons by (simp add: restrict_map_def fun_eq_iff)
qed (simp add: restrict_map_def)

lemma remove_all_frame:
  "our_ext_addr_tx (fold remove_connection order w) = our_ext_addr_tx w"
  "next_q (fold remove_connection order w) = next_q w"
  by (induction order arbitrary: w) (simp_all add: world_simps)

lemma remove_all_inv: "inv {} None w \<Longrightarrow> inv {} None (fold remove_connection order w)"
  by (induction order arbitrary: w) (simp_all add: inv_remove_clean)

text \<open>With no connection left nothing is held any more.\<close>

lemma inv_without_connections:
  assumes "inv {} None w" and "connections w = Map.empty"
  shows "groups w = Map.empty" and "set (closed w) = {..<next_q w}" and "distinct (closed w)"
    and "ev_state a (events w) = Some False"
proof -
  have "rc_of w g = 0" for g
    using assms by (simp add: inv_def groups_ok_def count_keys_def)
  moreover have "0 < group_rc grp" if "groups w g = Some grp" for g grp
    using assms(1) that by (auto simp: inv_def groups_ok_def)
  ultimately show "groups w = Map.empty"
    by (metis (no_types, lifting) not_less_zero option.case(2) option.exhaust rc_of_def ext)
  have "own_at w b = []" for b using assms(2) by (simp add: own_at_def)
  then show "set (closed w) = {..<next_q w}" "distinct (closed w)"
    using assms(1) by (auto simp: inv_def q_ok_def)
  show "ev_state a (events w) = Some False"
    using assms by (simp add: inv_def events_ok_def complete_at_def)
qed

lemma thread_exit_releases:
  assumes "bincode_wire (msg_codec E)" and "reachable E w" and "set order = dom (connections w)"
  shows "\<exists>w'. thread_exit order (Some w) = Some w' \<and> connections w' = Map.empty \<and> groups w' = Map.empty \<and>
    set (closed w') = {..<next_q w} \<and> distinct (closed w') \<and> prefix (events w) (events w') \<and>
    (\<forall>a. ev_state a (events w') = Some False) \<and>
    (\<forall>ch. our_ext_addr_tx w = Some ch \<longrightarrow> ch \<in> set (echo_dropped w')) \<and>
    our_ext_addr_tx w' = None"
proof -
  let ?v = "fold remove_connection order w"
  let ?w' = "drop_context order (drop_runtime w)"
  have v: "inv {} None ?v" by (rule remove_all_inv [OF reachable_inv [OF assms(1,2)]])
  have "connections ?v = Map.empty"
    by (auto simp: connections_remove_all assms(3) restrict_map_def fun_eq_iff)
  note gone = this inv_without_connections [OF v this]
  have "prefix (events w) (events ?v)"
    by (induction order arbitrary: w rule: rev_induct)
      (use grows_remove in \<open>auto simp: grows_def intro: prefix_order.trans\<close>)
  then show ?thesis
    using gone
    by (auto simp: thread_exit_def drop_context_def remove_all_runtime remove_all_frame drop_inform_tx_def
        Let_def split: option.split)
qed

lemma thread_exit_empties:
  assumes "bincode_wire (msg_codec E)" and "reachable E w" and "set order = dom (connections w)"
  shows "\<exists>w'. thread_exit order (Some w) = Some w' \<and> connections w' = Map.empty \<and> groups w' = Map.empty \<and>
    set (closed w') = {..<next_q w}"
  using thread_exit_releases [OF assms] by blast

text \<open>
  C9. The end of the event loop thread releases everything, from whatever state it is
  reached: no connection and no bootstrap group is left, every QUIC connection the loop
  ever obtained has been closed, once, every peer that was announced and had not failed
  has its \<open>ConnectionFailure\<close>, and a caller that still waits for an echo answer finds
  its channel closed instead of waiting for ever.
\<close>

theorem thread_exit_releases_everything:
  assumes "bincode_wire (msg_codec E)" and "reachable E w" and "set order = dom (connections w)"
  shows "\<exists>w'. thread_exit order (Some w) = Some w' \<and> connections w' = Map.empty \<and> groups w' = Map.empty \<and>
    set (closed w') = {..<next_q w} \<and> distinct (closed w') \<and> prefix (events w) (events w') \<and>
    (\<forall>a. ev_state a (events w') = Some False) \<and>
    (\<forall>ch. our_ext_addr_tx w = Some ch \<longrightarrow> ch \<in> set (echo_dropped w')) \<and>
    our_ext_addr_tx w' = None"
  using assms by (rule thread_exit_releases)

theorem thread_exit_releases_everything_witness:
  "\<exists>w'. thread_exit [addr1] (Some (after OurNode ls_connected)) = Some w' \<and> connections w' = Map.empty \<and>
     set (closed w') = {..<2} \<and> ev_state addr1 (events w') = Some False"
proof -
  have "set [addr1] = dom (connections (after OurNode ls_connected))"
    "next_q (after OurNode ls_connected) = 2"
    by (simp_all add: ls_connected_def exec_defs sample_defs dom_def)
  then show ?thesis
    using thread_exit_releases_everything [OF sample_codec reachable_connected, of "[addr1]"] by auto
qed

end
