(* ===== verification/Handler_Properties.thy ===== *)
theory Handler_Properties
  imports Scenario
begin

text \<open>
  The properties of single handlers, in any world that meets their hypotheses: what
  is written, what the user is told, what becomes of the entry.
\<close>

section \<open>Writes and events of a new connection\<close>

definition write_of :: "socket_addr \<Rightarrow> nat \<Rightarrow> wire_msg \<Rightarrow> write_task" where
  "write_of a q m = \<lparr>wt_peer_addr = a, wt_q_conn = q, wt_msg = m\<rparr>"

definition greeting :: "connection \<Rightarrow> world \<Rightarrow> wire_msg" where
  "greeting c w =
    (if from_peer c = FpNotNeeded then Handshake HandshakeClient
     else Handshake (HandshakeNode (cert_der (our_complete_cert w))))"

definition announcement :: "connection \<Rightarrow> node_info \<Rightarrow> event" where
  "announcement c ni =
    (if bootstrap_group_ref c = None then ConnectedTo (PeerNode ni) else BootstrappedTo ni)"

lemma writes_write: "writes (write_to_peer_connection a q m w) = writes w @ [write_of a q m]"
  by (simp add: write_to_peer_connection_def write_of_def)

lemma writes_flush: "writes (flush_pending_sends a q ms w) = writes w @ map (write_of a q) ms"
  unfolding flush_pending_sends_def by (induction ms arbitrary: w) (simp_all add: writes_write)

lemma cache_add_peer_frame:
  "writes (cache_add_peer E ni w) = writes w" "our_complete_cert (cache_add_peer E ni w) = our_complete_cert w"
  by (simp_all add: cache_add_peer_def split: prod.splits)

lemma greet_peer_writes:
  assumes "from_peer c = FpNoConnection \<or> from_peer c = FpNotNeeded"
  shows "\<exists>r w'. greet_peer E a q ni c w = Inr (r, w') \<and> writes w' = writes w @ [write_of a q (greeting c w)]"
proof (cases "from_peer c = FpNotNeeded")
  case True
  obtain ev w2 where ev: "take_group_ref_event (bootstrap_group_ref c) ni
      (write_to_peer_connection a q (Handshake HandshakeClient) w) = (ev, w2)" by fastforce
  then show ?thesis
    using True take_group_ref_frame(12) [OF ev]
    by (auto simp: greet_peer_def greeting_def writes_write send_event_def)
qed (use assms in \<open>auto simp: greet_peer_def greeting_def writes_write\<close>)

lemma new_connection_writes:
  assumes c: "connections w a = Some c" "to_peer c = TpInitiated t cert sends"
    and fp: "from_peer c = FpNoConnection \<or> from_peer c = FpNotNeeded"
  shows "\<exists>w'. handle_new_connection_res E a (Inr q) w = Inr w' \<and>
    writes w' = writes w @ map (write_of a q) (greeting c w # sends)"
proof -
  let ?ni = "\<lparr>ni_peer_addr = a, ni_peer_cert_der = cert\<rparr>"
  define w0 where "w0 = w\<lparr>drivers := drivers w @ [(q, a, Outgoing)]\<rparr>"
  define w1 where "w1 = (if we_contacted_peer c then cache_add_peer E ?ni w0 else w0)"
  have w1: "writes w1 = writes w" "greeting c w1 = greeting c w"
    by (simp_all add: w1_def w0_def greeting_def cache_add_peer_frame)
  obtain r w2 where r: "greet_peer E a q ?ni c w1 = Inr (r, w2)"
      "writes w2 = writes w1 @ [write_of a q (greeting c w1)]"
    using greet_peer_writes [OF fp] by blast
  obtain c1 acc where "r = (c1, acc)" by fastforce
  with r(1) have "greet_peer E a q ?ni c w1 = Inr ((c1, acc), w2)" by simp
  from handle_new_connection_res_conv [OF c w0_def w1_def this] show ?thesis
    using r(2) w1 by (auto simp: Let_def try_send_def put_conn_def writes_flush)
qed

lemma try_write_initiated:
  assumes "connections w (ni_peer_addr ni) = Some c" and "to_peer c = TpInitiated t cert sends"
  shows "try_write_to_peer E (PeerNode ni) m w =
    Inr (put_conn (ni_peer_addr ni) (c\<lparr>to_peer := TpInitiated t cert (sends @ [m])\<rparr>) w)"
  using assms by (simp add: try_write_to_peer_def write_or_queue_def entry_or_insert_def put_conn_def)

lemma queued_sends:
  assumes "connections w (ni_peer_addr ni) = Some c" and "to_peer c = TpInitiated t cert sends"
  shows "\<exists>w1 c1. fold_p (\<lambda>m. try_write_to_peer E (PeerNode ni) m) ms w = Inr w1 \<and>
    connections w1 (ni_peer_addr ni) = Some c1 \<and> to_peer c1 = TpInitiated t cert (sends @ ms) \<and>
    from_peer c1 = from_peer c \<and> writes w1 = writes w \<and> our_complete_cert w1 = our_complete_cert w"
  using assms
proof (induction ms arbitrary: w c sends)
  case Nil
  then show ?case by simp
next
  case (Cons m ms)
  let ?c = "c\<lparr>to_peer := TpInitiated t cert (sends @ [m])\<rparr>"
  let ?w = "put_conn (ni_peer_addr ni) ?c w"
  have "connections ?w (ni_peer_addr ni) = Some ?c" by (simp add: world_simps)
  from Cons.IH [OF this, of "sends @ [m]"] show ?case
    using try_write_initiated [OF Cons.prems] by (simp add: put_conn_def)
qed

text \<open>
  C24. Messages sent while a peer is being connected to are all written, in the
  order they were sent, after the greeting, as soon as the connection is made.
\<close>

theorem queued_sends_flushed_in_order:
  assumes "connections w (ni_peer_addr ni) = Some c" and "to_peer c = TpInitiated t cert sends"
    and "from_peer c = FpNoConnection \<or> from_peer c = FpNotNeeded"
  shows "\<exists>w1 w2. fold_p (\<lambda>m. try_write_to_peer E (PeerNode ni) m) ms w = Inr w1 \<and>
    handle_new_connection_res E (ni_peer_addr ni) (Inr q) w1 = Inr w2 \<and>
    writes w2 = writes w @ map (write_of (ni_peer_addr ni) q) (greeting c w # sends @ ms)"
proof -
  obtain w1 c1 where w1: "fold_p (\<lambda>m. try_write_to_peer E (PeerNode ni) m) ms w = Inr w1"
      "connections w1 (ni_peer_addr ni) = Some c1" "to_peer c1 = TpInitiated t cert (sends @ ms)"
      "from_peer c1 = from_peer c" "writes w1 = writes w" "our_complete_cert w1 = our_complete_cert w"
    using queued_sends [OF assms(1,2)] by blast
  have "greeting c1 w1 = greeting c w" using w1 by (simp add: greeting_def)
  then show ?thesis
    using new_connection_writes [OF w1(2,3), of E q] assms(3) w1 by auto
qed

theorem queued_sends_flushed_in_order_witness:
  "\<exists>w1 w2. fold_p (\<lambda>m. try_write_to_peer sample_extern (PeerNode node1) m) [UserMsg [1], UserMsg [2]]
       (after OurNode ls_connecting) = Inr w1 \<and>
     handle_new_connection_res sample_extern addr1 (Inr 5) w1 = Inr w2 \<and>
     writes w2 = map (write_of addr1 5) [Handshake (HandshakeNode [1]), UserMsg [1], UserMsg [2]]"
proof -
  let ?w = "after OurNode ls_connecting"
  have a: "ni_peer_addr node1 = addr1" by (simp add: node1_def)
  obtain c where c: "connections ?w addr1 = Some c" "to_peer c = TpInitiated 0 [7] []"
      "from_peer c = FpNoConnection"
    by (simp add: ls_connecting_def exec_defs sample_defs)
  have "writes ?w = []" "cert_der (our_complete_cert ?w) = [1]"
    by (simp_all add: ls_connecting_def exec_defs sample_defs)
  then show ?thesis
    using queued_sends_flushed_in_order [of ?w node1 c 0 "[7]" "[]" sample_extern
        "[UserMsg [1], UserMsg [2]]" 5] c
    by (simp add: a greeting_def)
qed

text \<open>
  C25. Messages that arrived before we could connect back are delivered in order
  once we are connected, right after the event that announces the peer, and the
  entry is then complete with nothing pending.
\<close>

theorem connected_delivers_pending_reads:
  assumes "connections w a = Some c" and "to_peer c = TpInitiated t cert sends"
    and "from_peer c = FpEstablished fq reads" and "\<forall>m \<in> set reads. \<not> is_handshake m"
  shows "\<exists>w' c'. handle_new_connection_res E a (Inr q) w = Inr w' \<and>
    events w' = events w @
      announcement c \<lparr>ni_peer_addr = a, ni_peer_cert_der = cert\<rparr> # concat (map (msg_events a) reads) \<and>
    connections w' a = Some c' \<and> is_complete c' \<and> from_peer c' = FpEstablished fq [] \<and>
    to_peer c' = TpEstablished cert q \<and> bootstrap_group_ref c' = None"
proof -
  let ?ni = "\<lparr>ni_peer_addr = a, ni_peer_cert_der = cert\<rparr>"
  define w0 where "w0 = w\<lparr>drivers := drivers w @ [(q, a, Outgoing)]\<rparr>"
  define w1 where "w1 = (if we_contacted_peer c then cache_add_peer E ?ni w0 else w0)"
  obtain ev w2 where ev: "take_group_ref_event (bootstrap_group_ref c) ?ni w1 = (ev, w2)" by fastforce
  note f = take_group_ref_frame [OF ev]
  have "events w1 = events w" by (simp add: w1_def w0_def)
  then have e2: "events w2 = events w" "ev = announcement c ?ni"
    using f by (simp_all add: announcement_def)
  obtain w3 where w3: "fold_p (take_and_dispatch E (PeerNode ?ni) q (we_contacted_peer c)) reads
        (send_event ev w2) = Inr w3"
      "events w3 = events w @ ev # concat (map (msg_events a) reads)"
    using dispatch_all [OF assms(4), of E "PeerNode ?ni" q "we_contacted_peer c" "send_event ev w2"] e2
    by (auto simp: send_event_def)
  have "greet_peer E a q ?ni c w1 =
      Inr ((c\<lparr>bootstrap_group_ref := None, from_peer := FpEstablished fq []\<rparr>, False), w3)"
    using assms(3) ev w3(1) by (simp add: greet_peer_def)
  from handle_new_connection_res_conv [OF assms(1,2) w0_def w1_def this] show ?thesis
    using w3(2) e2 by (simp add: put_conn_def try_send_def is_complete_def)
qed

theorem connected_delivers_pending_reads_witness:
  "\<exists>w'. handle_new_connection_res sample_extern addr1 (Inr 9) (after OurNode
        [IncomingConnection addr1, StreamArrived 0 addr1 UniStream,
         ReadFinished addr1 (Inr (raw_of (UserMsg [5]))), PostConnectTo node1]) = Inr w' \<and>
     events w' = [ConnectedTo (PeerNode node1), NewMessage addr1 [5]]"
proof -
  let ?w = "after OurNode [IncomingConnection addr1, StreamArrived 0 addr1 UniStream,
         ReadFinished addr1 (Inr (raw_of (UserMsg [5]))), PostConnectTo node1]"
  obtain c where c: "connections ?w addr1 = Some c" "to_peer c = TpInitiated 0 [7] []"
      "from_peer c = FpEstablished 0 [UserMsg [5]]" "bootstrap_group_ref c = None" "events ?w = []"
    by (simp add: exec_defs sample_defs from_raw_raw_of enc_bytes_def)
  then show ?thesis
    using connected_delivers_pending_reads [OF c(1-3), of sample_extern 9]
    by (auto simp: announcement_def msg_events_def node1_def)
qed

section \<open>Sending\<close>

text \<open>
  A message for a client peer goes out on the connection that is there: the one
  the peer made to us when none to it is needed, the one to it when it is
  established; without either it is dropped and nothing changes. Nothing is queued
  and no connection is started.
\<close>

theorem send_to_client_peer:
  "try_write_to_peer E (PeerClient a) m w =
    Inr (case connections w a of
           None \<Rightarrow> w
         | Some c \<Rightarrow>
             (if tp_is_established (to_peer c)
              then w\<lparr>writes := writes w @ [write_of a (tp_q_conn (to_peer c)) m]\<rparr>
              else if tp_is_not_needed (to_peer c) \<and> fp_is_established (from_peer c)
              then w\<lparr>writes := writes w @ [write_of a (fp_q_conn (from_peer c)) m]\<rparr>
              else w))"
  by (auto simp: try_write_to_peer_def write_to_peer_def write_to_peer_connection_def write_of_def
      split: option.splits to_peer.splits from_peer.splits)

section \<open>Connecting\<close>

text \<open>
  A second attempt to connect to a peer is refused: while the entry has or
  awaits a connection to the peer, or needs none, \<open>connect_to\<close> reports
  \<open>DuplicateConnectionToPeer\<close> and leaves the table, the events and everything in
  flight as they are.
\<close>

theorem duplicate_connect_rejected:
  assumes "connections w (ni_peer_addr ni) = Some c" and "to_peer c \<noteq> TpNoConnection"
    and "new_client_cfg E (ni_peer_cert_der ni) w = Inr cfg"
  shows "connect_to E ni m maker w =
    Inr (Inl (DuplicateConnectionToPeer (ni_peer_addr ni)), w\<lparr>next_term := Suc (next_term w)\<rparr>)"
proof -
  have "\<not> tp_is_no_connection (to_peer c)" using assms(2) by (cases "to_peer c") simp_all
  then show ?thesis
    using assms by (simp add: connect_to_def entry_or_insert_def handle_connect_err_def)
qed

theorem duplicate_connect_rejected_witness:
  "connect_to sample_extern node1 None None (after OurNode ls_connecting) =
     Inr (Inl (DuplicateConnectionToPeer addr1),
       (after OurNode ls_connecting)\<lparr>next_term := Suc (next_term (after OurNode ls_connecting))\<rparr>)"
proof -
  have a: "ni_peer_addr node1 = addr1" by (simp add: node1_def)
  obtain c where "connections (after OurNode ls_connecting) addr1 = Some c" "to_peer c \<noteq> TpNoConnection"
    by (simp add: ls_connecting_def exec_defs sample_defs)
  moreover obtain cfg where "new_client_cfg sample_extern (ni_peer_cert_der node1)
      (after OurNode ls_connecting) = Inr cfg"
    by (simp add: new_client_cfg_def sample_extern_def bincode_extern_def)
  ultimately show ?thesis using duplicate_connect_rejected [of "after OurNode ls_connecting" node1] a by simp
qed

text \<open>
  C26. Asking to connect with a certificate that does not parse severs the
  connection that exists: the error path removes the entry of the address, so a
  complete connection is closed and the user is told it failed.
\<close>

theorem bad_certificate_severs:
  assumes "certificate_from_der E (ni_peer_cert_der ni) = Some e"
    and "connections w (ni_peer_addr ni) = Some c" and "is_complete c"
    and "conn_peer_addr c = ni_peer_addr ni"
  shows "\<exists>w'. connect_to E ni m maker w = Inr (Inl (CertificateParseError e), w') \<and>
    connections w' (ni_peer_addr ni) = None \<and> ConnectionFailure (ni_peer_addr ni) \<in> set (events w') \<and>
    set (q_conns c) \<subseteq> set (closed w')"
proof -
  let ?a = "ni_peer_addr ni"
  have "connect_to E ni m maker w = Inr (Inl (CertificateParseError e), remove_connection ?a w)"
    using assms(1) by (simp add: connect_to_def new_client_cfg_def handle_connect_err_def)
  moreover have "ConnectionFailure ?a \<in> set (events (remove_connection ?a w))"
    using events_remove_connection [of ?a w] assms(2-4) by auto
  ultimately show ?thesis using assms(2) by (auto simp: world_simps closed_remove_connection)
qed

theorem bad_certificate_severs_witness:
  "\<exists>w'. connect_to (sample_extern\<lparr>certificate_from_der := (\<lambda>_. Some ''bad'')\<rparr>) node1 None None
       (after OurNode ls_connected) = Inr (Inl (CertificateParseError ''bad''), w') \<and>
     connections w' addr1 = None \<and> ConnectionFailure addr1 \<in> set (events w')"
proof -
  let ?E = "sample_extern\<lparr>certificate_from_der := (\<lambda>_. Some ''bad'')\<rparr>"
  have a: "ni_peer_addr node1 = addr1" by (simp add: node1_def)
  obtain c where "connections (after OurNode ls_connected) addr1 = Some c" "is_complete c"
      "conn_peer_addr c = addr1"
    by (simp add: ls_connected_def exec_defs sample_defs)
  then show ?thesis
    using bad_certificate_severs [of ?E node1 "''bad''" "after OurNode ls_connected" c None None] a
    by auto
qed

text \<open>
  A first connection: for an address without an entry \<open>connect_to\<close> makes an
  entry that waits for a new attempt, with the message to send queued, starts its
  killer timer and tells the user nothing yet; if the endpoint refuses the attempt
  the entry is gone again and the error is reported.
\<close>

theorem first_connect:
  assumes "connections w (ni_peer_addr ni) = None"
    and "new_client_cfg E (ni_peer_cert_der ni) w = Inr cfg"
  defines "a \<equiv> ni_peer_addr ni" and "t \<equiv> next_term w"
  shows "\<exists>r w'. connect_to E ni m None w = Inr (r, w') \<and> events w' = events w \<and>
    a \<in> set (killers w') \<and>
    (case connect_with E t a of
       None \<Rightarrow> r = Inr () \<and> attempts w' = (attempts w)(t \<mapsto> a) \<and>
         connections w' = (connections w)(a \<mapsto>
           \<lparr>to_peer = TpInitiated t (ni_peer_cert_der ni) (case m of None \<Rightarrow> [] | Some x \<Rightarrow> [x]),
            from_peer = (if our_type w = OurClient then FpNotNeeded else FpNoConnection),
            bootstrap_group_ref = None, we_contacted_peer = False, conn_peer_addr = a\<rparr>)
     | Some e \<Rightarrow> r = Inl (Connect e) \<and> attempts w' = attempts w \<and> connections w' = connections w)"
  using assms(1,2) unfolding a_def t_def
  by (auto simp: connect_to_def entry_or_insert_def make_group_ref_def connection_new_def
      initiate_connection_def handle_connect_err_def remove_connection_def drop_connection_def
      drop_group_ref_opt_def is_complete_def default_to_peer_def to_peer_default_def default_from_peer_def from_peer_default_def effect_defs
      fun_upd_idem Let_def split: option.splits)

theorem first_connect_witness:
  "\<exists>w'. connect_to sample_extern node2 None None (after OurNode ls_connecting) = Inr (Inr (), w') \<and>
     attempts w' 1 = Some addr2 \<and> addr2 \<in> set (killers w')"
proof -
  have a: "ni_peer_addr node2 = addr2" by (simp add: node2_def)
  have f: "connections (after OurNode ls_connecting) addr2 = None"
      "next_term (after OurNode ls_connecting) = 1"
    by (simp_all add: ls_connecting_def exec_defs sample_defs)
  moreover obtain cfg where "new_client_cfg sample_extern (ni_peer_cert_der node2)
      (after OurNode ls_connecting) = Inr cfg"
    by (simp add: new_client_cfg_def sample_extern_def bincode_extern_def)
  moreover have "connect_with sample_extern 1 addr2 = None"
    by (simp add: sample_extern_def bincode_extern_def)
  ultimately show ?thesis
    using first_connect [of "after OurNode ls_connecting" node2 sample_extern cfg None] a by auto
qed

end
