(* ===== verification/Message_Properties.thy ===== *)
theory Message_Properties
  imports Scenario
begin

text \<open>
  The properties of handlers that react to peers: incoming connections and streams,
  the echo service, and bootstrapping.
\<close>

section \<open>Incoming connections and streams\<close>

text \<open>
  A peer has at most one connection to us: a second one is closed at once, its
  driver apart nothing changes, and its streams are never read.
\<close>

theorem duplicate_incoming_closed:
  assumes "connections w a = Some c" and "from_peer c \<noteq> FpNoConnection"
  shows "handle_new_conn a q w =
    w\<lparr>drivers := drivers w @ [(q, a, Incoming)], closed := closed w @ [q]\<rparr>"
proof -
  have "\<not> fp_is_no_connection (from_peer c)" using assms(2) by (cases "from_peer c") simp_all
  then show ?thesis
    using assms(1) by (simp add: handle_new_conn_def entry_or_insert_def drop_q_conn_def)
qed

theorem duplicate_incoming_closed_witness:
  "closed (handle_new_conn addr1 7 (after OurNode ls_connected)) = [7]"
proof -
  obtain c where "connections (after OurNode ls_connected) addr1 = Some c" "from_peer c \<noteq> FpNoConnection"
      "closed (after OurNode ls_connected) = []"
    by (simp add: ls_connected_def exec_defs sample_defs)
  then show ?thesis using duplicate_incoming_closed [of "after OurNode ls_connected" addr1 c 7] by simp
qed

text \<open>
  C27. A stream that breaks the rules costs the peer its connection: a bidirectional
  stream, a stream that fails, one longer than the size we allow and one that does
  not decode each remove the peer's entry and close its QUIC connections, and none
  of them delivers a message or panics.
\<close>

theorem bad_stream_drops_peer:
  assumes "connections w a = Some c" and "conn_peer_addr c = a"
    and "(\<exists>e. out = Inl e) \<or>
      (\<exists>raw. out = Inr raw \<and>
        (max_msg_size_allowed w < length raw \<or> (\<exists>e. from_raw (msg_codec E) raw = Inl e)))"
  shows "run_read_task E a out w = Inr (remove_connection a w) \<and>
    snd (read_peer_stream a BiStream w) = remove_connection a w \<and>
    connections (remove_connection a w) a = None \<and>
    set (q_conns c) \<subseteq> set (closed (remove_connection a w)) \<and>
    (\<exists>es. set es \<subseteq> {ConnectionFailure a, BootstrapFailure} \<and>
      events (remove_connection a w) = events w @ es)"
proof -
  have "run_read_task E a out w = Inr (remove_connection a w)"
    using assms(3) by (auto simp: run_read_task_def handle_communication_err_def)
  moreover have "snd (read_peer_stream a BiStream w) = remove_connection a w"
    by (simp add: read_peer_stream_def handle_communication_err_def)
  moreover obtain es where "set es \<subseteq> {BootstrapFailure}" "events (remove_connection a w) = events w @
      (if is_complete c then [ConnectionFailure a] else []) @ es"
    using events_remove_connection [of a w] assms(1,2) by auto
  then have "\<exists>es. set es \<subseteq> {ConnectionFailure a, BootstrapFailure} \<and>
      events (remove_connection a w) = events w @ es"
    by (intro exI [of _ "(if is_complete c then [ConnectionFailure a] else []) @ es"]) auto
  ultimately show ?thesis
    using assms(1) by (simp add: world_simps closed_remove_connection)
qed

theorem bad_stream_drops_peer_witness:
  "run_read_task sample_extern addr1 (Inr (replicate 5000 0)) (after OurNode ls_connected) =
     Inr (remove_connection addr1 (after OurNode ls_connected)) \<and>
   connections (remove_connection addr1 (after OurNode ls_connected)) addr1 = None"
proof -
  let ?w = "after OurNode ls_connected"
  obtain c where c: "connections ?w addr1 = Some c" "conn_peer_addr c = addr1"
      and sz: "max_msg_size_allowed ?w = 4096"
    by (simp add: ls_connected_def exec_defs sample_defs)
  have "(\<exists>e. Inr (replicate 5000 0) = Inl e) \<or> (\<exists>raw. Inr (replicate 5000 0) = Inr raw \<and>
      (max_msg_size_allowed ?w < length raw \<or> (\<exists>e. from_raw (msg_codec sample_extern) raw = Inl e)))"
    by (simp add: sz)
  from bad_stream_drops_peer [OF c this] show ?thesis by simp
qed

text \<open>
  C28. Messages that arrive before a client's handshake are never delivered: the
  handshake completes the connection and announces the client but leaves the
  waiting messages in the entry, and a message that arrives later is delivered while
  they stay where they are.
\<close>

theorem client_handshake_strands_reads:
  assumes "connections w a = Some c" and "to_peer c = TpNoConnection"
    and "from_peer c = FpEstablished q reads"
  shows "\<exists>w1 w2 c2. handle_rx_handshake E a HandshakeClient w = Inr w1 \<and>
    events w1 = events w @ [ConnectedTo (PeerClient a)] \<and>
    handle_wire_msg E a (UserMsg m) w1 = Inr w2 \<and>
    events w2 = events w @ [ConnectedTo (PeerClient a), NewMessage a m] \<and>
    connections w2 a = Some c2 \<and> is_complete c2 \<and> from_peer c2 = FpEstablished q reads"
proof -
  let ?w1 = "send_event (ConnectedTo (PeerClient a))
      (w\<lparr>connections := (connections w)(a \<mapsto> c\<lparr>to_peer := TpNotNeeded\<rparr>)\<rparr>)"
  have "handle_rx_handshake E a HandshakeClient w = Inr ?w1"
    using assms by (simp add: handle_rx_handshake_def)
  moreover obtain w2 where "take_and_dispatch E (PeerClient a) q (we_contacted_peer c) (UserMsg m) ?w1 = Inr w2"
      "core w2 = core ?w1" "events w2 = events ?w1 @ [NewMessage a m]"
    using take_and_dispatch_total [of "UserMsg m" E "PeerClient a" q "we_contacted_peer c" ?w1]
    by (auto simp: msg_events_def)
  moreover from this have "handle_wire_msg E a (UserMsg m) ?w1 = Inr w2"
    using assms by (simp add: handle_wire_msg_def send_event_def)
  moreover have "connections w2 a = Some (c\<lparr>to_peer := TpNotNeeded\<rparr>)"
    using core_fields(1) [OF \<open>core w2 = core ?w1\<close>] by (simp add: send_event_def)
  ultimately show ?thesis
    using assms(3) by (auto simp: send_event_def is_complete_def)
qed

theorem client_handshake_strands_reads_witness:
  "\<exists>w1 w2. handle_rx_handshake sample_extern addr1 HandshakeClient (after OurNode ls_early_msg) = Inr w1 \<and>
     handle_wire_msg sample_extern addr1 (UserMsg [6]) w1 = Inr w2 \<and>
     events w2 = [ConnectedTo (PeerClient addr1), NewMessage addr1 [6]]"
proof -
  obtain c where "connections (after OurNode ls_early_msg) addr1 = Some c" "to_peer c = TpNoConnection"
      "from_peer c = FpEstablished 0 [UserMsg [5]]" "events (after OurNode ls_early_msg) = []"
    by (simp add: ls_early_msg_def exec_defs sample_defs from_raw_raw_of enc_bytes_def)
  then show ?thesis
    using client_handshake_strands_reads [of "after OurNode ls_early_msg" addr1 c 0 "[UserMsg [5]]"
        sample_extern "[6]"] by auto
qed

section \<open>The echo service\<close>

text \<open>An entry over which messages are dispatched.\<close>

definition dispatches :: "connection \<Rightarrow> bool" where
  "dispatches c \<longleftrightarrow> is_complete c \<and> (tp_is_established (to_peer c) \<or> fp_is_established (from_peer c))"

lemma handle_wire_msg_dispatches:
  assumes "connections w a = Some c" and "dispatches c" and "\<not> is_handshake m"
  shows "\<exists>p q. peer_addr p = a \<and>
    handle_wire_msg E a m w = take_and_dispatch E p q (we_contacted_peer c) m w"
proof (cases "to_peer c")
  case (TpEstablished cert q)
  then have "handle_wire_msg E a m w = take_and_dispatch E
      (PeerNode \<lparr>ni_peer_addr = a, ni_peer_cert_der = cert\<rparr>) q (we_contacted_peer c) m w"
    using assms by (cases m; cases "from_peer c")
      (auto simp: handle_wire_msg_def dispatches_def is_complete_def node_info_into_peer_def)
  then show ?thesis by (intro exI conjI) (auto)
next
  case TpNotNeeded
  then obtain q reads where "from_peer c = FpEstablished q reads"
    using assms(2) by (cases "from_peer c") (auto simp: dispatches_def)
  then have "handle_wire_msg E a m w = take_and_dispatch E (PeerClient a) q (we_contacted_peer c) m w"
    using assms TpNotNeeded by (cases m) (auto simp: handle_wire_msg_def)
  then show ?thesis by (intro exI conjI) (auto)
qed (use assms(2) in \<open>simp_all add: dispatches_def is_complete_def\<close>)

text \<open>
  The answer of the echo service reaches the caller: while a reply sender is
  registered, an \<open>EndpointEchoResp\<close> from a connected peer makes the waiting
  \<open>recv\<close> return the address in it, and \<open>query_ip_echo_service\<close> returns that
  address.
\<close>

theorem echo_answer_reaches_caller:
  assumes "connections w a = Some c" and "dispatches c" and "our_ext_addr_tx w = Some ch"
    and "\<forall>x \<in> set (echo_sent w). fst x \<noteq> ch" and "cfg_hard_coded_contacts (qp_cfg self) \<noteq> []"
  shows "\<exists>w' self'. handle_wire_msg E a (EndpointEchoResp addr) w = Inr w' \<and>
    echo_recv ch w' = Some (Inr addr) \<and>
    query_ip_echo_service E ch (Inr addr) self = Inr (Inr addr, self')"
proof -
  obtain p q where "handle_wire_msg E a (EndpointEchoResp addr) w =
      take_and_dispatch E p q (we_contacted_peer c) (EndpointEchoResp addr) w"
    using handle_wire_msg_dispatches [OF assms(1,2), of "EndpointEchoResp addr" E] by auto
  moreover have "filter (\<lambda>x. fst x = ch) (echo_sent w) = []" using assms(4) by (simp add: filter_empty_conv)
  ultimately show ?thesis
    using assms(3,5)
    by (auto simp: take_and_dispatch_def dispatch_wire_msg_def handle_echo_resp_def drop_inform_tx_def
        echo_recv_def query_ip_echo_service_def split: list.splits)
qed

lemma sample_query:
  "\<exists>c. connections (after OurNode ls_query) addr1 = Some c \<and> dispatches c \<and>
     our_ext_addr_tx (after OurNode ls_query) = Some 0 \<and> echo_sent (after OurNode ls_query) = []"
  by (simp add: ls_query_def exec_defs sample_defs dispatches_def)

theorem echo_answer_reaches_caller_witness:
  "\<exists>w'. handle_wire_msg sample_extern addr1 (EndpointEchoResp addr2) (after OurNode ls_query) = Inr w' \<and>
     echo_recv 0 w' = Some (Inr addr2)"
proof -
  obtain c where "connections (after OurNode ls_query) addr1 = Some c" "dispatches c"
      "our_ext_addr_tx (after OurNode ls_query) = Some 0" "echo_sent (after OurNode ls_query) = []"
    using sample_query by blast
  then show ?thesis
    using echo_answer_reaches_caller [of "after OurNode ls_query" addr1 c 0
        "quic_p2p_with_config (config_default\<lparr>cfg_hard_coded_contacts := [node1]\<rparr>)" sample_extern addr2]
    by (auto simp: quic_p2p_with_config_def)
qed

lemma dispatch_drops_sender:
  assumes "our_ext_addr_tx w = Some ch" and "m = UserMsg bs \<or> m = EndpointEchoReq"
  shows "\<exists>w'. take_and_dispatch E p q b m w = Inr w' \<and> our_ext_addr_tx w' = None \<and>
    echo_sent w' = echo_sent w \<and> echo_dropped w' = echo_dropped w @ [ch]"
proof -
  have user: "our_ext_addr_tx (handle_user_msg E p x b w0) = our_ext_addr_tx w0"
      "echo_sent (handle_user_msg E p x b w0) = echo_sent w0"
      "echo_dropped (handle_user_msg E p x b w0) = echo_dropped w0" for x w0
    by (simp_all add: handle_user_msg_def cache_add_peer_def send_event_def Let_def
        split: peer.splits prod.splits)
  from assms show ?thesis
    by (auto simp: take_and_dispatch_def dispatch_wire_msg_def drop_inform_tx_def user
        handle_echo_req_def write_to_peer_connection_def)
qed

text \<open>
  C29. Any other message destroys a pending echo query: dispatching a user message or
  an echo request takes the registered reply sender and drops it, so the waiting
  \<open>recv\<close> fails and the \<open>unwrap!\<close> in \<open>query_ip_echo_service\<close> panics in the
  caller's thread.
\<close>

theorem other_message_kills_echo_query:
  assumes "connections w a = Some c" and "dispatches c" and "our_ext_addr_tx w = Some ch"
    and "\<forall>x \<in> set (echo_sent w). fst x \<noteq> ch" and "m = UserMsg bs \<or> m = EndpointEchoReq"
    and "cfg_hard_coded_contacts (qp_cfg self) \<noteq> []"
  shows "\<exists>w'. handle_wire_msg E a m w = Inr w' \<and> our_ext_addr_tx w' = None \<and>
    echo_recv ch w' = Some (Inl ()) \<and>
    query_ip_echo_service E ch (Inl ()) self = Inl UnwrapOnError"
proof -
  have "\<not> is_handshake m" using assms(5) by auto
  then obtain p q where "handle_wire_msg E a m w = take_and_dispatch E p q (we_contacted_peer c) m w"
    using handle_wire_msg_dispatches [OF assms(1,2)] by blast
  then obtain w' where w': "handle_wire_msg E a m w = Inr w'" "our_ext_addr_tx w' = None"
      "echo_sent w' = echo_sent w" "echo_dropped w' = echo_dropped w @ [ch]"
    using dispatch_drops_sender [OF assms(3,5)] by metis
  have "filter (\<lambda>x. fst x = ch) (echo_sent w) = []" using assms(4) by (simp add: filter_empty_conv)
  then have "echo_recv ch w' = Some (Inl ())" using w' by (simp add: echo_recv_def)
  moreover have "query_ip_echo_service E ch (Inl ()) self = Inl UnwrapOnError"
    using assms(6) by (simp add: query_ip_echo_service_def split: list.splits)
  ultimately show ?thesis using w' by blast
qed

theorem other_message_kills_echo_query_witness:
  "\<exists>w'. handle_wire_msg sample_extern addr1 (UserMsg [1]) (after OurNode ls_query) = Inr w' \<and>
     echo_recv 0 w' = Some (Inl ())"
proof -
  obtain c where "connections (after OurNode ls_query) addr1 = Some c" "dispatches c"
      "our_ext_addr_tx (after OurNode ls_query) = Some 0" "echo_sent (after OurNode ls_query) = []"
    using sample_query by blast
  then show ?thesis
    using other_message_kills_echo_query [of "after OurNode ls_query" addr1 c 0 "UserMsg [1]" "[1]"
        "quic_p2p_with_config (config_default\<lparr>cfg_hard_coded_contacts := [node1]\<rparr>)" sample_extern]
    by (auto simp: quic_p2p_with_config_def)
qed

section \<open>Bootstrapping\<close>

text \<open>
  Bootstrapping without anyone to ask fails at once: with no cached peer and no
  hard-coded contact the user gets one \<open>BootstrapFailure\<close>, no connection is
  started, and the group is gone.
\<close>

theorem bootstrap_without_proxies_fails:
  assumes "peers (bootstrap_cache w) = []" and "hard_coded_contacts (bootstrap_cache w) = []"
    and "groups w (next_group w) = None"
  shows "\<exists>w'. start E w = Inr w' \<and> events w' = events w @ [BootstrapFailure] \<and>
    connections w' = connections w \<and> attempts w' = attempts w \<and> groups w' = groups w"
  using assms
  by (auto simp: start_def proxies_of_def group_maker_new_def drop_group_maker_def drop_group_rc_def
      drop_bootstrap_group_def send_event_def Let_def)

theorem bootstrap_without_proxies_fails_witness:
  "\<exists>w'. start sample_extern (sample_start OurClient) = Inr w' \<and> events w' = [BootstrapFailure]"
  using bootstrap_without_proxies_fails [of "sample_start OurClient" sample_extern]
  by (auto simp: sample_start_def context_new_def sample_cache_def)

text \<open>
  C30. The first success ends the bootstrap: the group is marked successful, every
  other attempt of the group is told to stop, and neither this nor the later drop of
  the remaining references sends a \<open>BootstrapFailure\<close>.
\<close>

theorem bootstrap_success_stops_others:
  assumes "groups w (gr_group r) = Some grp"
    and "take_group_ref_event (Some r) ni w = (ev, w')"
  shows "ev = BootstrappedTo ni \<and> snd ` set (terminators grp) \<subseteq> signalled w' \<and>
    events w' = events w \<and>
    (\<forall>grp'. groups w' (gr_group r) = Some grp' \<longrightarrow>
      is_bootstrap_successful_yet grp' \<and>
      (\<forall>r'. gr_group r' = gr_group r \<longrightarrow> events (drop_bootstrap_group_ref r' w') = events w))"
proof -
  let ?w = "terminate_group True (gr_group r) w"
  have w': "w' = drop_bootstrap_group_ref r ?w" and ev: "ev = BootstrappedTo ni"
    using assms(2) by (auto simp: take_group_ref_event_def)
  have sig: "snd ` set (terminators grp) \<subseteq> signalled w'"
    using assms(1) by (auto simp: w' world_simps terminate_group_def fold_try_send)
  have evs: "events w' = events w" using take_group_ref_frame(11) [OF assms(2)] .
  have "is_bootstrap_successful_yet grp'" if "groups w' (gr_group r) = Some grp'" for grp'
    using that assms(1)
    by (auto simp: w' terminate_group_def fold_try_send drop_bootstrap_group_ref_def drop_group_rc_def
        drop_bootstrap_group_def send_event_def Let_def split: if_splits)
  then show ?thesis using ev sig evs by (auto simp: events_drop_group_ref)
qed

theorem bootstrap_success_stops_others_witness:
  "\<exists>w'. take_group_ref_event (Some \<lparr>gr_peer_addr = addr1, gr_group = 0\<rparr>) node1
       (after OurClient ls_bootstrap) = (BootstrappedTo node1, w') \<and> 0 \<in> signalled w' \<and> 1 \<in> signalled w'"
proof -
  let ?r = "\<lparr>gr_peer_addr = addr1, gr_group = 0\<rparr>"
  obtain grp where grp: "groups (after OurClient ls_bootstrap) 0 = Some grp"
      "set (terminators grp) = {(addr1, 1), (addr2, 0)}"
    by (auto simp: ls_bootstrap_def exec_defs sample_defs)
  obtain ev w' where ev: "take_group_ref_event (Some ?r) node1 (after OurClient ls_bootstrap) = (ev, w')"
    by fastforce
  have "groups (after OurClient ls_bootstrap) (gr_group ?r) = Some grp" using grp by simp
  from bootstrap_success_stops_others [OF this ev] show ?thesis using grp(2) ev by auto
qed

section \<open>Whom the cache remembers\<close>

lemma cache_frames:
  "bootstrap_cache (write_to_peer_connection a q m w) = bootstrap_cache w"
  "bootstrap_cache (send_event ev w) = bootstrap_cache w"
  "bootstrap_cache (drop_inform_tx tx w) = bootstrap_cache w"
  "bootstrap_cache (handle_echo_resp a tx w) = bootstrap_cache w"
  "bootstrap_cache (flush_pending_sends a q ms w) = bootstrap_cache w"
  "bootstrap_cache (snd (take_group_ref_event ro ni w)) = bootstrap_cache w"
proof -
  show "bootstrap_cache (flush_pending_sends a q ms w) = bootstrap_cache w"
    unfolding flush_pending_sends_def
    by (induction ms arbitrary: w) (simp_all add: write_to_peer_connection_def)
qed (simp_all add: write_to_peer_connection_def send_event_def drop_inform_tx_def handle_echo_resp_def
      take_group_ref_event_def world_simps split: option.splits)

lemma dispatch_uncontacted_cache:
  "take_and_dispatch E p q False m w = Inr w' \<Longrightarrow> bootstrap_cache w' = bootstrap_cache w"
  by (cases m)
    (auto simp: take_and_dispatch_def dispatch_wire_msg_def handle_user_msg_def handle_echo_req_def
      cache_frames Let_def split: peer.splits)

lemma greet_uncontacted_cache:
  assumes "greet_peer E a q ni c w = Inr (r, w')" and "\<not> we_contacted_peer c"
  shows "bootstrap_cache w' = bootstrap_cache w"
proof (cases "from_peer c")
  case (FpEstablished fq reads)
  obtain ev w1 where ev: "take_group_ref_event (bootstrap_group_ref c) ni w = (ev, w1)" by fastforce
  then have "fold_p (take_and_dispatch E (PeerNode ni) q False) reads (send_event ev w1) = Inr w'"
    using assms FpEstablished by (auto simp: greet_peer_def split: sum.splits)
  then have "bootstrap_cache w' = bootstrap_cache (send_event ev w1)"
    by (rule fold_p_invariant [where I = "\<lambda>w2. bootstrap_cache w2 = bootstrap_cache (send_event ev w1)"])
      (auto dest: dispatch_uncontacted_cache)
  then show ?thesis using cache_frames(6) [of "bootstrap_group_ref c" ni w] ev by (simp add: cache_frames)
next
  case FpNotNeeded
  obtain ev w1 where ev: "take_group_ref_event (bootstrap_group_ref c) ni
      (write_to_peer_connection a q (Handshake HandshakeClient) w) = (ev, w1)" by fastforce
  then show ?thesis
    using assms FpNotNeeded cache_frames(6) [of "bootstrap_group_ref c" ni
        "write_to_peer_connection a q (Handshake HandshakeClient) w"]
    by (auto simp: greet_peer_def cache_frames)
qed (use assms in \<open>auto simp: greet_peer_def cache_frames\<close>)

text \<open>
  Only peers we contacted enter the bootstrap cache: for an entry the user did
  not ask for, neither completing our connection to the peer nor delivering its
  messages touches the cache, whatever messages were waiting.
\<close>

theorem uncontacted_peer_not_cached:
  assumes "connections w a = Some c" and "\<not> we_contacted_peer c"
  shows "(handle_new_connection_res E a (Inr q) w = Inr w' \<longrightarrow> bootstrap_cache w' = bootstrap_cache w)
    \<and> (\<not> is_handshake m \<and> handle_wire_msg E a m w = Inr w' \<longrightarrow> bootstrap_cache w' = bootstrap_cache w)"
proof (intro conjI impI)
  assume eq: "handle_new_connection_res E a (Inr q) w = Inr w'"
  then obtain t cert sends where tp: "to_peer c = TpInitiated t cert sends"
    using assms(1) by (cases "to_peer c") (auto simp: handle_new_connection_res_def)
  let ?ni = "\<lparr>ni_peer_addr = a, ni_peer_cert_der = cert\<rparr>"
  let ?w0 = "w\<lparr>drivers := drivers w @ [(q, a, Outgoing)]\<rparr>"
  have w1: "?w0 = (if we_contacted_peer c then cache_add_peer E ?ni ?w0 else ?w0)" using assms(2) by simp
  obtain c1 acc w2 where gr: "greet_peer E a q ?ni c ?w0 = Inr ((c1, acc), w2)"
    using eq assms tp by (auto simp: handle_new_connection_res_def Let_def split: sum.splits)
  have "bootstrap_cache w2 = bootstrap_cache w" using greet_uncontacted_cache [OF gr assms(2)] by simp
  then show "bootstrap_cache w' = bootstrap_cache w"
    using handle_new_connection_res_conv [OF assms(1) tp refl w1 gr] eq
    by (auto simp: put_conn_def try_send_def cache_frames Let_def split: if_splits)
next
  assume m: "\<not> is_handshake m \<and> handle_wire_msg E a m w = Inr w'"
  then have "\<exists>p q. take_and_dispatch E p q False m w = Inr w' \<or> bootstrap_cache w' = bootstrap_cache w"
    using assms by (cases m)
      (auto simp: handle_wire_msg_def split: from_peer.splits to_peer.splits)
  then show "bootstrap_cache w' = bootstrap_cache w" using dispatch_uncontacted_cache by blast
qed

theorem uncontacted_peer_not_cached_witness:
  "\<exists>w'. handle_wire_msg sample_extern addr1 (UserMsg [1]) (after OurNode ls_early_msg) = Inr w' \<and>
     bootstrap_cache w' = bootstrap_cache (after OurNode ls_early_msg)"
proof -
  obtain c where c: "connections (after OurNode ls_early_msg) addr1 = Some c" "\<not> we_contacted_peer c"
      "from_peer c = FpEstablished 0 [UserMsg [5]]" "to_peer c = TpNoConnection"
    by (simp add: ls_early_msg_def exec_defs sample_defs from_raw_raw_of enc_bytes_def)
  then obtain w' where "handle_wire_msg sample_extern addr1 (UserMsg [1]) (after OurNode ls_early_msg) = Inr w'"
    by (simp add: handle_wire_msg_def)
  then show ?thesis
    using uncontacted_peer_not_cached [OF c(1,2), of sample_extern 0 w' "UserMsg [1]"] by auto
qed

end
