(* ===== verification/Formatting.thy ===== *)
theory Formatting
  imports Quic_P2p
begin

text \<open>
  How values are shown in logs: \<open>bin_data_format\<close> of \<open>src/utils.rs\<close> and the
  hand-written \<open>Display\<close> and \<open>Debug\<close> instances. Some of them have a default
  branch \<open>ref blah => write!(f, "{}", blah)\<close> that calls itself on the same
  value; they are partial functions, and \<open>None\<close> is the call that never returns.
  How the standard library shows a \<open>SocketAddr\<close> is the argument \<open>show_addr\<close>.
\<close>

section \<open>Numbers and bytes\<close>

definition digit :: "nat \<Rightarrow> char" where
  "digit n = (if n < 10 then char_of (48 + n) else char_of (87 + n))"

text \<open>\<open>{:02x}\<close> of a byte\<close>

definition fmt_02x :: "byte \<Rightarrow> string" where
  "fmt_02x b = [digit (unat b div 16), digit (unat b mod 16)]"

fun fmt_nat :: "nat \<Rightarrow> string" where
  "fmt_nat n = (if n < 10 then [digit n] else fmt_nat (n div 10) @ [digit (n mod 10)])"

declare fmt_nat.simps [simp del]

text \<open>\<open>{:?}\<close> of a byte slice\<close>

fun fmt_elems :: "bytes \<Rightarrow> string" where
  "fmt_elems [] = ''''"
| "fmt_elems [b] = fmt_nat (unat b)"
| "fmt_elems (b # bs) = fmt_nat (unat b) @ '', '' @ fmt_elems bs"

definition fmt_debug_bytes :: "bytes \<Rightarrow> string" where
  "fmt_debug_bytes bs = ''['' @ fmt_elems bs @ '']''"

definition bin_data_format :: "bytes \<Rightarrow> string" where
  "bin_data_format data =
    (let len = length data
     in if len < 8 then ''[ '' @ fmt_debug_bytes data @ '' ]''
        else ''[ '' @ fmt_02x (data ! 0) @ '' '' @ fmt_02x (data ! 1) @ '' '' @ fmt_02x (data ! 2)
          @ '' '' @ fmt_02x (data ! 3) @ ''..'' @ fmt_02x (data ! (len - 4)) @ '' ''
          @ fmt_02x (data ! (len - 3)) @ '' '' @ fmt_02x (data ! (len - 2)) @ '' ''
          @ fmt_02x (data ! (len - 1)) @ '' ]'')"

section \<open>Instances that return\<close>

definition fmt_handshake :: "handshake \<Rightarrow> string" where
  "fmt_handshake self =
    (case self of
       HandshakeNode cert \<Rightarrow> ''Handshake::Node { cert_der: '' @ bin_data_format cert @ '' }''
     | HandshakeClient \<Rightarrow> ''Handshake::Client'')"

definition fmt_node_info :: "(socket_addr \<Rightarrow> string) \<Rightarrow> node_info \<Rightarrow> string" where
  "fmt_node_info show_addr self =
    ''NodeInfo { peer_addr: '' @ show_addr (ni_peer_addr self) @ '', peer_cert_der: ''
      @ bin_data_format (ni_peer_cert_der self) @ '' }''"

text \<open>The private key is never shown.\<close>

definition fmt_certificate :: "serialisable_certificate \<Rightarrow> string" where
  "fmt_certificate self =
    ''SerialisableCertificate { cert_der: '' @ bin_data_format (cert_der self)
      @ '', key_der: <HIDDEN> }''"

text \<open>\<open>Display\<close> of an error; an error of another crate is carried as its text.\<close>

definition fmt_error :: "(socket_addr \<Rightarrow> string) \<Rightarrow> error \<Rightarrow> string" where
  "fmt_error show_addr self =
    (case self of
       Io e \<Rightarrow> ''IO Error: '' @ e
     | Read e \<Rightarrow> ''Read Error: '' @ e
     | BiDirectionalStreamAttempted a \<Rightarrow> ''Bi-directional stream attempted by peer '' @ show_addr a
     | Connect e \<Rightarrow> ''Connection Error: '' @ e
     | ConnectionErr e \<Rightarrow> ''Connection Error: '' @ e
     | Endpoint e \<Rightarrow> ''Endpoint error: '' @ e
     | CertificateParseError e \<Rightarrow> ''Certificate Parse Error: '' @ e
     | DuplicateConnectionToPeer a \<Rightarrow> ''Duplicate connection attempted to peer '' @ show_addr a
     | NoEndpointEchoServerFound \<Rightarrow>
         ''There's no endpoint echo server to ask. Current network configuration''
     | OneShotRx e \<Rightarrow> ''Oneshot Receiver error: '' @ e
     | TLS e \<Rightarrow> ''TLE error: '' @ e
     | Bincode e \<Rightarrow> ''Bincode error: '' @ e
     | OperationNotAllowed \<Rightarrow> ''This operation is not allowed for us''
     | ConnectionCancelled \<Rightarrow> ''Connection was actively cancelled''
     | ChannelRecv e \<Rightarrow> ''Channel receive error: '' @ e)"

definition fmt_event_loop_msg :: "event_loop_msg \<Rightarrow> string" where
  "fmt_event_loop_msg self =
    (case self of
       EventLoopMsg f \<Rightarrow>
         ''EventLoopMsg with '' @ (if f \<noteq> None then ''some'' else ''no'') @ '' inner'')"

section \<open>Instances that call themselves\<close>

partial_function (option) fmt_wire_msg :: "wire_msg \<Rightarrow> string option" where
  "fmt_wire_msg self =
    (case self of
       UserMsg m \<Rightarrow> Some (''WireMsg::UserMsg('' @ bin_data_format m @ '')'')
     | w \<Rightarrow> fmt_wire_msg w)"

partial_function (option) fmt_event :: "(socket_addr \<Rightarrow> string) \<Rightarrow> event \<Rightarrow> string option" where
  "fmt_event show_addr self =
    (case self of
       NewMessage a m \<Rightarrow> Some (''Event::NewMessage { peer_addr: '' @ show_addr a @ '', msg: ''
          @ bin_data_format m @ '' }'')
     | blah \<Rightarrow> fmt_event show_addr blah)"

partial_function (option) fmt_to_peer :: "to_peer \<Rightarrow> string option" where
  "fmt_to_peer self =
    (case self of
       TpInitiated _ _ sends \<Rightarrow>
         Some (''ToPeer::Initiated with '' @ fmt_nat (length sends) @ '' pending sends'')
     | TpEstablished _ _ \<Rightarrow> Some ''ToPeer::Established''
     | blah \<Rightarrow> fmt_to_peer blah)"

partial_function (option) fmt_from_peer :: "from_peer \<Rightarrow> string option" where
  "fmt_from_peer self =
    (case self of
       FpEstablished _ reads \<Rightarrow>
         Some (''FromPeer::Established with '' @ fmt_nat (length reads) @ '' pending reads'')
     | blah \<Rightarrow> fmt_from_peer blah)"

definition fmt_connection :: "connection \<Rightarrow> string option" where
  "fmt_connection self =
    (case fmt_to_peer (to_peer self) of
       None \<Rightarrow> None
     | Some t \<Rightarrow>
         (case fmt_from_peer (from_peer self) of
            None \<Rightarrow> None
          | Some f \<Rightarrow> Some (''Connection { to_peer: '' @ t @ '', from_peer: '' @ f @ '' }'')))"

section \<open>Handlers with debug logging on\<close>

text \<open>
  \<open>handle_rx_handshake\<close> and \<open>write_to_peer\<close> of \<open>src/communicate.rs\<close> show the
  connection to the peer in a \<open>debug!\<close>, whose arguments are formatted only when that level
  of logging is on. These are the two functions with it on; \<open>None\<close> is a call that
  never returns. The definitions of \<open>Communicate\<close> are the functions with it off.
\<close>

definition handle_rx_handshake_debug ::
  "extern \<Rightarrow> socket_addr \<Rightarrow> handshake \<Rightarrow> world \<Rightarrow> (panic + world) option" where
  "handle_rx_handshake_debug E a hs w =
    (case hs of
       HandshakeNode cert \<Rightarrow> Some (handle_rx_cert E a cert w)
     | HandshakeClient \<Rightarrow>
         (case connections w a of
            None \<Rightarrow> Some (Inr w)
          | Some conn \<Rightarrow>
              (case to_peer conn of
                 TpNoConnection \<Rightarrow>
                   Some (Inr (send_event (ConnectedTo (PeerClient a))
                     (w\<lparr>connections := (connections w)(a \<mapsto> conn\<lparr>to_peer := TpNotNeeded\<rparr>)\<rparr>)))
               | tp \<Rightarrow> (case fmt_to_peer tp of None \<Rightarrow> None | Some _ \<Rightarrow> Some (Inr w)))))"

definition write_to_peer_debug :: "socket_addr \<Rightarrow> wire_msg \<Rightarrow> world \<Rightarrow> world option" where
  "write_to_peer_debug a msg w =
    (case connections w a of
       None \<Rightarrow> Some w
     | Some conn \<Rightarrow>
         (case to_peer conn of
            TpNotNeeded \<Rightarrow>
              (case from_peer conn of
                 FpEstablished q _ \<Rightarrow> Some (write_to_peer_connection a q msg w)
               | _ \<Rightarrow> Some w)
          | TpEstablished _ q \<Rightarrow> Some (write_to_peer_connection a q msg w)
          | tp \<Rightarrow> (case fmt_to_peer tp of None \<Rightarrow> None | Some _ \<Rightarrow> Some w)))"

section \<open>Lemmas\<close>

lemma fmt_wire_msg_returns:
  assumes "fmt_wire_msg w = Some s"
  shows "\<exists>m. w = UserMsg m"
  by (rule fmt_wire_msg.raw_induct [where P = "\<lambda>w _. \<exists>m. w = UserMsg m", OF _ assms])
    (auto split: wire_msg.splits)

lemma fmt_event_returns:
  assumes "fmt_event sa e = Some s"
  shows "\<exists>a m. e = NewMessage a m"
  by (rule fmt_event.raw_induct [where P = "\<lambda>_ e _. \<exists>a m. e = NewMessage a m", OF _ assms])
    (fastforce split: event.splits)

lemma fmt_to_peer_returns:
  assumes "fmt_to_peer t = Some s"
  shows "tp_is_initiated t \<or> tp_is_established t"
  by (rule fmt_to_peer.raw_induct
      [where P = "\<lambda>t _. tp_is_initiated t \<or> tp_is_established t", OF _ assms])
    (fastforce split: to_peer.splits)

lemma fmt_from_peer_returns:
  assumes "fmt_from_peer t = Some s"
  shows "fp_is_established t"
  by (rule fmt_from_peer.raw_induct [where P = "\<lambda>t _. fp_is_established t", OF _ assms])
    (fastforce split: from_peer.splits)

lemma fmt_wire_msg_user:
  "fmt_wire_msg (UserMsg m) = Some (''WireMsg::UserMsg('' @ bin_data_format m @ '')'')"
  by (subst fmt_wire_msg.simps) simp

lemma fmt_event_message:
  "fmt_event sa (NewMessage a m) = Some (''Event::NewMessage { peer_addr: '' @ sa a @ '', msg: ''
          @ bin_data_format m @ '' }'')"
  by (subst fmt_event.simps) simp

lemma fmt_to_peer_values:
  "fmt_to_peer (TpInitiated t c sends) =
     Some (''ToPeer::Initiated with '' @ fmt_nat (length sends) @ '' pending sends'')"
  "fmt_to_peer (TpEstablished c q) = Some ''ToPeer::Established''"
  by (subst fmt_to_peer.simps; simp)+

lemma fmt_to_peer_diverges: "fmt_to_peer TpNoConnection = None" "fmt_to_peer TpNotNeeded = None"
  using fmt_to_peer_returns [of TpNoConnection] fmt_to_peer_returns [of TpNotNeeded]
  by (cases "fmt_to_peer TpNoConnection"; cases "fmt_to_peer TpNotNeeded"; simp)+

text \<open>Where the two functions with logging differ from those without\<close>

lemma handle_rx_handshake_debug_eq:
  "handle_rx_handshake_debug E a hs w =
    (if hs = HandshakeClient \<and> (\<exists>c. connections w a = Some c \<and> to_peer c = TpNotNeeded) then None
     else Some (handle_rx_handshake E a hs w))"
proof (cases hs)
  case HandshakeClient
  show ?thesis
  proof (cases "connections w a")
    case (Some c)
    then show ?thesis
      using HandshakeClient fmt_to_peer_diverges
      by (cases "to_peer c") (auto simp: fmt_to_peer_values handle_rx_handshake_debug_def handle_rx_handshake_def)
  qed (simp add: HandshakeClient handle_rx_handshake_debug_def handle_rx_handshake_def)
qed (simp add: handle_rx_handshake_debug_def handle_rx_handshake_def)

lemma write_to_peer_debug_eq:
  "write_to_peer_debug a msg w =
    (if \<exists>c. connections w a = Some c \<and> to_peer c = TpNoConnection then None else Some (write_to_peer a msg w))"
proof (cases "connections w a")
  case (Some c)
  then show ?thesis
    using fmt_to_peer_diverges
    by (cases "to_peer c"; cases "from_peer c") (auto simp: fmt_to_peer_values write_to_peer_debug_def write_to_peer_def)
qed (simp add: write_to_peer_debug_def write_to_peer_def)

lemma fmt_from_peer_defined: "fmt_from_peer (FpEstablished q reads) \<noteq> None"
  by (subst fmt_from_peer.simps) simp

end
