(* ===== verification/Api_Properties.thy ===== *)
theory Api_Properties
  imports Scenario Formatting
begin

text \<open>
  The properties of the library's outside: the queue of the event loop thread,
  building a handle, the choice of the port, and what logging a value does.
\<close>

section \<open>The event loop thread\<close>

lemma run_event_loop_posts:
  "run_event_loop (map event_loop_msg_new fs @ ms) cell =
    (case fold_p (\<lambda>f. f) fs cell of Inl p \<Rightarrow> LoopPanicked p | Inr cell' \<Rightarrow> run_event_loop ms cell')"
  by (induction fs arbitrary: cell)
    (simp_all add: event_loop_msg_new_def bind_p_def split: sum.splits)

text \<open>
  The event loop runs what was posted to it in the order of posting, each
  closure on the context the one before left, and dropping the handle ends it after
  everything posted before; what is posted later never runs. A panic ends it at
  once.
\<close>

theorem event_loop_fifo:
  "run_event_loop (posted (drop_event_loop (fold el_post fs event_loop_spawn)) @ later) cell =
    (case fold_p (\<lambda>f. f) fs cell of Inl p \<Rightarrow> LoopPanicked p | Inr cell' \<Rightarrow> LoopExited cell')"
proof -
  have "posted (fold el_post fs el) = posted el @ map event_loop_msg_new fs" for el
    by (induction fs arbitrary: el) (simp_all add: el_post_def)
  then show ?thesis
    by (simp add: drop_event_loop_def event_loop_spawn_def run_event_loop_posts event_loop_terminator_def
        split: sum.splits)
qed

section \<open>Building a handle\<close>

lemma settings_of_fields:
  "st_our_type (settings_of cfg) = cfg_our_type cfg"
  "st_port (settings_of cfg) = (case cfg_port cfg of Some p \<Rightarrow> p | None \<Rightarrow> 443)"
  "st_is_user_supplied (settings_of cfg) = (cfg_port cfg \<noteq> None)"
  by (simp_all add: settings_of_def DEFAULT_PORT_TO_TRY_def split: option.splits)

lemma bootstrap_cache_new_contacts:
  "bootstrap_cache_new P dirs hcc ov d = (Inr cache, d') \<Longrightarrow> hard_coded_contacts cache = hcc"
  by (auto simp: bootstrap_cache_new_def Let_def split: sum.splits prod.splits)

lemma activate_posts:
  assumes "activate E N dirs g self d = Inr ((Inr (), self'), d')"
  shows "\<exists>cert cache. self' = el_post_to (activate_closure E N (settings_of (qp_cfg self)) cert cache d') self \<and>
    hard_coded_contacts cache = cfg_hard_coded_contacts (qp_cfg self)"
  using assms by (auto simp: activate_def Let_def dest!: bootstrap_cache_new_contacts split: sum.splits prod.splits)

lemma activate_closure_runs:
  assumes "bind_endpoint N st = Inr pt" and "\<And>c k. add_own_certificate E c k = None"
  shows "\<exists>w. activate_closure E N st cert cache d None = Inr (Some w) \<and> initial_world w \<and>
    our_type w = st_our_type st \<and> listening w = (st_our_type st \<noteq> OurClient) \<and>
    connections w = Map.empty \<and> bootstrap_cache w = cache"
proof -
  let ?w = "(context_new cert (st_max_msg_size st) (st_idle st) (st_keep_alive st) (st_our_type st) cache d)
      \<lparr>listening := (st_our_type st \<noteq> OurClient)\<rparr>"
  have "activate_closure E N st cert cache d None = Inr (Some ?w)"
    using assms
    by (cases "st_our_type st = OurClient")
      (simp_all add: activate_closure_def new_our_cfg_def initialise_ctx_def listen_def context_new_def Let_def)
  moreover have "initial_world ?w" unfolding initial_world_def by blast
  ultimately show ?thesis by (simp add: context_new_def)
qed

text \<open>A second activation of the same event loop panics.\<close>

lemma activate_twice_panics:
  "\<exists>p. activate_closure E N st cert cache d (Some w) = Inl p"
  by (auto simp: activate_closure_def initialise_ctx_def Let_def split: sum.splits)

lemma build_posts:
  assumes "build E N C dirs g b d = Inr (Inr qp, d')"
  shows "\<exists>qp0 qp1 d1. qp_el qp0 = event_loop_spawn \<and> (\<forall>cfg. b_cfg b = Some cfg \<longrightarrow> qp_cfg qp0 = cfg) \<and>
    activate E N dirs g qp0 d1 = Inr ((Inr (), qp1), d') \<and>
    qp = el_post_to (ctx_mut (\<lambda>w. Inr (install_proxies (b_proxies b) (b_use_proxies_exclusively b) w))) qp1"
proof -
  obtain r0 d1 where r0: "(case b_cfg b of
        Some cfg \<Rightarrow> (Inr (quic_p2p_with_config cfg), d)
      | None \<Rightarrow> quic_p2p_new C dirs g d) = (r0, d1)" by fastforce
  then obtain qp0 where qp0: "r0 = Inr qp0" using assms by (cases r0) (auto simp: build_def)
  have "qp_el qp0 = event_loop_spawn" "\<forall>cfg. b_cfg b = Some cfg \<longrightarrow> qp_cfg qp0 = cfg"
    using r0 qp0 by (auto simp: quic_p2p_new_def quic_p2p_with_config_def
        split: option.splits sum.splits prod.splits)
  moreover have "\<exists>qp1. activate E N dirs g qp0 d1 = Inr ((Inr (), qp1), d') \<and>
      qp = el_post_to (ctx_mut (\<lambda>w. Inr (install_proxies (b_proxies b) (b_use_proxies_exclusively b) w))) qp1"
    using assms r0 qp0 by (auto simp: build_def split: sum.splits)
  ultimately show ?thesis by blast
qed

lemma build_cfg:
  assumes "build E N C dirs g b d = Inr (Inr qp, d')" and "b_cfg b = Some cfg"
  shows "qp_cfg qp = cfg"
  using build_posts [OF assms(1)] assms(2) activate_posts by (fastforce simp: el_post_to_def)

text \<open>The world in which the closures that \<open>build\<close> posts leave the event loop.\<close>

lemma build_world:
  assumes "build E N C dirs g b d = Inr (Inr qp, d')"
    and "bind_endpoint N (settings_of (qp_cfg qp)) = Inr pt"
    and "\<And>c k. add_own_certificate E c k = None"
  obtains w0 where "run_event_loop (posted (qp_el qp)) None =
      LoopWaiting (Some (install_proxies (b_proxies b) (b_use_proxies_exclusively b) w0))"
    "initial_world w0" "our_type w0 = cfg_our_type (qp_cfg qp)" "listening w0 = (our_type w0 \<noteq> OurClient)"
    "connections w0 = Map.empty" "hard_coded_contacts (bootstrap_cache w0) = cfg_hard_coded_contacts (qp_cfg qp)"
    "\<And>cfg. b_cfg b = Some cfg \<Longrightarrow> qp_cfg qp = cfg"
proof -
  let ?inst = "\<lambda>w. install_proxies (b_proxies b) (b_use_proxies_exclusively b) w"
  obtain qp0 qp1 d1 where new: "qp_el qp0 = event_loop_spawn" "\<forall>cfg. b_cfg b = Some cfg \<longrightarrow> qp_cfg qp0 = cfg"
      and act: "activate E N dirs g qp0 d1 = Inr ((Inr (), qp1), d')"
      and qp: "qp = el_post_to (ctx_mut (\<lambda>w. Inr (?inst w))) qp1"
    using build_posts [OF assms(1)] by blast
  obtain cert cache where qp1: "qp1 = el_post_to
      (activate_closure E N (settings_of (qp_cfg qp0)) cert cache d') qp0"
      and hcc: "hard_coded_contacts cache = cfg_hard_coded_contacts (qp_cfg qp0)"
    using activate_posts [OF act] by blast
  have cfg: "qp_cfg qp = qp_cfg qp0" by (simp add: qp qp1 el_post_to_def)
  have posted: "posted (qp_el qp) = map event_loop_msg_new
      [activate_closure E N (settings_of (qp_cfg qp0)) cert cache d', ctx_mut (\<lambda>w. Inr (?inst w))]"
    using new by (simp add: qp qp1 el_post_to_def el_post_def event_loop_spawn_def)
  obtain w0 where w0: "activate_closure E N (settings_of (qp_cfg qp0)) cert cache d' None = Inr (Some w0)"
      "initial_world w0" "our_type w0 = cfg_our_type (qp_cfg qp0)"
      "listening w0 = (cfg_our_type (qp_cfg qp0) \<noteq> OurClient)" "connections w0 = Map.empty" "bootstrap_cache w0 = cache"
    using activate_closure_runs [OF assms(2) [unfolded cfg] assms(3), of cert cache d']
    unfolding settings_of_fields by blast
  have "run_event_loop (posted (qp_el qp)) None = LoopWaiting (Some (?inst w0))"
    using run_event_loop_posts [of "[activate_closure E N (settings_of (qp_cfg qp0)) cert cache d',
        ctx_mut (\<lambda>w. Inr (?inst w))]" "[]" None] w0(1)
    by (simp add: posted ctx_mut_def)
  then show ?thesis using that w0(2-6) cfg hcc new(2) by simp
qed

text \<open>
  C31. What \<open>Builder::build\<close> posts brings the event loop up: if the endpoint can
  be bound and our certificate is accepted, the loop ends up waiting with an
  initialised context that is a reachable world of the transition system, of the
  configured type, listening exactly if we are a node, without connections, and with
  the builder's proxies in the cache.
\<close>

theorem build_starts_event_loop:
  assumes "build E N C dirs g b d = Inr (Inr qp, d')"
    and "bind_endpoint N (settings_of (qp_cfg qp)) = Inr pt"
    and "\<And>c k. add_own_certificate E c k = None"
  shows "\<exists>w. run_event_loop (posted (qp_el qp)) None = LoopWaiting (Some w) \<and> reachable E w \<and>
    our_type w = cfg_our_type (qp_cfg qp) \<and> (listening w \<longleftrightarrow> our_type w \<noteq> OurClient) \<and>
    connections w = Map.empty \<and> set (b_proxies b) \<subseteq> set (peers (bootstrap_cache w)) \<and>
    (b_use_proxies_exclusively b \<longrightarrow> peers (bootstrap_cache w) = b_proxies b)"
proof -
  let ?inst = "install_proxies (b_proxies b) (b_use_proxies_exclusively b)"
  obtain w0 where w0: "run_event_loop (posted (qp_el qp)) None = LoopWaiting (Some (?inst w0))" "initial_world w0"
      "our_type w0 = cfg_our_type (qp_cfg qp)" "listening w0 = (our_type w0 \<noteq> OurClient)" "connections w0 = Map.empty"
    using build_world [OF assms] by metis
  have "reachable E (?inst w0)"
    using reachable_step [OF reachable_init [OF w0(2)] el_step.post_proxies] .
  then show ?thesis using w0 by (auto simp: install_proxies_def Let_def)
qed

theorem build_starts_event_loop_witness:
  "\<exists>qp d' w. build sample_extern sample_sockets bincode_config
       (Some \<lparr>pd_config_dir = [''c''], pd_cache_dir = [''k''], pd_data_dir = [''d'']\<rparr>)
       \<lparr>cert_der = [1], key_der = [2]\<rparr> (with_proxies [node1] True builder_new) sample_disk
         = Inr (Inr qp, d') \<and>
     run_event_loop (posted (qp_el qp)) None = LoopWaiting (Some w) \<and> reachable sample_extern w \<and>
     peers (bootstrap_cache w) = [node1]"
proof -
  let ?b = "with_proxies [node1] True builder_new"
  let ?build = "build sample_extern sample_sockets bincode_config
       (Some \<lparr>pd_config_dir = [''c''], pd_cache_dir = [''k''], pd_data_dir = [''d'']\<rparr>)
       \<lparr>cert_der = [1], key_der = [2]\<rparr> ?b sample_disk"
  obtain qp d' where b: "?build = Inr (Inr qp, d')"
    by (simp add: build_def with_proxies_def builder_new_def quic_p2p_new_def read_or_construct_default_def
        config_path_def project_dir_def path_exists_def sample_disk_def create_dir_all_def io_step_def
        write_to_disk_def bincode_config_def prefix_to_codec_def put_file_def activate_def
        quic_p2p_with_config_def with_default_cert_def config_default_def obtain_priv_key_and_cert_def
        sample_extern_def bincode_extern_def bootstrap_cache_new_def path_join_def path_parent_def Let_def)
  have bind: "bind_endpoint sample_sockets (settings_of (qp_cfg qp)) = Inr (st_port (settings_of (qp_cfg qp)))"
    by (simp add: bind_endpoint_def sample_sockets_def)
  have own: "add_own_certificate sample_extern c k = None" for c k
    by (simp add: sample_extern_def bincode_extern_def)
  have "b_use_proxies_exclusively ?b" "b_proxies ?b = [node1]" by (simp_all add: with_proxies_def)
  with build_starts_event_loop [OF b bind own] b show ?thesis by metis
qed

text \<open>
  The port: a port the user configured is bound or the event loop panics, never
  another one; without a configured port 443 is tried first and only if that fails
  the system chooses one.
\<close>

theorem port_choice:
  "(cfg_port cfg = Some p \<longrightarrow>
     bind_endpoint N (settings_of cfg) \<in> {Inr p, Inl CouldNotBindUserPort, Inl UnwrapOnError}) \<and>
   (cfg_port cfg = None \<longrightarrow>
     (udp_bind N (st_ip (settings_of cfg)) 443 = None \<longrightarrow>
        bind_endpoint N (settings_of cfg) \<in> {Inr 443, Inl UnwrapOnError}) \<and>
     (udp_bind N (st_ip (settings_of cfg)) 443 \<noteq> None \<longrightarrow>
        bind_endpoint N (settings_of cfg) \<in> {Inr 0, Inl UnwrapOnError}))"
  by (cases "cfg_port cfg"; cases "udp_bind N (st_ip (settings_of cfg)) (st_port (settings_of cfg))")
    (simp_all add: bind_endpoint_def settings_of_fields split: option.split)

theorem port_choice_witness:
  "bind_endpoint sample_sockets (settings_of (config_default\<lparr>cfg_port := None\<rparr>)) \<in> {Inr 443, Inl UnwrapOnError} \<and>
   bind_endpoint sample_sockets (settings_of (config_default\<lparr>cfg_port := Some 8080\<rparr>)) \<in>
     {Inr 8080, Inl CouldNotBindUserPort, Inl UnwrapOnError}"
  using port_choice [of "config_default\<lparr>cfg_port := None\<rparr>" 0 sample_sockets]
    port_choice [of "config_default\<lparr>cfg_port := Some 8080\<rparr>" 8080 sample_sockets]
  by (simp add: sample_sockets_def)

section \<open>Logging\<close>

text \<open>
  C32. Showing most values never returns: the default branches of the hand-written
  \<open>Display\<close> and \<open>Debug\<close> instances call themselves on the same value, so
  showing a wire message that is no user message, an event that is no new message,
  or a missing or unneeded connection recurses for ever. The others return.
\<close>

theorem showing_diverges:
  "(fmt_wire_msg m = None \<longleftrightarrow> (\<forall>b. m \<noteq> UserMsg b)) \<and>
   (fmt_event show_addr e = None \<longleftrightarrow> (\<forall>a b. e \<noteq> NewMessage a b)) \<and>
   (fmt_to_peer tp = None \<longleftrightarrow> tp = TpNoConnection \<or> tp = TpNotNeeded) \<and>
   (fmt_from_peer fp = None \<longleftrightarrow> fp = FpNoConnection \<or> fp = FpNotNeeded)"
proof (intro conjI)
  show "fmt_wire_msg m = None \<longleftrightarrow> (\<forall>b. m \<noteq> UserMsg b)"
    using fmt_wire_msg_returns [of m] fmt_wire_msg_user by (cases "fmt_wire_msg m") auto
  show "fmt_event show_addr e = None \<longleftrightarrow> (\<forall>a b. e \<noteq> NewMessage a b)"
    using fmt_event_returns [of show_addr e] fmt_event_message by (cases "fmt_event show_addr e") auto
  show "fmt_to_peer tp = None \<longleftrightarrow> tp = TpNoConnection \<or> tp = TpNotNeeded"
    using fmt_to_peer_returns [of tp] fmt_to_peer_values
    by (cases "fmt_to_peer tp"; cases tp) auto
  show "fmt_from_peer fp = None \<longleftrightarrow> fp = FpNoConnection \<or> fp = FpNotNeeded"
    using fmt_from_peer_returns [of fp] fmt_from_peer_defined
    by (cases "fmt_from_peer fp"; cases fp) auto
qed



end
