(* ===== verification/Message_Flow.thy ===== *)
theory Message_Flow
  imports Loop_Growth
begin

text \<open>
  Where messages, certificates and cached peers come from. A world is given rules: what
  may be sent to an address, what may be received from it, to which address a QUIC
  connection leads, which node may be known under which certificate and which has proved
  to hold it, which addresses the user contacted, which nodes may be cached and what
  caches are right, and whether we are a client. \<open>flow\<close> says that everything in the
  world agrees with them: queued and written messages may be sent to the peer they are
  for, over a connection that leads to it; waiting and delivered messages may have been
  received from their sender; connections, announcements and the cache are about nodes
  that may be known. Every handler keeps \<open>flow\<close> if what reaches it from outside agrees.
\<close>

section \<open>The invariant\<close>

record flow_rules =
  may_send :: "socket_addr \<Rightarrow> wire_msg \<Rightarrow> bool"
  may_recv :: "socket_addr \<Rightarrow> wire_msg \<Rightarrow> bool"
  leads_to :: "nat \<Rightarrow> socket_addr \<Rightarrow> bool"
  may_know :: "node_info \<Rightarrow> bool"
  verified :: "node_info \<Rightarrow> bool"
  contacted :: "socket_addr \<Rightarrow> bool"
  may_cache :: "node_info \<Rightarrow> bool"
  cache_ok :: "bootstrap_cache \<Rightarrow> bool"
  is_client :: bool

abbreviation node_at :: "socket_addr \<Rightarrow> bytes \<Rightarrow> node_info" where
  "node_at a crt \<equiv> \<lparr>ni_peer_addr = a, ni_peer_cert_der = crt\<rparr>"

definition conn_flow :: "flow_rules \<Rightarrow> socket_addr \<Rightarrow> connection \<Rightarrow> bool" where
  "conn_flow F a c \<longleftrightarrow>
    (case to_peer c of
       TpInitiated _ crt sends \<Rightarrow> may_know F (node_at a crt) \<and> (\<forall>m \<in> set sends. may_send F a m)
     | TpEstablished crt q \<Rightarrow> verified F (node_at a crt) \<and> leads_to F q a
     | _ \<Rightarrow> True) \<and>
    (case from_peer c of
       FpEstablished q reads \<Rightarrow> leads_to F q a \<and> (\<forall>m \<in> set reads. may_recv F a m)
     | FpNotNeeded \<Rightarrow> is_client F
     | FpNoConnection \<Rightarrow> True) \<and>
    (we_contacted_peer c \<longrightarrow> contacted F a)"

definition writes_flow :: "flow_rules \<Rightarrow> write_task list \<Rightarrow> bool" where
  "writes_flow F ts \<longleftrightarrow>
    (\<forall>t \<in> set ts. leads_to F (wt_q_conn t) (wt_peer_addr t) \<and> may_send F (wt_peer_addr t) (wt_msg t))"

definition wire_flow :: "extern \<Rightarrow> flow_rules \<Rightarrow> (nat \<times> bytes) list \<Rightarrow> bool" where
  "wire_flow E F ws \<longleftrightarrow>
    (\<forall>(q, bs) \<in> set ws. \<exists>a m. leads_to F q a \<and> may_send F a m \<and> into_bytes (msg_codec E) m = Inr bs)"

fun event_flow :: "flow_rules \<Rightarrow> event \<Rightarrow> bool" where
  "event_flow F (NewMessage a m) = may_recv F a (UserMsg m)"
| "event_flow F (ConnectedTo (PeerNode ni)) = verified F ni"
| "event_flow F (ConnectedTo (PeerClient a)) = may_recv F a (Handshake HandshakeClient)"
| "event_flow F (BootstrappedTo ni) = verified F ni"
| "event_flow F _ = True"

definition cache_flow :: "flow_rules \<Rightarrow> bootstrap_cache \<Rightarrow> bool" where
  "cache_flow F bc \<longleftrightarrow> cache_ok F bc \<and> (\<forall>ni \<in> set (peers bc). may_cache F ni) \<and>
    (\<forall>ni \<in> set (hard_coded_contacts bc). may_know F ni)"

definition echo_flow :: "flow_rules \<Rightarrow> (nat \<times> socket_addr) list \<Rightarrow> bool" where
  "echo_flow F es \<longleftrightarrow> (\<forall>(ch, b) \<in> set es. \<exists>a. may_recv F a (EndpointEchoResp b))"

text \<open>Only known nodes are dialled.\<close>

definition known_addr :: "flow_rules \<Rightarrow> socket_addr \<Rightarrow> bool" where
  "known_addr F a \<longleftrightarrow> (\<exists>crt. may_know F (node_at a crt))"

definition dials_flow :: "flow_rules \<Rightarrow> (nat \<rightharpoonup> socket_addr) \<Rightarrow> bool" where
  "dials_flow F at \<longleftrightarrow> (\<forall>t a. at t = Some a \<longrightarrow> known_addr F a)"

definition flow :: "extern \<Rightarrow> flow_rules \<Rightarrow> world \<Rightarrow> bool" where
  "flow E F w \<longleftrightarrow>
    (\<forall>a c. connections w a = Some c \<longrightarrow> conn_flow F a c) \<and> writes_flow F (writes w) \<and>
    wire_flow E F (wire w) \<and> (\<forall>e \<in> set (events w). event_flow F e) \<and> cache_flow F (bootstrap_cache w) \<and>
    echo_flow F (echo_sent w) \<and> dials_flow F (attempts w) \<and> (our_type w = OurClient \<longrightarrow> is_client F)"

text \<open>More may be allowed later.\<close>

definition flow_le :: "flow_rules \<Rightarrow> flow_rules \<Rightarrow> bool" where
  "flow_le F G \<longleftrightarrow> (\<forall>a m. may_send F a m \<longrightarrow> may_send G a m) \<and>
    (\<forall>a m. may_recv F a m \<longrightarrow> may_recv G a m) \<and> (\<forall>q a. leads_to F q a \<longrightarrow> leads_to G q a) \<and>
    (\<forall>ni. may_know F ni \<longrightarrow> may_know G ni) \<and>
    (\<forall>ni. verified F ni \<longrightarrow> verified G ni) \<and> (\<forall>bc. cache_ok F bc \<longrightarrow> cache_ok G bc) \<and> (\<forall>a. contacted F a \<longrightarrow> contacted G a) \<and>
    (\<forall>ni. may_cache F ni \<longrightarrow> may_cache G ni) \<and> (is_client F \<longrightarrow> is_client G)"

lemma conn_flow_mono: "flow_le F G \<Longrightarrow> conn_flow F a c \<Longrightarrow> conn_flow G a c"
  by (auto simp: flow_le_def conn_flow_def split: to_peer.splits from_peer.splits)

lemma event_flow_mono: "flow_le F G \<Longrightarrow> event_flow F e \<Longrightarrow> event_flow G e"
  by (cases "(F, e)" rule: event_flow.cases) (auto simp: flow_le_def)

lemma wire_flow_mono: "flow_le F G \<Longrightarrow> wire_flow E F ws \<Longrightarrow> wire_flow E G ws"
  by (fastforce simp: flow_le_def wire_flow_def)

lemma echo_flow_mono: "flow_le F G \<Longrightarrow> echo_flow F es \<Longrightarrow> echo_flow G es"
  by (fastforce simp: flow_le_def echo_flow_def)

lemma known_addr_mono: "flow_le F G \<Longrightarrow> known_addr F a \<Longrightarrow> known_addr G a"
  unfolding flow_le_def known_addr_def by meson

lemma dials_flow_mono: "flow_le F G \<Longrightarrow> dials_flow F at \<Longrightarrow> dials_flow G at"
  using known_addr_mono unfolding dials_flow_def by blast

lemma flow_mono: "flow_le F G \<Longrightarrow> flow E F w \<Longrightarrow> flow E G w"
  unfolding flow_def writes_flow_def cache_flow_def
  using conn_flow_mono [of F G] event_flow_mono [of F G] wire_flow_mono [of F G E]
    echo_flow_mono [of F G] dials_flow_mono [of F G]
  by (auto simp: flow_le_def)

lemma flow_initial:
  "initial_world w \<Longrightarrow> cache_flow F (bootstrap_cache w) \<Longrightarrow> (our_type w = OurClient \<Longrightarrow> is_client F) \<Longrightarrow>
    flow E F w"
  by (auto simp: initial_world_def flow_def context_new_def writes_flow_def wire_flow_def echo_flow_def dials_flow_def)

text \<open>What caches are right can be chosen afterwards.\<close>

lemma conn_flow_cache_ok: "conn_flow (F\<lparr>cache_ok := P\<rparr>) a c = conn_flow F a c"
  by (cases "to_peer c"; cases "from_peer c"; simp add: conn_flow_def)

lemma event_flow_cache_ok: "event_flow (F\<lparr>cache_ok := P\<rparr>) e = event_flow F e"
  by (cases "(F, e)" rule: event_flow.cases) simp_all

lemma flow_cache_ok: "flow E (F\<lparr>cache_ok := P\<rparr>) w \<longleftrightarrow> flow E (F\<lparr>cache_ok := (\<lambda>_. True)\<rparr>) w \<and> P (bootstrap_cache w)"
  by (auto simp: flow_def conn_flow_cache_ok writes_flow_def wire_flow_def event_flow_cache_ok cache_flow_def echo_flow_def
      dials_flow_def known_addr_def)

section \<open>Frames\<close>

text \<open>The fields \<open>flow\<close> looks at\<close>

lemma flow_frame:
  assumes "flow E F w" and "connections w' = connections w" and "writes w' = writes w"
    and "wire w' = wire w" and "events w' = events w" and "bootstrap_cache w' = bootstrap_cache w"
    and "our_type w' = our_type w" and "echo_sent w' = echo_sent w"
    and "attempts w' = attempts w"
  shows "flow E F w'"
  using assms by (simp add: flow_def)

lemma flow_fields [simp]:
  "flow E F (w\<lparr>drivers := ds\<rparr>) = flow E F w" "flow E F (w\<lparr>readers := rs\<rparr>) = flow E F w"
  "flow E F (w\<lparr>stream_reads := ss\<rparr>) = flow E F w" "flow E F (w\<lparr>killers := ks\<rparr>) = flow E F w"
  "flow E F (w\<lparr>listening := b\<rparr>) = flow E F w"
  "flow E F (w\<lparr>next_q := n\<rparr>) = flow E F w" "flow E F (w\<lparr>next_term := n\<rparr>) = flow E F w"
  "flow E F (w\<lparr>the_disk := d\<rparr>) = flow E F w"
  "flow E F (w\<lparr>our_ext_addr_tx := tx\<rparr>) = flow E F w"
  "flow E F (w\<lparr>echo_dropped := y\<rparr>) = flow E F w" "flow E F (w\<lparr>signalled := sg\<rparr>) = flow E F w"
  "flow E F (w\<lparr>closed := cl\<rparr>) = flow E F w"
  by (simp_all add: flow_def)

lemma flow_put:
  "flow E F w \<Longrightarrow> conn_flow F a c \<Longrightarrow> flow E F (w\<lparr>connections := (connections w)(a \<mapsto> c)\<rparr>)"
  by (simp add: flow_def)

lemma flow_conn: "flow E F w \<Longrightarrow> connections w a = Some c \<Longrightarrow> conn_flow F a c"
  by (simp add: flow_def)

lemma flow_finish: "flow E F w \<Longrightarrow> flow E F (finish_attempt t w)"
  by (simp add: flow_def finish_attempt_def dials_flow_def)

lemma flow_dial:
  "flow E F w \<Longrightarrow> known_addr F a \<Longrightarrow> flow E F (w\<lparr>attempts := (attempts w)(t \<mapsto> a)\<rparr>)"
  by (simp add: flow_def dials_flow_def)

lemma flow_send_event: "flow E F w \<Longrightarrow> event_flow F e \<Longrightarrow> flow E F (send_event e w)"
  by (auto simp: flow_def send_event_def)

lemma flow_remove:
  assumes "flow E F w"
  shows "flow E F (remove_connection a w)"
proof -
  obtain es where "set es \<subseteq> {BootstrapFailure}" "events (remove_connection a w) = events w @
      (case connections w a of
         Some c \<Rightarrow> if is_complete c then [ConnectionFailure (conn_peer_addr c)] else []
       | None \<Rightarrow> []) @ es"
    using events_remove_connection by blast
  then have "\<forall>e \<in> set (events (remove_connection a w)). event_flow F e"
    using assms by (auto simp: flow_def split: option.splits if_splits)
  then show ?thesis using assms by (auto simp: flow_def world_simps)
qed

lemma flow_handle_connect_err: "flow E F w \<Longrightarrow> flow E F (handle_connect_err a e w)"
  by (simp add: handle_connect_err_def flow_remove split: error.splits)

lemma flow_comm_err: "flow E F w \<Longrightarrow> flow E F (handle_communication_err a e w)"
  by (simp add: handle_communication_err_def flow_remove)

lemma flow_make_group_ref: "flow E F w \<Longrightarrow> flow E F (snd (make_group_ref maker a t w))"
  by (erule flow_frame)
    (simp_all add: make_group_ref_def add_member_and_get_group_ref_def effect_defs Let_def split: option.split)

lemma flow_take:
  assumes "take_group_ref_event ro ni w = (ev, w1)" and "flow E F w" and "verified F ni"
  shows "flow E F (send_event ev w1)"
proof (rule flow_send_event)
  note f = take_group_ref_frame [OF assms(1)]
  have "wire w1 = wire w" "bootstrap_cache w1 = bootstrap_cache w" "our_type w1 = our_type w"
    "echo_sent w1 = echo_sent w"
    using assms(1) by (auto simp: take_group_ref_event_def world_simps split: option.splits)
  then show "flow E F w1" using flow_frame [OF assms(2)] f by blast
  show "event_flow F ev" using f(13) assms(3) by simp
qed

lemma flow_inform: "flow E F (drop_inform_tx tx w) = flow E F w"
  by (simp add: drop_inform_tx_def split: option.split)

lemma flow_echo_answer:
  "flow E F w \<Longrightarrow> may_recv F a (EndpointEchoResp b) \<Longrightarrow>
    flow E F (w\<lparr>our_ext_addr_tx := tx, echo_sent := echo_sent w @ [(ch, b)]\<rparr>)"
  by (auto simp: flow_def echo_flow_def)

lemma flow_try_send: "flow E F (try_send t w) = flow E F w"
  by (simp add: try_send_def)

lemma flow_drop_q_conn: "flow E F (drop_q_conn q w) = flow E F w"
  by (simp add: drop_q_conn_def)

lemma flow_set_contacted:
  "flow E F w \<Longrightarrow> contacted F a \<Longrightarrow> flow E F (set_we_contacted_peer a w)"
  by (auto simp: set_we_contacted_peer_def conn_flow_def intro!: flow_put dest: flow_conn split: option.split)

lemma flow_drop_group_rc: "flow E F w \<Longrightarrow> flow E F (drop_group_rc g w)"
  using events_drop_group_rc [of g w] by (auto simp: flow_def world_simps)

text \<open>
  What reaches the loop from outside, and what it has to respect: the messages and peers
  users give it, the addresses of its new connections, and the bytes it reads.
\<close>

text \<open>The certificate that the pending attempt to an address was started with\<close>

definition expected_cert :: "world \<Rightarrow> socket_addr \<Rightarrow> bytes option" where
  "expected_cert w a =
    (case connections w a of
       Some c \<Rightarrow> (case to_peer c of TpInitiated _ crt _ \<Rightarrow> Some crt | _ \<Rightarrow> None)
     | None \<Rightarrow> None)"

definition input_ok :: "extern \<Rightarrow> flow_rules \<Rightarrow> world \<Rightarrow> label \<Rightarrow> bool" where
  "input_ok E F w l \<longleftrightarrow>
    (case l of
       PostConnectTo ni \<Rightarrow> may_know F ni \<and> contacted F (ni_peer_addr ni)
     | PostSend p m \<Rightarrow> may_send F (peer_addr p) (UserMsg m) \<and> contacted F (peer_addr p) \<and>
         (\<forall>ni. p = PeerNode ni \<longrightarrow> may_know F ni)
     | PostQueryEcho ni _ \<Rightarrow> may_know F ni
     | PostProxies ps ex \<Rightarrow> (\<forall>ni \<in> set ps. may_cache F ni) \<and> cache_ok F (bootstrap_cache (install_proxies ps ex w))
     | AttemptConnected t \<Rightarrow> (\<forall>a. attempts w t = Some a \<longrightarrow> leads_to F (next_q w) a \<and>
         (\<forall>crt. expected_cert w a = Some crt \<and> may_know F (node_at a crt) \<longrightarrow> verified F (node_at a crt)))
     | IncomingConnection a \<Rightarrow> leads_to F (next_q w) a
     | ReadFinished a (Inr raw) \<Rightarrow> (\<forall>m. from_raw (msg_codec E) raw = Inr m \<longrightarrow> may_recv F a m)
     | _ \<Rightarrow> True)"

section \<open>Handlers\<close>

text \<open>
  The messages the library sends on its own account have to be allowed: a client's
  handshake, a node's handshake with our certificate \<open>cert\<close>, and requests and responses of the echo service. A node
  that is verified and contacted may be cached, a cached one is known, adding a node that
  may be cached keeps a cache right, and a node is known by the certificate of its
  handshake.
\<close>

locale message_flow =
  fixes E :: extern
    and F :: flow_rules
    and cert :: bytes
  assumes greet_client: "is_client F \<Longrightarrow> may_send F a (Handshake HandshakeClient)"
    and greet_node: "may_send F a (Handshake (HandshakeNode cert))"
    and ask_echo: "may_send F a EndpointEchoReq"
    and answer_echo: "may_send F a (EndpointEchoResp a)"
    and cache_contacted: "verified F ni \<Longrightarrow> contacted F (ni_peer_addr ni) \<Longrightarrow> may_cache F ni"
    and know_cached: "may_cache F ni \<Longrightarrow> may_know F ni"
    and cache_step: "cache_ok F bc \<Longrightarrow> may_cache F ni \<Longrightarrow> cache_ok F (fst (add_peer P ni (bc, d)))"
    and know_handshake: "may_recv F a (Handshake (HandshakeNode crt)) \<Longrightarrow> may_know F (node_at a crt)"
begin

lemma flow_cache:
  assumes "flow E F w" and "may_cache F ni"
  shows "flow E F (cache_add_peer E' ni w)"
proof -
  let ?st = "(bootstrap_cache w, the_disk w)"
  obtain bc d where bc: "add_peer (peers_codec E') ni ?st = (bc, d)" by fastforce
  have "set (peers bc) \<subseteq> insert ni (set (peers (bootstrap_cache w)))"
    using bcache.entries_subset [of "peers_codec E'" ni ?st] bc by simp
  moreover have "hard_coded_contacts bc = hard_coded_contacts (bootstrap_cache w)"
    using hard_coded_add_peer [of "peers_codec E'" ni ?st] bc by simp
  moreover have "cache_ok F bc"
    using cache_step [of "bootstrap_cache w" ni "peers_codec E'" "the_disk w"] assms bc
    by (simp add: flow_def cache_flow_def)
  ultimately have "cache_flow F bc" using assms by (auto simp: flow_def cache_flow_def)
  then show ?thesis using assms(1) bc by (simp add: cache_add_peer_def flow_def)
qed

lemma flow_write:
  "flow E F w \<Longrightarrow> leads_to F q a \<Longrightarrow> may_send F a m \<Longrightarrow> flow E F (write_to_peer_connection a q m w)"
  by (auto simp: flow_def writes_flow_def write_to_peer_connection_def)

lemma flow_entry:
  assumes "entry_or_insert maker a t w = (c, w1)" and "flow E F w"
  shows "flow E F w1 \<and> conn_flow F a c"
proof (cases "connections w a")
  case (Some c')
  then show ?thesis using assms by (auto simp: entry_or_insert_def intro: flow_conn)
next
  case None
  let ?w1 = "snd (make_group_ref maker a t w)"
  have cf: "conn_flow F a c" and w1: "w1 = put_conn a c (?w1\<lparr>killers := killers ?w1 @ [a]\<rparr>)"
    using assms(1) None by (auto simp: entry_or_insert_conv conn_flow_def Let_def)
  have "flow E F (?w1\<lparr>killers := killers ?w1 @ [a]\<rparr>)" using flow_make_group_ref [OF assms(2)] by simp
  then show ?thesis using flow_put [OF _ cf] cf unfolding w1 put_conn_def by blast
qed

lemma flow_initiate:
  assumes "initiate_connection E ni msg maker t c w = Inr (r, w')" and "flow E F w"
    and "conn_flow F (ni_peer_addr ni) c" and "\<And>m. msg = Some m \<Longrightarrow> may_send F (ni_peer_addr ni) m"
    and "may_know F ni"
  shows "flow E F w'"
proof -
  let ?a = "ni_peer_addr ni"
  obtain c' w1 where w': "w' = w1\<lparr>connections := (connections w1)(?a \<mapsto> c')\<rparr> \<or>
      w' = w1\<lparr>connections := (connections w1)(?a \<mapsto> c'), attempts := (attempts w1)(t \<mapsto> ?a)\<rparr>"
    and w1: "w1 = w \<or> w1 = snd (make_group_ref maker ?a t w)"
    and c': "to_peer c' = TpInitiated t (ni_peer_cert_der ni) (case msg of None \<Rightarrow> [] | Some m \<Rightarrow> [m])"
      "from_peer c' = from_peer c \<or> from_peer c' = FpNotNeeded \<and> our_type w = OurClient" "we_contacted_peer c' = we_contacted_peer c"
    using assms(1)
    by (auto simp: initiate_connection_def Let_def
        split: if_split_asm option.split_asm prod.split_asm) force+
  have "may_know F (node_at ?a (ni_peer_cert_der ni))" using assms(5) by (cases ni) simp
  then have known: "known_addr F ?a" by (auto simp: known_addr_def)
  have "may_know F (node_at ?a (ni_peer_cert_der ni))" "our_type w = OurClient \<Longrightarrow> is_client F"
    using assms(2,5) by (cases ni; simp add: flow_def)+
  then have "conn_flow F ?a c'" using assms(3,4) c' by (auto simp: conn_flow_def split: option.split)
  moreover have "flow E F w1" using w1 assms(2) flow_make_group_ref by blast
  ultimately show ?thesis
    using w' flow_put [of E F w1 ?a c'] flow_dial [OF _ known, of E "w1\<lparr>connections := _\<rparr>"] by auto
qed

lemma flow_connect_to:
  assumes "connect_to E ni msg maker w = Inr (r, w')" and "flow E F w"
    and "may_know F ni" and "\<And>m. msg = Some m \<Longrightarrow> may_send F (ni_peer_addr ni) m"
  shows "flow E F w'"
  using assms(1)
proof (cases rule: connect_to_cases)
  case (bad_cert e)
  then show ?thesis using assms(2) flow_handle_connect_err by auto
next
  case (entry c w1 r2 w2)
  have w1: "flow E F w1" "conn_flow F (ni_peer_addr ni) c" using flow_entry [OF entry(1)] assms(2) by simp_all
  have "flow E F w2" using entry(2) flow_initiate [OF _ w1] assms(3,4) w1(1) by (auto split: if_splits)
  then show ?thesis using entry(3) flow_handle_connect_err by blast
qed

lemma flow_write_or_queue:
  assumes "write_or_queue ni m w = (r, w')" and "flow E F w" and "may_send F (ni_peer_addr ni) m"
  shows "flow E F w'" and "r = None \<or> r = Some m"
proof -
  let ?a = "ni_peer_addr ni"
  obtain c w1 where eq: "entry_or_insert None ?a 0 w = (c, w1)" by fastforce
  have w1: "flow E F w1" "conn_flow F ?a c" using flow_entry [OF eq assms(2)] by simp_all
  have "conn_flow F ?a (c\<lparr>to_peer := TpInitiated t crt (sends @ [m])\<rparr>)"
    if "to_peer c = TpInitiated t crt sends" for t crt sends
    using w1(2) assms(3) that by (auto simp: conn_flow_def)
  then show "flow E F w'"
    using assms(1,3) eq w1 flow_put [OF w1(1)] flow_write [OF w1(1) _ assms(3)]
    by (auto simp: write_or_queue_def conn_flow_def split: to_peer.splits)
  show "r = None \<or> r = Some m" using assms(1) eq by (auto simp: write_or_queue_def Let_def split: to_peer.splits)
qed

lemma flow_try_write:
  assumes "try_write_to_peer E p m w = Inr w'" and "flow E F w" and "may_send F (peer_addr p) m"
    and "\<And>ni. p = PeerNode ni \<Longrightarrow> may_know F ni"
  shows "flow E F w'"
proof (cases p)
  case (PeerClient a)
  have "flow E F (write_to_peer a m w)"
    using assms(2,3) flow_conn [OF assms(2), of a] PeerClient
    by (auto simp: write_to_peer_def conn_flow_def intro!: flow_write
        split: option.splits to_peer.splits from_peer.splits)
  then show ?thesis using assms(1) PeerClient by (simp add: try_write_to_peer_def)
next
  case (PeerNode ni)
  then have ms: "may_send F (ni_peer_addr ni) m" using assms(3) by simp
  obtain r w2 where wq: "write_or_queue ni m w = (r, w2)" by fastforce
  note w2 = flow_write_or_queue [OF wq assms(2) ms]
  show ?thesis
  proof (cases r)
    case None
    then show ?thesis using assms(1) PeerNode wq w2 by (simp add: try_write_to_peer_def)
  next
    case (Some m')
    then obtain x where "connect_to E ni (Some m) None w2 = Inr (x, w')"
      using assms(1) PeerNode wq w2(2) by (auto simp: try_write_to_peer_def split: sum.splits)
    then show ?thesis using flow_connect_to [OF _ w2(1)] ms assms(4) PeerNode by blast
  qed
qed

lemma flow_dispatch:
  assumes "take_and_dispatch E p q b m w = Inr w'" and "flow E F w"
    and "leads_to F q (peer_addr p)" and "may_recv F (peer_addr p) m"
    and "\<And>ni. p = PeerNode ni \<Longrightarrow> verified F ni" and "b \<Longrightarrow> contacted F (peer_addr p)"
  shows "flow E F w'"
proof (cases m)
  case (UserMsg bs)
  have "flow E F (send_event (NewMessage (peer_addr p) bs) (w\<lparr>our_ext_addr_tx := None\<rparr>))"
    using assms(2,4) UserMsg by (intro flow_send_event) simp_all
  then have "flow E F (handle_user_msg E p bs b (w\<lparr>our_ext_addr_tx := None\<rparr>))"
    using assms(5,6) flow_cache cache_contacted by (auto simp: handle_user_msg_def Let_def split: peer.split)
  then show ?thesis using assms(1) UserMsg by (auto simp: take_and_dispatch_def dispatch_wire_msg_def flow_inform)
qed (use assms flow_write [OF _ assms(3) answer_echo] flow_echo_answer [OF assms(2)] in
    \<open>auto simp: take_and_dispatch_def dispatch_wire_msg_def handle_echo_req_def handle_echo_resp_def
      flow_inform split: option.splits\<close>)

lemma flow_dispatch_all:
  assumes "fold_p (take_and_dispatch E p q b) reads w = Inr w'" and "flow E F w"
    and "leads_to F q (peer_addr p)" and "\<forall>m \<in> set reads. may_recv F (peer_addr p) m"
    and "\<And>ni. p = PeerNode ni \<Longrightarrow> verified F ni" and "b \<Longrightarrow> contacted F (peer_addr p)"
  shows "flow E F w'"
  by (rule fold_p_invariant [where I = "flow E F", OF assms(1,2)]) (use assms(3-6) flow_dispatch in blast)

lemma flow_greet:
  assumes "greet_peer E a q (node_at a crt) c w = Inr ((c', acc), w')" and "flow E F w"
    and "conn_flow F a c" and "leads_to F q a" and "verified F (node_at a crt)"
    and "cert_der (our_complete_cert w) = cert"
  shows "flow E F w'" and "conn_flow F a (c'\<lparr>to_peer := TpEstablished crt q\<rparr>)"
proof -
  have "flow E F w' \<and> conn_flow F a (c'\<lparr>to_peer := TpEstablished crt q\<rparr>)"
  proof (cases "from_peer c")
    case FpNoConnection
    then show ?thesis
      using assms flow_write [OF assms(2,4) greet_node] by (auto simp: greet_peer_def conn_flow_def)
  next
    case FpNotNeeded
    let ?w1 = "write_to_peer_connection a q (Handshake HandshakeClient) w"
    obtain ev w2 where ev: "take_group_ref_event (bootstrap_group_ref c) (node_at a crt) ?w1 = (ev, w2)"
      by fastforce
    then have "flow E F (send_event ev w2)"
      using flow_take flow_write [OF assms(2,4) greet_client] assms(3,5) FpNotNeeded by (simp add: conn_flow_def)
    then show ?thesis using assms(1,3-5) FpNotNeeded ev by (auto simp: greet_peer_def conn_flow_def)
  next
    case (FpEstablished fq reads)
    obtain ev w1 where ev: "take_group_ref_event (bootstrap_group_ref c) (node_at a crt) w = (ev, w1)"
      by fastforce
    have "flow E F (send_event ev w1)" using flow_take [OF ev assms(2,5)] .
    then show ?thesis
      using assms FpEstablished ev flow_dispatch_all [of "PeerNode (node_at a crt)" q "we_contacted_peer c" reads]
      by (auto simp: greet_peer_def conn_flow_def split: sum.splits)
  qed
  then show "flow E F w'" and "conn_flow F a (c'\<lparr>to_peer := TpEstablished crt q\<rparr>)" by simp_all
qed

lemma flow_flush:
  "flow E F w \<Longrightarrow> leads_to F q a \<Longrightarrow> \<forall>m \<in> set ms. may_send F a m \<Longrightarrow>
    flow E F (flush_pending_sends a q ms w)"
  unfolding flush_pending_sends_def by (induction ms arbitrary: w) (simp_all add: flow_write)

lemma flow_new_connection_res:
  assumes "handle_new_connection_res E a res w = Inr w'" and "flow E F w"
    and "\<And>q. res = Inr q \<Longrightarrow> leads_to F q a" and "cert_der (our_complete_cert w) = cert"
    and "\<And>q crt. res = Inr q \<Longrightarrow> expected_cert w a = Some crt \<Longrightarrow> may_know F (node_at a crt) \<Longrightarrow>
      verified F (node_at a crt)"
  shows "flow E F w'"
proof (cases res)
  case (Inl e)
  then show ?thesis using assms(1,2) flow_handle_connect_err by (auto simp: handle_new_connection_res_def)
next
  case (Inr q)
  let ?w0 = "w\<lparr>drivers := drivers w @ [(q, a, Outgoing)]\<rparr>"
  show ?thesis
  proof (cases "\<exists>c t crt sends. connections w a = Some c \<and> to_peer c = TpInitiated t crt sends")
    case False
    then show ?thesis
      using Inr assms(1,2) by (auto simp: handle_new_connection_res_def flow_drop_q_conn Let_def
          split: option.splits to_peer.splits)
  next
    case True
    then obtain c t crt sends where c: "connections w a = Some c" "to_peer c = TpInitiated t crt sends"
      by blast
    let ?ni = "\<lparr>ni_peer_addr = a, ni_peer_cert_der = crt\<rparr>"
    define w1 where "w1 = (if we_contacted_peer c then cache_add_peer E ?ni ?w0 else ?w0)"
    have cf: "conn_flow F a c" using flow_conn [OF assms(2) c(1)] .
    then have know: "verified F ?ni" and "we_contacted_peer c \<Longrightarrow> contacted F a"
      using c assms(5) [OF Inr] by (simp_all add: conn_flow_def expected_cert_def)
    then have w1: "flow E F w1" "cert_der (our_complete_cert w1) = cert"
      using assms(2,4) flow_cache [of ?w0] cache_contacted [of ?ni] by (simp_all add: w1_def)
    obtain c1 acc w2 where r: "greet_peer E a q ?ni c w1 = Inr ((c1, acc), w2)"
      using assms(1) Inr c by (auto simp: handle_new_connection_res_def w1_def Let_def split: sum.splits)
    note g = flow_greet [OF r w1(1) cf assms(3) [OF Inr] know w1(2)]
    have "flow E F (put_conn a (c1\<lparr>to_peer := TpEstablished crt q\<rparr>) (flush_pending_sends a q sends w2))"
      unfolding put_conn_def using g assms(3) [OF Inr] cf c(2)
      by (intro flow_put flow_flush) (simp_all add: conn_flow_def)
    then show ?thesis
      using assms(1) handle_new_connection_res_conv [OF c refl w1_def r] Inr
      by (auto simp: flow_try_send Let_def split: if_splits)
  qed
qed

lemma flow_new_conn:
  assumes "flow E F w" and "leads_to F q a"
  shows "flow E F (handle_new_conn a q w)"
proof -
  let ?w0 = "w\<lparr>drivers := drivers w @ [(q, a, Incoming)]\<rparr>"
  obtain c w1 where eq: "entry_or_insert None a 0 ?w0 = (c, w1)" by fastforce
  have w1: "flow E F w1" "conn_flow F a c" using flow_entry [OF eq] assms(1) by simp_all
  let ?est = "\<lambda>ro w. w\<lparr>connections := (connections w)(a \<mapsto>
      c\<lparr>from_peer := FpEstablished q [], bootstrap_group_ref := ro\<rparr>)\<rparr>"
  have put: "flow E F (?est ro w2)" if "flow E F w2" for w2 ro
    using that w1(2) assms(2) by (intro flow_put) (auto simp: conn_flow_def)
  show ?thesis
  proof (cases "fp_is_no_connection (from_peer c) \<and> tp_is_established (to_peer c)")
    case False
    then show ?thesis
      using eq w1 put [OF w1(1), of "bootstrap_group_ref c"]
      by (auto simp: handle_new_conn_def flow_drop_q_conn read_from_peer_def Let_def split: to_peer.splits)
  next
    case True
    then obtain crt tq where tp: "to_peer c = TpEstablished crt tq" by (cases "to_peer c") auto
    obtain ev w2 where ev: "take_group_ref_event (bootstrap_group_ref c)
        \<lparr>ni_peer_addr = a, ni_peer_cert_der = crt\<rparr> w1 = (ev, w2)" by fastforce
    have "flow E F (send_event ev w2)" using flow_take [OF ev w1(1)] w1(2) tp by (simp add: conn_flow_def)
    then show ?thesis using True tp eq ev put [of "send_event ev w2" None]
      by (simp add: handle_new_conn_def read_from_peer_def)
  qed
qed

lemma flow_wire_msg_data:
  assumes "handle_wire_msg E a m w = Inr w'" and "flow E F w" and "may_recv F a m" and "\<not> is_handshake m"
  shows "flow E F w'"
proof (cases "connections w a")
  case None
  then show ?thesis using assms by (cases m) (auto simp: handle_wire_msg_def)
next
  case (Some c)
  have cf: "conn_flow F a c" using flow_conn [OF assms(2) Some] .
  have queue: "flow E F (w\<lparr>connections := (connections w)(a \<mapsto> c\<lparr>from_peer := FpEstablished q (reads @ [m])\<rparr>)\<rparr>)"
    if "from_peer c = FpEstablished q reads" for q reads
    using that cf assms(3) by (intro flow_put [OF assms(2)]) (auto simp: conn_flow_def)
  have client: "flow E F w'"
    if "take_and_dispatch E (PeerClient a) q (we_contacted_peer c) m w = Inr w'" "leads_to F q a" for q
    using flow_dispatch [OF that(1) assms(2)] that(2) assms(3) cf by (simp add: conn_flow_def)
  have node: "flow E F w'"
    if "take_and_dispatch E (node_info_into_peer (node_at a crt)) q (we_contacted_peer c) m w = Inr w'"
      "to_peer c = TpEstablished crt q" for crt q
    using flow_dispatch [OF that(1) assms(2)] that(2) assms(3) cf
    by (simp add: conn_flow_def node_info_into_peer_def)
  have eq: "handle_wire_msg E a m w =
      (case from_peer c of
         FpNotNeeded \<Rightarrow> (case to_peer c of
             TpEstablished crt q \<Rightarrow> take_and_dispatch E
               (node_info_into_peer \<lparr>ni_peer_addr = a, ni_peer_cert_der = crt\<rparr>) q (we_contacted_peer c) m w
           | _ \<Rightarrow> Inr w)
       | FpEstablished q reads \<Rightarrow> (case to_peer c of
             TpNotNeeded \<Rightarrow> take_and_dispatch E (PeerClient a) q (we_contacted_peer c) m w
           | TpEstablished crt tq \<Rightarrow> take_and_dispatch E
               (node_info_into_peer \<lparr>ni_peer_addr = a, ni_peer_cert_der = crt\<rparr>) tq (we_contacted_peer c) m w
           | _ \<Rightarrow> Inr (w\<lparr>connections := (connections w)(a \<mapsto>
                 c\<lparr>from_peer := FpEstablished q (reads @ [m])\<rparr>)\<rparr>))
       | FpNoConnection \<Rightarrow> Inl UnreachableNoConnectionForMessage)"
    using assms(4) Some
    by (cases m) (simp_all add: handle_wire_msg_def split: from_peer.split to_peer.split)
  show ?thesis
  proof (cases "from_peer c")
    case FpNoConnection
    then show ?thesis using eq assms(1) by simp
  next
    case FpNotNeeded
    then show ?thesis using eq assms(1,2) by (cases "to_peer c") (auto intro: node)
  next
    case (FpEstablished q reads)
    then have "leads_to F q a" using cf by (simp add: conn_flow_def)
    then show ?thesis
      using FpEstablished eq assms(1,2) queue by (cases "to_peer c") (auto intro: node client)
  qed
qed

lemma flow_wire_msg:
  assumes "handle_wire_msg E a m w = Inr w'" and "flow E F w" and "may_recv F a m"
  shows "flow E F w'"
proof (cases m)
  case (Handshake h)
  show ?thesis
  proof (cases h)
    case (HandshakeNode crt)
    then show ?thesis
      using assms Handshake know_handshake [of a crt] flow_connect_to [of "node_at a crt" None]
      by (auto simp: handle_wire_msg_def handle_rx_handshake_def handle_rx_cert_def Let_def
          split: if_splits sum.splits)
  next
    case HandshakeClient
    have "flow E F (send_event (ConnectedTo (PeerClient a))
        (w\<lparr>connections := (connections w)(a \<mapsto> c\<lparr>to_peer := TpNotNeeded\<rparr>)\<rparr>))"
      if "connections w a = Some c" for c
      using flow_conn [OF assms(2) that] assms(2,3) Handshake HandshakeClient
      by (intro flow_send_event flow_put) (simp_all add: conn_flow_def)
    then show ?thesis
      using assms(1,2) Handshake HandshakeClient
      by (auto simp: handle_wire_msg_def handle_rx_handshake_def split: option.splits to_peer.splits)
  qed
qed (use flow_wire_msg_data [OF assms] in simp_all)

lemma flow_start:
  assumes "start E w = Inr w'" and "flow E F w"
  shows "flow E F w'"
proof -
  let ?w1 = "snd (group_maker_new w)"
  let ?f = "\<lambda>proxy w'. case connect_to E proxy None (Some (next_group w)) w' of
      Inl p \<Rightarrow> Inl p | Inr (_, w') \<Rightarrow> Inr w'"
  obtain w2 where w2: "fold_p ?f (proxies_of w) ?w1 = Inr w2" "w' = drop_group_maker (next_group w) w2"
    using assms(1) by (auto simp: start_def group_maker_new_def split: sum.splits)
  have w1: "flow E F ?w1" using assms(2) by (simp add: group_maker_new_def flow_def)
  have know: "may_know F ni" if "ni \<in> set (proxies_of w)" for ni
    using that assms(2) know_cached by (auto simp: proxies_of_def flow_def cache_flow_def)
  have "flow E F w2"
    by (rule fold_p_invariant [where I = "flow E F", OF w2(1) w1]) (auto intro: flow_connect_to dest: know split: sum.splits)
  then show ?thesis unfolding w2(2) drop_group_maker_def by (rule flow_drop_group_rc)
qed

lemma flow_read_task:
  assumes "run_read_task E a out w = Inr w'" and "flow E F w"
    and "\<And>raw m. out = Inr raw \<Longrightarrow> from_raw (msg_codec E) raw = Inr m \<Longrightarrow> may_recv F a m"
  shows "flow E F w'"
  using assms flow_comm_err [OF assms(2)] flow_wire_msg
  by (auto simp: run_read_task_def split: sum.splits if_splits)

lemma flow_write_task:
  assumes "run_write_task E t out w = Inr w'" and "flow E F w"
    and "leads_to F (wt_q_conn t) (wt_peer_addr t)" and "may_send F (wt_peer_addr t) (wt_msg t)"
  shows "flow E F w'"
proof -
  have "flow E F (w\<lparr>wire := wire w @ [(wt_q_conn t, bs)]\<rparr>)" if "into_bytes (msg_codec E) (wt_msg t) = Inr bs" for bs
    using assms(2-4) that by (auto simp: flow_def wire_flow_def)
  then show ?thesis
    using assms(1,2) flow_comm_err
    by (auto simp: run_write_task_def Let_def split: write_outcome.splits sum.splits)
qed

lemma flow_writes_remove: "flow E F w \<Longrightarrow> flow E F (w\<lparr>writes := remove1 t (writes w)\<rparr>)"
  using set_remove1_subset [of t "writes w"] by (auto simp: flow_def writes_flow_def)

lemma flow_step:
  assumes "el_step E w l (Inr w')" and "flow E F w" and "input_ok E F w l"
    and "cert_der (our_complete_cert w) = cert"
  shows "flow E F w'"
  using assms(1)
proof cases
  case post_bootstrap
  then show ?thesis using assms(2) flow_start by (simp add: qp2p_bootstrap_def)
next
  case (post_connect_to ni)
  then show ?thesis
    using assms(2,3) flow_connect_to [of ni None None w] flow_set_contacted
    by (auto simp: qp2p_connect_to_def input_ok_def split: sum.splits)
next
  case (post_send p m)
  then show ?thesis
    using assms(2,3) flow_try_write [of p "UserMsg m" w] flow_set_contacted
    by (auto simp: qp2p_send_def input_ok_def split: sum.splits)
next
  case (post_query_echo ni ch)
  then show ?thesis
    using assms(2,3) flow_try_write [of "PeerNode ni" EndpointEchoReq _ w'] ask_echo
    by (auto simp: register_and_ask_echo_def input_ok_def flow_inform)
next
  case (attempt_connected t a)
  let ?w0 = "w\<lparr>next_q := Suc (next_q w)\<rparr>"
  obtain w1 where w1: "handle_new_connection_res E a (Inr (next_q w)) ?w0 = Inr w1" "w' = finish_attempt t w1"
    using bind_p_Inr_conv [THEN iffD1, OF attempt_connected(2) [symmetric]] by blast
  have "flow E F w1"
    using flow_new_connection_res [OF w1(1)] assms(2-4) attempt_connected
    by (simp add: input_ok_def expected_cert_def)
  then show ?thesis unfolding w1(2) by (rule flow_finish)
next
  case (incoming_connection a)
  then show ?thesis using assms(2,3) flow_new_conn by (simp add: input_ok_def)
next
  case (read_finished a out)
  then show ?thesis
    using flow_read_task [of a out "w\<lparr>stream_reads := remove1 a (stream_reads w)\<rparr>" w'] assms(2,3)
    by (cases out) (simp_all add: input_ok_def)
next
  case (write_finished t out)
  then have "leads_to F (wt_q_conn t) (wt_peer_addr t)" "may_send F (wt_peer_addr t) (wt_msg t)"
    using assms(2) by (auto simp: flow_def writes_flow_def)
  then show ?thesis using write_finished flow_write_task [OF _ flow_writes_remove [OF assms(2)]] by metis
next
  case (post_proxies ps ex)
  then show ?thesis using assms(2,3) by (auto simp: install_proxies_def input_ok_def flow_def cache_flow_def Let_def)
next
  case (killer_fired a)
  then show ?thesis using assms(2) flow_remove [of E F "w\<lparr>killers := _\<rparr>"]
    by (auto simp: incomplete_conn_killer_fires_def split: option.splits)
qed (use assms(2) in \<open>auto simp: qp2p_disconnect_from_def install_proxies_def handle_new_connection_res_def
      read_peer_stream_def Let_def intro: flow_finish flow_remove flow_comm_err flow_handle_connect_err\<close>)

end

end
