(* ===== verification/Network.thy ===== *)
theory Network
  imports Message_Flow Scenario
begin

text \<open>
  Several instances of the library talking to each other. A network is the worlds of
  its members by address. QUIC and the addresses of the peers are what the
  sources rely on and do not contain: what a member reads from another member of
  the network is what that one wrote on a connection that leads to the reader. Peers
  outside the network may send anything. A connection comes in from a member only after
  that member has dialled. Whether an attempt to reach a peer succeeds is open: the
  certificate it was started with is handed to TLS as an authority, and nothing is
  assumed of which certificates TLS then accepts. The proof composes \<open>message_flow\<close> of
  the members into a statement about the network.
\<close>

section \<open>Networks\<close>

text \<open>
  \<open>starts\<close> are the worlds the members began with and \<open>history\<close> the steps since then;
  \<open>ends n x q\<close> is the address that the QUIC connection \<open>q\<close> of the member \<open>x\<close> leads to, and
  \<open>dials n x\<close> are the addresses that \<open>x\<close> has tried to connect to.
\<close>

record network =
  members :: "socket_addr \<rightharpoonup> world"
  starts :: "socket_addr \<rightharpoonup> world"
  history :: "(socket_addr \<times> label) list"
  ends :: "socket_addr \<Rightarrow> nat \<rightharpoonup> socket_addr"
  dials :: "socket_addr \<Rightarrow> socket_addr list"

definition net_delivers :: "network \<Rightarrow> socket_addr \<Rightarrow> label \<Rightarrow> bool" where
  "net_delivers n x l \<longleftrightarrow>
    (case l of
       IncomingConnection a \<Rightarrow> members n a = None \<or> x \<in> set (dials n a)
     | ReadFinished a (Inr raw) \<Rightarrow>
         (case members n a of
            None \<Rightarrow> True
          | Some wa \<Rightarrow> list_ex (\<lambda>(q, bs). bs = raw \<and> ends n a q = Some x) (wire wa))
     | _ \<Rightarrow> True)"

definition net_new_end :: "world \<Rightarrow> label \<Rightarrow> socket_addr option" where
  "net_new_end w l =
    (case l of
       AttemptConnected t \<Rightarrow> attempts w t
     | IncomingConnection a \<Rightarrow> Some a
     | _ \<Rightarrow> None)"

definition net_update :: "socket_addr \<Rightarrow> world \<Rightarrow> label \<Rightarrow> world \<Rightarrow> network \<Rightarrow> network" where
  "net_update x w l w' n =
    \<lparr>members = (members n)(x \<mapsto> w'), starts = starts n, history = history n @ [(x, l)],
     ends = (case net_new_end w l of
               None \<Rightarrow> ends n
             | Some a \<Rightarrow> (ends n)(x := (ends n x)(next_q w \<mapsto> a))),
     dials = (dials n)(x := dials n x @ List.map_filter (attempts w') [next_term w..<next_term w'])\<rparr>"

text \<open>
  One member takes a step of its event loop. A panic ends that member's loop: it
  takes no further step, which the choice of the member covers.
\<close>

inductive net_step ::
  "(socket_addr \<Rightarrow> extern) \<Rightarrow> network \<Rightarrow> socket_addr \<times> label \<Rightarrow> panic + network \<Rightarrow> bool" for E where
  member_steps:
    "members n x = Some w \<Longrightarrow> net_delivers n x l \<Longrightarrow> el_step (E x) w l (Inr w') \<Longrightarrow>
     net_step E n (x, l) (Inr (net_update x w l w' n))"
| member_panics:
    "members n x = Some w \<Longrightarrow> net_delivers n x l \<Longrightarrow> el_step (E x) w l (Inl p) \<Longrightarrow>
     net_step E n (x, l) (Inl p)"

inductive_simps net_step_simps:
  "net_step E n (x, l) (Inr n')"
  "net_step E n (x, l) (Inl p)"

definition net_initial :: "network \<Rightarrow> bool" where
  "net_initial n \<longleftrightarrow>
    (\<forall>x w. members n x = Some w \<longrightarrow> initial_world w) \<and> starts n = members n \<and> history n = [] \<and>
    ends n = (\<lambda>_. Map.empty) \<and> dials n = (\<lambda>_. [])"

definition net_reachable :: "(socket_addr \<Rightarrow> extern) \<Rightarrow> network \<Rightarrow> bool" where
  "net_reachable E = reach net_initial (net_step E)"

text \<open>The steps as a function, for concrete runs.\<close>

fun net_run :: "(socket_addr \<Rightarrow> extern) \<Rightarrow> (socket_addr \<times> label) list \<Rightarrow> network \<Rightarrow> network option" where
  "net_run E [] n = Some n"
| "net_run E ((x, l) # ls) n =
    (case members n x of
       None \<Rightarrow> None
     | Some w \<Rightarrow>
         if net_delivers n x l
         then (case el_exec (E x) w l of
                 Some (Inr w') \<Rightarrow> net_run E ls (net_update x w l w' n)
               | _ \<Rightarrow> None)
         else None)"

lemma net_run_reachable:
  "net_run E ls n = Some n' \<Longrightarrow> net_reachable E n \<Longrightarrow> net_reachable E n'"
proof (induction E ls n rule: net_run.induct)
  case (2 E x l ls n)
  then obtain w w' where w: "members n x = Some w" "net_delivers n x l" "el_exec (E x) w l = Some (Inr w')"
      "net_run E ls (net_update x w l w' n) = Some n'"
    by (auto split: option.splits if_splits sum.splits)
  then have "net_step E n (x, l) (Inr (net_update x w l w' n))"
    by (simp add: member_steps el_step_exec)
  then show ?case using "2.IH" w "2.prems"(2) reach_step by (fastforce simp: net_reachable_def)
qed simp

section \<open>What the users asked for\<close>

text \<open>The calls of \<open>QuicP2p::send\<close> that ran: who, to whom, what\<close>

definition asked :: "network \<Rightarrow> (socket_addr \<times> socket_addr \<times> bytes) set" where
  "asked n = {(x, peer_addr p, m) | x p m. (x, PostSend p m) \<in> set (history n)}"

text \<open>The addresses a member's user contacted, and the nodes and proxies it named\<close>

definition called :: "network \<Rightarrow> socket_addr \<Rightarrow> socket_addr set" where
  "called n x = {ni_peer_addr ni | ni. (x, PostConnectTo ni) \<in> set (history n)} \<union>
    {a. \<exists>m. (x, a, m) \<in> asked n}"

definition proxied :: "network \<Rightarrow> socket_addr \<Rightarrow> node_info set" where
  "proxied n x = {ni. \<exists>ps ex. (x, PostProxies ps ex) \<in> set (history n) \<and> ni \<in> set ps} \<union>
    (case starts n x of None \<Rightarrow> {} | Some w \<Rightarrow> set (peers (bootstrap_cache w)))"

definition named :: "network \<Rightarrow> socket_addr \<Rightarrow> node_info set" where
  "named n x = {ni. (x, PostConnectTo ni) \<in> set (history n) \<or> (\<exists>m. (x, PostSend (PeerNode ni) m) \<in> set (history n)) \<or>
      (\<exists>ch. (x, PostQueryEcho ni ch) \<in> set (history n))} \<union> proxied n x \<union>
    (case starts n x of None \<Rightarrow> {} | Some w \<Rightarrow> set (hard_coded_contacts (bootstrap_cache w)))"

lemmas asking_defs = asked_def called_def proxied_def named_def

lemma asking_mono:
  "asked n \<subseteq> asked (net_update x w l w' n)" "called n y \<subseteq> called (net_update x w l w' n) y"
  "proxied n y \<subseteq> proxied (net_update x w l w' n) y" "named n y \<subseteq> named (net_update x w l w' n) y"
  by (auto simp: asking_defs net_update_def)

section \<open>A network runs the members' loops\<close>

lemma net_update_other: "y \<noteq> x \<Longrightarrow> members (net_update x w l w' n) y = members n y"
  by (simp add: net_update_def)

lemma net_update_self: "members (net_update x w l w' n) x = Some w'"
  by (simp add: net_update_def)

lemmas net_updates = net_update_other net_update_self

lemma net_member_reachable:
  assumes "net_reachable E n" and "members n x = Some w"
  shows "reachable (E x) w"
  using assms unfolding net_reachable_def
proof (induction arbitrary: w rule: reach.induct)
  case (reach_init n)
  then show ?case by (auto simp: net_initial_def intro: reachable_init)
next
  case (reach_step n l n')
  obtain y k where "l = (y, k)" by fastforce
  then obtain v v' where "members n y = Some v" "el_step (E y) v k (Inr v')" "n' = net_update y v k v' n"
    using reach_step.hyps(2) by (auto simp: net_step_simps)
  then show ?case
    using reach_step.IH reach_step.prems by (cases "x = y") (auto simp: net_updates intro: reachable_step)
qed

section \<open>What the network allows\<close>

definition net_cert :: "network \<Rightarrow> socket_addr \<Rightarrow> bytes" where
  "net_cert n x = (case members n x of None \<Rightarrow> [] | Some w \<Rightarrow> cert_der (our_complete_cert w))"

definition net_client :: "network \<Rightarrow> socket_addr \<Rightarrow> bool" where
  "net_client n x \<longleftrightarrow> (case members n x of None \<Rightarrow> False | Some w \<Rightarrow> our_type w = OurClient)"

fun net_may_send :: "network \<Rightarrow> socket_addr \<Rightarrow> socket_addr \<Rightarrow> wire_msg \<Rightarrow> bool" where
  "net_may_send n x a (UserMsg m) = ((x, a, m) \<in> asked n)"
| "net_may_send n x a (Handshake (HandshakeNode c)) = (c = net_cert n x)"
| "net_may_send n x a (Handshake HandshakeClient) = net_client n x"
| "net_may_send n x a EndpointEchoReq = True"
| "net_may_send n x a (EndpointEchoResp b) = (b = a)"

definition net_may_recv :: "wire_msg codec \<Rightarrow> network \<Rightarrow> socket_addr \<Rightarrow> socket_addr \<Rightarrow> wire_msg \<Rightarrow> bool" where
  "net_may_recv C n x a m \<longleftrightarrow>
    (case members n a of
       None \<Rightarrow> \<exists>raw. (x, ReadFinished a (Inr raw)) \<in> set (history n) \<and> from_raw C raw = Inr m
     | Some _ \<Rightarrow> (\<exists>q. ends n a q = Some x) \<and> (\<exists>m0 bs. net_may_send n a x m0 \<and> into_bytes C m0 = Inr bs \<and> from_raw C bs = Inr m))"

text \<open>A node is known because the user named it or because it sent its handshake.\<close>

definition net_may_know :: "wire_msg codec \<Rightarrow> network \<Rightarrow> socket_addr \<Rightarrow> node_info \<Rightarrow> bool" where
  "net_may_know C n x ni \<longleftrightarrow> ni \<in> named n x \<or>
    net_may_recv C n x (ni_peer_addr ni) (Handshake (HandshakeNode (ni_peer_cert_der ni)))"

text \<open>It is verified once a connection leads to its address.\<close>

definition net_verified :: "wire_msg codec \<Rightarrow> network \<Rightarrow> socket_addr \<Rightarrow> node_info \<Rightarrow> bool" where
  "net_verified C n x ni \<longleftrightarrow> net_may_know C n x ni \<and> (\<exists>q. ends n x q = Some (ni_peer_addr ni))"

definition net_may_cache :: "wire_msg codec \<Rightarrow> network \<Rightarrow> socket_addr \<Rightarrow> node_info \<Rightarrow> bool" where
  "net_may_cache C n x ni \<longleftrightarrow> ni \<in> proxied n x \<or> net_verified C n x ni \<and> ni_peer_addr ni \<in> called n x"

definition net_rules :: "wire_msg codec \<Rightarrow> network \<Rightarrow> socket_addr \<Rightarrow> flow_rules" where
  "net_rules C n x =
    \<lparr>may_send = net_may_send n x, may_recv = net_may_recv C n x, leads_to = (\<lambda>q a. ends n x q = Some a),
     may_know = net_may_know C n x, verified = net_verified C n x, contacted = (\<lambda>a. a \<in> called n x), may_cache = net_may_cache C n x,
     cache_ok = (\<lambda>_. True),
     is_client = net_client n x\<rparr>"

interpretation net_flow: message_flow "E x" "net_rules C n x" "net_cert n x" for E x C n
  by unfold_locales (auto simp: net_rules_def net_may_cache_def net_verified_def net_may_know_def named_def)

text \<open>The invariant: every member keeps its own, and every message is accounted for.\<close>

definition net_inv :: "(socket_addr \<Rightarrow> extern) \<Rightarrow> wire_msg codec \<Rightarrow> network \<Rightarrow> bool" where
  "net_inv E C n \<longleftrightarrow>
    (\<forall>x w. members n x = Some w \<longrightarrow>
       inv {} None w \<and> flow (E x) (net_rules C n x) w \<and> (\<forall>q \<ge> next_q w. ends n x q = None) \<and>
       (\<forall>a \<in> set (dials n x). known_addr (net_rules C n x) a))"

lemma net_invD:
  assumes "net_inv E C n" and "members n x = Some w"
  shows "inv {} None w" and "flow (E x) (net_rules C n x) w" and "a \<in> set (dials n x) \<Longrightarrow> known_addr (net_rules C n x) a"
  using assms by (simp_all add: net_inv_def)

lemma net_inv_initial:
  assumes "net_initial n"
  shows "net_inv E C n"
proof -
  have "flow (E x) (net_rules C n x) w" if "members n x = Some w" for x w
  proof -
    have "cache_flow (net_rules C n x) (bootstrap_cache w)"
      using that assms by (auto simp: net_initial_def cache_flow_def net_rules_def net_may_cache_def
          net_may_know_def asking_defs)
    moreover have "initial_world w" using that assms by (simp add: net_initial_def)
    moreover have "our_type w = OurClient \<longrightarrow> net_client n x" using that by (simp add: net_client_def)
    ultimately show ?thesis by (intro flow_initial) (simp_all add: net_rules_def)
  qed
  then show ?thesis using assms by (simp add: net_inv_def net_initial_def inv_initial)
qed

text \<open>Along a step the network only allows more.\<close>

lemma net_update_cert:
  assumes "members n x = Some w" and "el_step E w l (Inr w')"
  shows "net_cert (net_update x w l w' n) = net_cert n" and "net_client (net_update x w l w' n) = net_client n"
  using assms step_grows [OF assms(2)] by (auto simp: fun_eq_iff net_cert_def net_client_def net_update_def grows_def)

lemma net_may_send_mono:
  assumes "members n x = Some w" and "el_step E w l (Inr w')" and "net_may_send n y a m"
  shows "net_may_send (net_update x w l w' n) y a m"
  using assms(3) net_update_cert [OF assms(1,2)]
  by (cases "(n, y, a, m)" rule: net_may_send.cases) (auto dest: asking_mono(1) [THEN subsetD])

lemma net_rules_mono:
  assumes "members n x = Some w" and "el_step E w l (Inr w')" and "ends n x (next_q w) = None"
  shows "flow_le (net_rules C n y) (net_rules C (net_update x w l w' n) y)"
proof -
  let ?n = "net_update x w l w' n"
  have dom: "members ?n a = None \<longleftrightarrow> members n a = None" for a
    using assms(1) by (auto simp: net_update_def)
  have ends: "ends ?n z q = Some a" if "ends n z q = Some a" for z q a
    using that assms(3) by (auto simp: net_update_def split: option.split)
  have recv: "net_may_recv C ?n y a m" if "net_may_recv C n y a m" for a m
  proof (cases "members n a")
    case None
    then show ?thesis using that dom [of a] by (auto simp: net_may_recv_def net_update_def)
  next
    case (Some v)
    then have "members ?n a \<noteq> None" using dom by simp
    then show ?thesis
      using that Some ends [of a] net_may_send_mono [OF assms(1,2)] unfolding net_may_recv_def by fastforce
  qed
  have know: "net_may_know C ?n y ni" if "net_may_know C n y ni" for ni
    using that recv asking_mono(4) by (fastforce simp: net_may_know_def)
  have ver: "net_verified C ?n y ni" if "net_verified C n y ni" for ni
    using that know ends [of y] by (auto simp: net_verified_def)
  moreover from this have "net_may_cache C ?n y ni" if "net_may_cache C n y ni" for ni
    using that asking_mono(2,3) by (fastforce simp: net_may_cache_def)
  ultimately show ?thesis
    using net_may_send_mono [OF assms(1,2)] recv asking_mono(2) ends know
      net_update_cert(2) [OF assms(1,2)] by (fastforce simp: flow_le_def net_rules_def)
qed

lemma step_new_end:
  assumes "el_step E w l (Inr w')" and "net_new_end w l = Some a"
  shows "next_q w < next_q w'"
proof -
  let ?w0 = "w\<lparr>next_q := Suc (next_q w)\<rparr>"
  have "next_q w < next_q (handle_new_conn b (next_q w) ?w0)" for b
    using grows_new_conn [of ?w0 b "next_q w"] by (simp add: grows_def)
  moreover have "next_q w < next_q w1"
    if "handle_new_connection_res E b (Inr (next_q w)) ?w0 = Inr w1" for b w1
    using grows_new_connection_res [of ?w0 E b "Inr (next_q w)"] that by (simp add: grows_def)
  ultimately have "next_q w < next_q w'" if "l = AttemptConnected t \<or> l = IncomingConnection b" for t b
    using assms(1) that by (fastforce simp: el_step_simps finish_attempt_def dest: sym [of "Inr w'"]
        elim!: bind_p_Inr_conv [THEN iffD1, THEN exE])
  then show ?thesis using assms(2) by (auto simp: net_new_end_def split: label.splits)
qed

text \<open>What reaches a member respects what the network allows after the step.\<close>

lemma net_input_ok:
  assumes n: "net_inv E C n" and codec: "\<And>x. msg_codec (E x) = C" and x: "members n x = Some w"
    and del: "net_delivers n x l" and step: "el_step (E x) w l (Inr w')"
  shows "input_ok (E x) (net_rules C (net_update x w l w' n) x) w l"
proof -
  let ?n = "net_update x w l w' n"
  have fresh: "ends n x (next_q w) = None" using n x by (simp add: net_inv_def)
  have mono: "flow_le (net_rules C n x) (net_rules C ?n x)" by (rule net_rules_mono [OF x step fresh])
  have recv: "net_may_recv C ?n x a m" if rd: "l = ReadFinished a (Inr raw)" "from_raw C raw = Inr m" for a raw m
  proof (cases "members n a")
    case None
    then have "members ?n a = None" using x by (auto simp: net_update_def)
    then show ?thesis using rd by (auto simp: net_may_recv_def net_update_def)
  next
    case (Some wa)
    then obtain q where q: "(q, raw) \<in> set (wire wa)" "ends n a q = Some x"
      using del unfolding rd(1) by (auto simp: net_delivers_def list_ex_iff)
    have "flow (E a) (net_rules C n a) wa" using n Some by (simp add: net_inv_def)
    then obtain m0 where "net_may_send n a x m0" "into_bytes C m0 = Inr raw"
      using q codec by (fastforce simp: flow_def wire_flow_def net_rules_def)
    then have "net_may_recv C n x a m" using rd(2) q(2) Some by (auto simp: net_may_recv_def)
    then show ?thesis using mono by (simp add: flow_le_def net_rules_def)
  qed
  have "net_verified C ?n x (node_at a crt)"
    if "l = AttemptConnected t" "attempts w t = Some a" "net_may_know C ?n x (node_at a crt)" for t a crt
    using that by (auto simp: net_verified_def net_update_def net_new_end_def)
  then show ?thesis
    using codec recv by (auto simp: input_ok_def net_rules_def net_update_def net_new_end_def net_may_cache_def
        net_may_know_def asking_defs split: label.split sum.split)
qed

section \<open>The network as a transition system\<close>

text \<open>Members that serialise alike, the way \<open>bincode\<close> documents.\<close>

locale qp2p_network = bincode_wire C for C :: "wire_msg codec" +
  fixes E :: "socket_addr \<Rightarrow> extern"
  assumes codec: "msg_codec (E x) = C"
begin

lemma member_good:
  "inv {} None w \<Longrightarrow> el_step (E x) w l r \<Longrightarrow> good_result None w r"
  using step_good codec bincode_wire_axioms by simp

lemma net_inv_step:
  assumes n: "net_inv E C n" and step: "net_step E n (x, l) (Inr n')"
  shows "net_inv E C n'"
proof -
  obtain w w' where ie: "n' = net_update x w l w' n" "members n x = Some w" "net_delivers n x l"
      "el_step (E x) w l (Inr w')"
    using step by (auto simp: net_step_simps)
  have fresh: "ends n x (next_q w) = None" using n ie by (simp add: net_inv_def)
  have mono: "flow F (net_rules C n y) v \<Longrightarrow> flow F (net_rules C (net_update x w l w' n) y) v"
    "known_addr (net_rules C n y) a \<Longrightarrow> known_addr (net_rules C (net_update x w l w' n) y) a" for F y v a
    using flow_mono known_addr_mono net_rules_mono [OF ie(2,4) fresh, of C] by blast+
  have "flow (E x) (net_rules C n' x) w" using n mono(1) ie(1,2) by (simp add: net_inv_def)
  then have flow': "flow (E x) (net_rules C n' x) w'"
    using net_flow.flow_step [where E = E and x = x, OF ie(4) _ net_input_ok [OF n codec ie(2-4)]]
      net_update_cert [OF ie(2,4)] ie(1,2)
    by (simp add: net_cert_def)
  have "inv {} None w'" using member_good [OF _ ie(4)] n ie(2) by (simp add: net_inv_def)
  moreover have "ends n' x q = None" if "q \<ge> next_q w'" for q
    using that n ie(1,2) step_new_end [OF ie(4)] step_grows [OF ie(4)]
    by (cases "net_new_end w l") (auto simp: net_inv_def net_update_def grows_def)
  moreover have "known_addr (net_rules C n' x) a" if a: "a \<in> set (dials n' x)" for a
  proof (cases "a \<in> set (dials n x)")
    case True
    then show ?thesis using n ie(2) mono(2) [of x a] by (simp add: net_inv_def ie(1))
  next
    case False
    then obtain t where "attempts w' t = Some a"
      using a ie(1) by (auto simp: net_update_def List.map_filter_def)
    then show ?thesis using flow' by (auto simp: flow_def dials_flow_def)
  qed
  moreover have "inv {} None v \<and> flow (E y) (net_rules C n' y) v \<and> (\<forall>q \<ge> next_q v. ends n' y q = None) \<and>
      (\<forall>a \<in> set (dials n' y). known_addr (net_rules C n' y) a)" if y: "y \<noteq> x" "members n' y = Some v" for y v
  proof -
    have "members n y = Some v" "ends n' y = ends n y" "dials n' y = dials n y"
      using y ie(1) by (auto simp: net_update_def split: option.split)
    then show ?thesis using n mono(1) [of "E y" y v] mono(2) [of y] unfolding net_inv_def ie(1) by simp
  qed
  moreover have "members n' x = Some w'" using ie(1) by (simp add: net_update_self)
  ultimately show ?thesis using flow' unfolding net_inv_def by (metis option.inject)
qed

text \<open>
  A user message read off the wire was a user message when it was written, as it is
  or without the header that stays on one of 1013 to 1024 bytes: handshakes and echo
  messages are too short to be taken for one.
\<close>

lemma user_msg_origin:
  assumes "net_may_send n a x m0" and "into_bytes C m0 = Inr bs" and "from_raw C bs = Inr (UserMsg m)"
    and "length (net_cert n a) \<le> 1008" and "addr_ok x"
  shows "\<exists>u. (a, x, u) \<in> asked n \<and>
    (m = u \<or> 1012 < length u \<and> length u \<le> 1024 \<and> (\<exists>h. length h = 12 \<and> m = h @ u))"
proof (cases m0)
  case (UserMsg u)
  then have "(a, x, u) \<in> asked n" using assms(1) by simp
  moreover have "m = u" if "length u \<le> 1012 \<or> 1024 < length u"
    using user_msg_roundtrip [OF that] assms(2,3) UserMsg by auto
  moreover have "\<exists>h. length h = 12 \<and> m = h @ u" if "1012 < length u" "length u \<le> 1024"
    using user_msg_header_kept [OF that] assms(2,3) UserMsg by auto
  ultimately show ?thesis by (metis not_le)
next
  case (Handshake h)
  then show ?thesis
    using assms handshake_node_roundtrip [of "net_cert n a"] control_msg_roundtrip [of m0]
    by (cases h) auto
qed (use assms control_msg_roundtrip [of m0] in auto)

text \<open>
  Any other message read off the wire is the one that was written: a node handshake
  carries the certificate of the member that wrote it, a client handshake was written by
  a client, and an echo response names the reader.
\<close>

lemma control_msg_origin:
  assumes "net_may_send n a x m0" and "into_bytes C m0 = Inr bs" and "from_raw C bs = Inr m"
    and "\<forall>u. m \<noteq> UserMsg u" and "addr_ok x"
  shows "m0 = m"
proof (cases m0)
  case (UserMsg u)
  then show ?thesis
    using assms(2-4) user_msg_roundtrip [of u] user_msg_header_kept [of u]
    by (cases "length u \<le> 1012 \<or> 1024 < length u") auto
next
  case (Handshake h)
  then show ?thesis
    using assms handshake_node_roundtrip [of "net_cert n a"] handshake_node_lost [of "net_cert n a"]
      control_msg_roundtrip [of m0]
    by (cases h; cases "length (net_cert n a) \<le> 1008") auto
qed (use assms control_msg_roundtrip [of m0] in auto)

lemma control_msg_sent:
  assumes "net_may_recv C n x a m" and "members n a \<noteq> None" and "\<forall>u. m \<noteq> UserMsg u" and "addr_ok x"
  shows "net_may_send n a x m"
  using assms control_msg_origin [of n a x _ _ m] by (fastforce simp: net_may_recv_def)

end

text \<open>What a step of the network may panic with: what a member's loop may panic with.\<close>

definition net_may_panic :: "network \<Rightarrow> panic \<Rightarrow> bool" where
  "net_may_panic n p \<longleftrightarrow> (\<exists>x w. members n x = Some w \<and> loop_may_panic w p)"

sublocale qp2p_network \<subseteq> net: invariant_system net_initial "net_step E" "net_inv E C" net_may_panic
proof
  show "net_inv E C n" if "net_initial n" for n
    using that by (rule net_inv_initial)
next
  fix n l n'
  assume "net_inv E C n" and "net_step E n l (Inr n')"
  then show "net_inv E C n'" using net_inv_step by (cases l) simp
next
  fix n l p
  assume n: "net_inv E C n" and step: "net_step E n l (Inl p)"
  obtain x k where l: "l = (x, k)" by fastforce
  obtain w where w: "members n x = Some w" "el_step (E x) w k (Inl p)"
    using step unfolding l by (auto simp: net_step_simps)
  have "inv {} None w" using n w(1) by (simp add: net_inv_def)
  then have "loop_may_panic w p"
    using member_good [OF _ w(2)] by (simp add: good_result_def loop_may_panic_def)
  then show "net_may_panic n p" using w(1) by (auto simp: net_may_panic_def)
qed

context qp2p_network
begin

lemma reachable_flow:
  "net_reachable E n \<Longrightarrow> members n x = Some w \<Longrightarrow> flow (E x) (net_rules C n x) w"
  using net.reach_I by (auto simp: net_reachable_def net_inv_def)

text \<open>
  The certificate under which a member is known to another is its own, unless the other's
  user named it with one.
\<close>

lemma known_certificate:
  assumes "net_may_know C n x (node_at a crt)" and "members n a = Some wa" and "addr_ok x"
  shows "crt = cert_der (our_complete_cert wa) \<or> node_at a crt \<in> named n x"
  using assms control_msg_sent [of n x a "Handshake (HandshakeNode crt)"] by (auto simp: net_may_know_def net_cert_def)

lemma client_announced:
  assumes "net_reachable E n" and "members n x = Some w" and "ConnectedTo (PeerClient a) \<in> set (events w)"
    and "members n a = Some wa" and "addr_ok x"
  shows "our_type wa = OurClient"
proof -
  have "net_may_recv C n x a (Handshake HandshakeClient)"
    using reachable_flow [OF assms(1,2)] assms(3) by (fastforce simp: flow_def net_rules_def)
  then show ?thesis using assms(4,5) control_msg_sent by (fastforce simp: net_client_def)
qed

lemma echo_answered:
  assumes "net_reachable E n" and "members n x = Some w" and "(ch, b) \<in> set (echo_sent w)" and "addr_ok x"
  shows "b = x \<or> (\<exists>a raw. members n a = None \<and> (x, ReadFinished a (Inr raw)) \<in> set (history n) \<and>
    from_raw C raw = Inr (EndpointEchoResp b))"
proof -
  obtain a where a: "net_may_recv C n x a (EndpointEchoResp b)"
    using reachable_flow [OF assms(1,2)] assms(3) by (fastforce simp: flow_def echo_flow_def net_rules_def)
  show ?thesis
  proof (cases "members n a")
    case None
    then show ?thesis using a by (auto simp: net_may_recv_def)
  next
    case (Some v)
    then show ?thesis using control_msg_sent [OF a] assms(4) by simp
  qed
qed

lemma delivered_origin:
  assumes "net_reachable E n" and "members n b = Some w" and "NewMessage a m \<in> set (events w)"
    and "members n a = Some wa" and "length (cert_der (our_complete_cert wa)) \<le> 1008" and "addr_ok b"
  shows "\<exists>u. (a, b, u) \<in> asked n \<and>
    (m = u \<or> 1012 < length u \<and> length u \<le> 1024 \<and> (\<exists>h. length h = 12 \<and> m = h @ u))"
proof -
  have "net_may_recv C n b a (UserMsg m)"
    using reachable_flow [OF assms(1,2)] assms(3) by (fastforce simp: flow_def net_rules_def)
  then obtain m0 bs where "net_may_send n a b m0" "into_bytes C m0 = Inr bs" "from_raw C bs = Inr (UserMsg m)"
    using assms(4) by (auto simp: net_may_recv_def)
  then show ?thesis using user_msg_origin assms(4-6) by (simp add: net_cert_def)
qed

end

interpretation bincode_network: qp2p_network bincode_codec "\<lambda>x. bincode_extern cert key ca own (conn x)"
  for cert key ca own conn
  by unfold_locales simp

end
