(* ===== verification/Network_Properties.thy ===== *)
theory Network_Properties
  imports Network
begin

text \<open>
  What users of a network of instances can rely on, with a run of two nodes in which
  a message crosses: one node sends before it is connected, the other connects back
  on the handshake and delivers the message it had put aside.
\<close>

section \<open>Two nodes\<close>

definition peer2 :: node_info where
  "peer2 = \<lparr>ni_peer_addr = addr2, ni_peer_cert_der = [3]\<rparr>"

definition second_start :: world where
  "second_start = (sample_start OurNode)\<lparr>our_complete_cert := \<lparr>cert_der = [3], key_der = [4]\<rparr>\<rparr>"

lemma second_start_initial: "initial_world second_start"
proof -
  have "second_start = (context_new \<lparr>cert_der = [3], key_der = [4]\<rparr> 4096 30000 10000 OurNode sample_cache sample_disk)
      \<lparr>listening := (OurNode \<noteq> OurClient)\<rparr>"
    by (simp add: second_start_def sample_start_def context_new_def)
  then show ?thesis unfolding initial_world_def by blast
qed

definition two_nodes :: network where
  "two_nodes =
    (let ws = [addr1 \<mapsto> sample_start OurNode, addr2 \<mapsto> second_start]
     in \<lparr>members = ws, starts = ws, history = [], ends = (\<lambda>_. Map.empty), dials = (\<lambda>_. [])\<rparr>)"

definition hello :: wire_msg where
  "hello = Handshake (HandshakeNode [1])"

definition write_of :: "wire_msg \<Rightarrow> label" where
  "write_of m = WriteFinished \<lparr>wt_peer_addr = addr2, wt_q_conn = 0, wt_msg = m\<rparr> WriteOk"

definition crossing :: "(socket_addr \<times> label) list" where
  "crossing =
    [(addr1, PostSend (PeerNode peer2) [5]), (addr1, AttemptConnected 0),
     (addr1, write_of hello), (addr1, write_of (UserMsg [5])),
     (addr2, IncomingConnection addr1), (addr2, StreamArrived 0 addr1 UniStream),
     (addr2, StreamArrived 0 addr1 UniStream),
     (addr2, ReadFinished addr1 (Inr (raw_of (UserMsg [5])))),
     (addr2, ReadFinished addr1 (Inr (raw_of hello))),
     (addr2, AttemptConnected 0)]"

definition crossed :: network where
  "crossed = the (net_run (\<lambda>_. sample_extern) crossing two_nodes)"

lemma into_bytes_raw_of:
  "into_bytes bincode_codec (Handshake h) = Inr (raw_of (Handshake h))"
  "into_bytes bincode_codec EndpointEchoReq = Inr (raw_of EndpointEchoReq)"
  "into_bytes bincode_codec (EndpointEchoResp a) = Inr (raw_of (EndpointEchoResp a))"
  "length u \<le> 1024 \<Longrightarrow> into_bytes bincode_codec (UserMsg u) = Inr (raw_of (UserMsg u))"
  by (simp_all add: into_bytes_def raw_of_def bincode_codec_def prefix_to_codec_def
      MAX_MESSAGE_SIZE_FOR_SERIALISATION_def)

lemma crossing_runs: "\<exists>n. net_run (\<lambda>_. sample_extern) crossing two_nodes = Some n \<and>
  history n = crossing \<and> starts n = starts two_nodes \<and>
  (\<exists>w. members n addr2 = Some w \<and> NewMessage addr1 [5] \<in> set (events w) \<and>
    ConnectedTo (PeerNode \<lparr>ni_peer_addr = addr1, ni_peer_cert_der = [1]\<rparr>) \<in> set (events w)) \<and>
  (\<exists>w. members n addr1 = Some w \<and> our_complete_cert w = \<lparr>cert_der = [1], key_der = [2]\<rparr>)"
  by (simp add: crossing_def two_nodes_def second_start_def net_delivers_def
      net_update_def net_new_end_def map_filter_simps
      peer2_def write_of_def hello_def into_bytes_raw_of from_raw_raw_of enc_bytes_def exec_defs sample_defs)

lemma crossing_reachable:
  assumes "net_run (\<lambda>_. sample_extern) crossing two_nodes = Some n"
  shows "net_reachable (\<lambda>_. sample_extern) n"
proof (rule net_run_reachable [OF assms])
  show "net_reachable (\<lambda>_. sample_extern) two_nodes"
    unfolding net_reachable_def
    by (rule reach_init) (auto simp: net_initial_def two_nodes_def sample_start_initial second_start_initial Let_def split: if_splits)
qed

lemma crossing_asked:
  assumes "history n = crossing" and "starts n = starts two_nodes"
  shows "called n addr2 = {}" and "proxied n addr2 = {}" and "named n addr2 = {}"
  by (auto simp: asking_defs assms crossing_def two_nodes_def second_start_def write_of_def addr1_def addr2_def
      sample_start_def context_new_def sample_cache_def Let_def)

section \<open>Integrity from end to end\<close>

lemma qp2p_network_intro: "bincode_wire C \<Longrightarrow> (\<And>x. msg_codec (E x) = C) \<Longrightarrow> qp2p_network C E"
  by (simp add: qp2p_network_def qp2p_network_axioms_def)

text \<open>
  C2. In a network of instances, whatever the users, the connections and the peers
  outside it do: a message that one member reports as received from another was
  given by that other member's user to \<open>send\<close> with the first as its destination. It is
  the same message, except that one of 1013 to 1024 bytes arrives with twelve bytes
  in front of it. The sender's certificate has to fit a handshake (1008 bytes).
\<close>

theorem delivered_was_sent:
  assumes "bincode_wire C" and "\<And>x. msg_codec (E x) = C" and "net_reachable E n"
    and "members n b = Some w" and "NewMessage a m \<in> set (events w)"
    and "members n a = Some wa" and "length (cert_der (our_complete_cert wa)) \<le> 1008" and "addr_ok b"
  shows "\<exists>u. (a, b, u) \<in> asked n \<and>
    (m = u \<or> 1012 < length u \<and> length u \<le> 1024 \<and> (\<exists>h. length h = 12 \<and> m = h @ u))"
  by (rule qp2p_network.delivered_origin [OF qp2p_network_intro [OF assms(1,2)] assms(3-8)])

theorem delivered_was_sent_witness:
  "net_reachable (\<lambda>_. sample_extern) crossed \<and> (addr1, addr2, [5]) \<in> asked crossed \<and>
   NewMessage addr1 [5] \<in> set (events (the (members crossed addr2)))"
proof -
  obtain n w wa where n: "net_run (\<lambda>_. sample_extern) crossing two_nodes = Some n"
      "members n addr2 = Some w" "NewMessage addr1 [5] \<in> set (events w)"
      "members n addr1 = Some wa" "our_complete_cert wa = \<lparr>cert_der = [1], key_der = [2]\<rparr>"
    using crossing_runs by blast
  note r = crossing_reachable [OF n(1)]
  have "\<exists>u. (addr1, addr2, u) \<in> asked n \<and>
      ([5] = u \<or> 1012 < length u \<and> length u \<le> 1024 \<and> (\<exists>h. length h = 12 \<and> [5] = h @ u))"
    by (rule delivered_was_sent [OF sample_codec refl r n(2,3,4)]) (simp_all add: n(5) addr2_def)
  then have "(addr1, addr2, [5]) \<in> asked n" by (auto simp: Cons_eq_append_conv)
  then show ?thesis using r n by (simp add: crossed_def)
qed

text \<open>
  C5. In a network of instances certificates are not mixed up: a node that a member
  announces to its user (\<open>ConnectedTo\<close>, \<open>BootstrappedTo\<close>) or caches under the address
  of another member comes with that member's own certificate, or with one that the
  announcing member's user named together with that address (in \<open>connect_to\<close>, \<open>send\<close>,
  \<open>query_ip_echo_service\<close>, as a proxy or hard coded contact, or in the cache it started
  with). No handshake of a third party puts another certificate there, and only a client is
  announced as one. Nothing is assumed of the certificates that TLS accepts.
\<close>

theorem announced_certificates_origin:
  assumes "bincode_wire C" and "\<And>x. msg_codec (E x) = C" and "net_reachable E n"
    and "members n x = Some w" and "members n a = Some wa" and "addr_ok x"
  shows "(ConnectedTo (PeerNode (node_at a crt)) \<in> set (events w) \<or> BootstrappedTo (node_at a crt) \<in> set (events w) \<or>
      node_at a crt \<in> set (peers (bootstrap_cache w)) \<longrightarrow>
      crt = cert_der (our_complete_cert wa) \<or> node_at a crt \<in> named n x) \<and>
    (ConnectedTo (PeerClient a) \<in> set (events w) \<longrightarrow> our_type wa = OurClient)"
proof -
  have net: "qp2p_network C E" using assms(1,2) by (rule qp2p_network_intro)
  note flow = qp2p_network.reachable_flow [OF net assms(3,4)]
  have "net_may_know C n x (node_at a crt)"
    if "ConnectedTo (PeerNode (node_at a crt)) \<in> set (events w) \<or> BootstrappedTo (node_at a crt) \<in> set (events w)"
    using that flow by (fastforce simp: flow_def net_rules_def net_verified_def)
  moreover have "net_may_know C n x (node_at a crt)" if "node_at a crt \<in> set (peers (bootstrap_cache w))"
    using that flow
    by (auto simp: flow_def cache_flow_def net_rules_def net_may_cache_def net_verified_def net_may_know_def named_def)
  ultimately show ?thesis
    using qp2p_network.known_certificate [OF net _ assms(5,6)]
      qp2p_network.client_announced [OF net assms(3,4) _ assms(5,6)] by blast
qed

theorem announced_certificates_origin_witness:
  "\<exists>w wa. members crossed addr2 = Some w \<and> members crossed addr1 = Some wa \<and> named crossed addr2 = {} \<and>
     ConnectedTo (PeerNode (node_at addr1 [1])) \<in> set (events w) \<and> [1] = cert_der (our_complete_cert wa)"
proof -
  obtain n w wa where n: "net_run (\<lambda>_. sample_extern) crossing two_nodes = Some n"
      "members n addr2 = Some w" "ConnectedTo (PeerNode (node_at addr1 [1])) \<in> set (events w)"
      "members n addr1 = Some wa" "history n = crossing" "starts n = starts two_nodes"
    using crossing_runs by blast
  note asked = crossing_asked [OF n(5,6)]
  have "[1] = cert_der (our_complete_cert wa)"
    using announced_certificates_origin [OF sample_codec refl crossing_reachable [OF n(1)] n(2,4), of "[1]"] n(3) asked
    by (simp add: addr2_def)
  then show ?thesis using n asked by (auto simp: crossed_def)
qed

text \<open>
  C6. The bootstrap cache of a member holds no node its user had nothing to do with:
  every cached node was in the cache from the start, was given as a proxy, or has an
  address the user asked to connect or to send to. In particular an incoming connection
  alone never puts a peer into the cache.
\<close>

theorem cache_holds_contacted:
  assumes "bincode_wire C" and "\<And>x. msg_codec (E x) = C" and "net_reachable E n"
    and "members n x = Some w"
  shows "set (peers (bootstrap_cache w)) \<subseteq> proxied n x \<union> {ni. ni_peer_addr ni \<in> called n x}"
  using qp2p_network.reachable_flow [OF qp2p_network_intro [OF assms(1,2)] assms(3,4)]
  by (auto simp: flow_def cache_flow_def net_rules_def net_may_cache_def)

theorem cache_holds_contacted_witness:
  "\<exists>w. members crossed addr2 = Some w \<and> called crossed addr2 = {} \<and> proxied crossed addr2 = {} \<and>
     peers (bootstrap_cache w) = []"
proof -
  obtain n w where n: "net_run (\<lambda>_. sample_extern) crossing two_nodes = Some n" "members n addr2 = Some w"
      "history n = crossing" "starts n = starts two_nodes"
    using crossing_runs by blast
  show ?thesis
    using cache_holds_contacted [OF sample_codec refl crossing_reachable [OF n(1)] n(2)] n crossing_asked [OF n(3,4)] by (simp add: crossed_def)
qed

section \<open>The echo service\<close>

definition asking :: "(socket_addr \<times> label) list" where
  "asking =
    [(addr1, PostQueryEcho peer2 9), (addr1, AttemptConnected 0),
     (addr1, write_of (Handshake HandshakeClient)), (addr1, write_of EndpointEchoReq),
     (addr2, IncomingConnection addr1), (addr2, StreamArrived 0 addr1 UniStream),
     (addr2, StreamArrived 0 addr1 UniStream),
     (addr2, ReadFinished addr1 (Inr (raw_of (Handshake HandshakeClient)))),
     (addr2, ReadFinished addr1 (Inr (raw_of EndpointEchoReq))),
     (addr2, WriteFinished \<lparr>wt_peer_addr = addr1, wt_q_conn = 0, wt_msg = EndpointEchoResp addr1\<rparr> WriteOk),
     (addr1, StreamArrived 0 addr2 UniStream),
     (addr1, ReadFinished addr2 (Inr (raw_of (EndpointEchoResp addr1))))]"

definition client_and_node :: network where
  "client_and_node =
    (let ws = [addr1 \<mapsto> sample_start OurClient, addr2 \<mapsto> second_start]
     in \<lparr>members = ws, starts = ws, history = [], ends = (\<lambda>_. Map.empty), dials = (\<lambda>_. [])\<rparr>)"

lemma asking_runs: "\<exists>n w. net_run (\<lambda>_. sample_extern) asking client_and_node = Some n \<and>
  members n addr1 = Some w \<and> echo_sent w = [(9, addr1)] \<and> history n = asking \<and> dom (members n) = {addr1, addr2}"
  by (simp add: asking_def client_and_node_def second_start_def net_delivers_def
      net_update_def net_new_end_def map_filter_simps peer2_def write_of_def into_bytes_raw_of from_raw_raw_of
      enc_bytes_def exec_defs sample_defs insert_commute)

text \<open>
  C15. The echo service of a network tells the truth: an address that a member's
  \<open>query_ip_echo_service\<close> is answered with is that member's own address, unless the
  answer was read from a peer outside the network.
\<close>

theorem echo_answer_is_own_address:
  assumes "bincode_wire C" and "\<And>x. msg_codec (E x) = C" and "net_reachable E n"
    and "members n x = Some w" and "addr_ok x" and "echo_recv ch w = Some (Inr b)"
  shows "b = x \<or> (\<exists>a raw. members n a = None \<and> (x, ReadFinished a (Inr raw)) \<in> set (history n) \<and>
    from_raw C raw = Inr (EndpointEchoResp b))"
proof -
  have "(ch, b) \<in> set (filter (\<lambda>x. fst x = ch) (echo_sent w))"
    using assms(6) by (cases "filter (\<lambda>x. fst x = ch) (echo_sent w)")
      (auto simp: echo_recv_def dest!: filter_eq_ConsD split: if_splits)
  then show ?thesis
    using qp2p_network.echo_answered [OF qp2p_network_intro [OF assms(1,2)] assms(3,4) _ assms(5)] by simp
qed

theorem echo_answer_is_own_address_witness:
  "\<exists>n w b. net_reachable (\<lambda>_. sample_extern) n \<and> members n addr1 = Some w \<and>
     echo_recv 9 w = Some (Inr b) \<and> b = addr1"
proof -
  obtain n w where n: "net_run (\<lambda>_. sample_extern) asking client_and_node = Some n" "members n addr1 = Some w"
      "echo_sent w = [(9, addr1)]" "history n = asking" "dom (members n) = {addr1, addr2}"
    using asking_runs by blast
  have "net_reachable (\<lambda>_. sample_extern) client_and_node"
    unfolding net_reachable_def by (rule reach_init)
      (auto simp: net_initial_def client_and_node_def sample_start_initial second_start_initial Let_def split: if_splits)
  note r = net_run_reachable [OF n(1) this]
  obtain b where b: "echo_recv 9 w = Some (Inr b)" by (simp add: echo_recv_def n(3))
  have "a = addr2 \<or> a = addr1" if "(addr1, ReadFinished a (Inr raw)) \<in> set (history n)" for a raw
    using that by (auto simp: n(4) asking_def write_of_def)
  moreover have "members n addr1 \<noteq> None" "members n addr2 \<noteq> None" using n(5)
    by (metis domIff insertI1 insertI2)+
  ultimately have "\<not> (\<exists>a raw. members n a = None \<and> (addr1, ReadFinished a (Inr raw)) \<in> set (history n) \<and>
      from_raw (msg_codec sample_extern) raw = Inr (EndpointEchoResp b))" by metis
  moreover have "addr_ok addr1" by (simp add: addr1_def)
  note echo_answer_is_own_address [OF sample_codec refl r n(2) this b]
  ultimately have "b = addr1" by (simp only: simp_thms)
  then show ?thesis using r n(2) b by blast
qed

end
