(* ===== verification/Delivery_Count.thy ===== *)
theory Delivery_Count
  imports Network_Properties "HOL-Library.Multiset"
begin

text \<open>
  How often messages pass through an instance. \<open>incoming P w a\<close> counts the user messages of
  the peer at \<open>a\<close> with the property \<open>P\<close> that wait or were delivered, \<open>outgoing P w a\<close> those to
  it that wait or are being written. No step adds to the first but reading such a message,
  and none to the second but a call of \<open>send\<close> with it; so nothing is duplicated on the
  way, and a network in which every stream is read at most once delivers at most once.
\<close>

section \<open>Counting\<close>

fun user_msg :: "(bytes \<Rightarrow> bool) \<Rightarrow> wire_msg \<Rightarrow> bool" where
  "user_msg P (UserMsg m) = P m"
| "user_msg P _ = False"

fun delivers :: "(bytes \<Rightarrow> bool) \<Rightarrow> socket_addr \<Rightarrow> event \<Rightarrow> bool" where
  "delivers P a (NewMessage b m) = (b = a \<and> P m)"
| "delivers P a _ = False"

definition writes_msg :: "(bytes \<Rightarrow> bool) \<Rightarrow> socket_addr \<Rightarrow> write_task \<Rightarrow> bool" where
  "writes_msg P a t \<longleftrightarrow> wt_peer_addr t = a \<and> user_msg P (wt_msg t)"

definition tally :: "('a \<Rightarrow> bool) \<Rightarrow> 'a list \<Rightarrow> nat" where
  "tally P xs = length (filter P xs)"

lemma tally_simps [simp]:
  "tally P [] = 0" "tally P (x # xs) = (if P x then Suc (tally P xs) else tally P xs)"
  "tally P (xs @ ys) = tally P xs + tally P ys"
  by (simp_all add: tally_def)

lemma tally_remove1: "x \<in> set xs \<Longrightarrow> tally P xs = tally P (remove1 x xs) + (if P x then 1 else 0)"
  by (induction xs) auto

lemma tally_weaken: "(\<And>x. P x \<Longrightarrow> Q x) \<Longrightarrow> tally P xs \<le> tally Q xs"
  by (induction xs) auto

lemma tally_none: "(\<And>x. x \<in> set xs \<Longrightarrow> \<not> P x) \<Longrightarrow> tally P xs = 0"
  by (simp add: tally_def)

definition reads_of :: "connection \<Rightarrow> wire_msg list" where
  "reads_of c = (case from_peer c of FpEstablished _ reads \<Rightarrow> reads | _ \<Rightarrow> [])"

definition sends_of :: "connection \<Rightarrow> wire_msg list" where
  "sends_of c = (case to_peer c of TpInitiated _ _ sends \<Rightarrow> sends | _ \<Rightarrow> [])"

definition at_conn :: "(connection \<Rightarrow> wire_msg list) \<Rightarrow> (bytes \<Rightarrow> bool) \<Rightarrow> world \<Rightarrow> socket_addr \<Rightarrow> nat" where
  "at_conn f P w a = (case connections w a of None \<Rightarrow> 0 | Some c \<Rightarrow> tally (user_msg P) (f c))"

definition incoming :: "(bytes \<Rightarrow> bool) \<Rightarrow> world \<Rightarrow> socket_addr \<Rightarrow> nat" where
  "incoming P w a = tally (delivers P a) (events w) + at_conn reads_of P w a"

definition outgoing :: "(bytes \<Rightarrow> bool) \<Rightarrow> world \<Rightarrow> socket_addr \<Rightarrow> nat" where
  "outgoing P w a = tally (writes_msg P a) (writes w) + at_conn sends_of P w a"

text \<open>The new world has no more than the old one, plus what is gained.\<close>

definition gains :: "(bytes \<Rightarrow> bool) \<Rightarrow> socket_addr \<Rightarrow> nat \<Rightarrow> nat \<Rightarrow> world \<Rightarrow> world \<Rightarrow> bool" where
  "gains P a i j w w' \<longleftrightarrow> incoming P w' a \<le> incoming P w a + i \<and> outgoing P w' a \<le> outgoing P w a + j \<and>
    wire w' = wire w"

abbreviation loses :: "(bytes \<Rightarrow> bool) \<Rightarrow> socket_addr \<Rightarrow> world \<Rightarrow> world \<Rightarrow> bool" where
  "loses P a \<equiv> gains P a 0 0"

lemma gains_refl [simp]: "gains P a i j w w"
  by (simp add: gains_def)

lemma gains_trans: "gains P a i j w w1 \<Longrightarrow> gains P a i' j' w1 w2 \<Longrightarrow> gains P a (i + i') (j + j') w w2"
  by (simp add: gains_def)

lemma gains_loses: "gains P a i j w w1 \<Longrightarrow> loses P a w1 w2 \<Longrightarrow> gains P a i j w w2"
  using gains_trans by fastforce

lemma loses_gains: "loses P a w w1 \<Longrightarrow> gains P a i j w1 w2 \<Longrightarrow> gains P a i j w w2"
  using gains_trans by fastforce

lemma gains_mono: "gains P a i j w w' \<Longrightarrow> i \<le> i' \<Longrightarrow> j \<le> j' \<Longrightarrow> gains P a i' j' w w'"
  by (simp add: gains_def)

lemma loses_fields:
  "connections w' = connections w \<Longrightarrow> events w' = events w \<Longrightarrow> writes w' = writes w \<Longrightarrow> wire w' = wire w \<Longrightarrow>
    loses P a w w'"
  by (simp add: gains_def incoming_def outgoing_def at_conn_def)

text \<open>Writing an entry\<close>

definition at_entry :: "(connection \<Rightarrow> wire_msg list) \<Rightarrow> (bytes \<Rightarrow> bool) \<Rightarrow> connection option \<Rightarrow> nat" where
  "at_entry f P co = (case co of None \<Rightarrow> 0 | Some c \<Rightarrow> tally (user_msg P) (f c))"

lemma at_conn_eq: "at_conn f P w a = at_entry f P (connections w a)"
  by (simp add: at_conn_def at_entry_def)

lemma at_entry_simps [simp]: "at_entry f P None = 0" "at_entry f P (Some c) = tally (user_msg P) (f c)"
  by (simp_all add: at_entry_def)

lemma entry_fields [simp]:
  "reads_of (c\<lparr>to_peer := tp\<rparr>) = reads_of c" "reads_of (c\<lparr>bootstrap_group_ref := r\<rparr>) = reads_of c"
  "reads_of (c\<lparr>we_contacted_peer := b\<rparr>) = reads_of c"
  "sends_of (c\<lparr>from_peer := fp\<rparr>) = sends_of c" "sends_of (c\<lparr>bootstrap_group_ref := r\<rparr>) = sends_of c"
  "sends_of (c\<lparr>we_contacted_peer := b\<rparr>) = sends_of c"
  by (simp_all add: reads_of_def sends_of_def)

lemma loses_write:
  "\<forall>u. m \<noteq> UserMsg u \<Longrightarrow> loses P a w (write_to_peer_connection b q m w)"
  by (cases m) (simp_all add: gains_def incoming_def outgoing_def at_conn_def write_to_peer_connection_def writes_msg_def)

text \<open>What one message to \<open>b\<close> adds to the messages to \<open>a\<close>\<close>

definition one :: "(bytes \<Rightarrow> bool) \<Rightarrow> socket_addr \<Rightarrow> socket_addr \<Rightarrow> wire_msg \<Rightarrow> nat" where
  "one P a b m = (if b = a \<and> user_msg P m then 1 else 0)"

definition one_opt :: "(bytes \<Rightarrow> bool) \<Rightarrow> socket_addr \<Rightarrow> socket_addr \<Rightarrow> wire_msg option \<Rightarrow> nat" where
  "one_opt P a b mo = (case mo of None \<Rightarrow> 0 | Some m \<Rightarrow> one P a b m)"

lemma gains_write: "gains P a 0 (one P a b m) w (write_to_peer_connection b q m w)"
  by (simp add: one_def gains_def incoming_def outgoing_def at_conn_def write_to_peer_connection_def writes_msg_def)

section \<open>Handlers\<close>

lemma loses_send_event: "\<not> delivers P a e \<Longrightarrow> loses P a w (send_event e w)"
  by (simp add: gains_def incoming_def outgoing_def at_conn_def send_event_def)

lemma loses_remove: "loses P a w (remove_connection b w)"
proof -
  obtain es where "set es \<subseteq> {BootstrapFailure}" "events (remove_connection b w) = events w @
      (case connections w b of
         Some c \<Rightarrow> if is_complete c then [ConnectionFailure (conn_peer_addr c)] else []
       | None \<Rightarrow> []) @ es"
    using events_remove_connection by blast
  moreover have "tally (delivers P a) es = 0" if "set es \<subseteq> {BootstrapFailure}" for es
    using that by (intro tally_none) auto
  ultimately have "tally (delivers P a) (events (remove_connection b w)) = tally (delivers P a) (events w)"
    by (simp split: option.split)
  then show ?thesis
    by (simp add: gains_def incoming_def outgoing_def at_conn_eq world_simps)
qed

lemma loses_connect_err: "loses P a w (handle_connect_err b e w)"
  by (simp add: handle_connect_err_def loses_remove split: error.split)

lemma loses_make_group_ref: "loses P a w (snd (make_group_ref maker b t w))"
  by (rule loses_fields)
    (simp_all add: make_group_ref_def add_member_and_get_group_ref_def effect_defs Let_def split: option.split)

lemma loses_take:
  assumes "take_group_ref_event ro ni w = (ev, w1)"
  shows "loses P a w (send_event ev w1)"
proof -
  note f = take_group_ref_frame [OF assms]
  have "wire w1 = wire w" using assms by (auto simp: take_group_ref_event_def world_simps split: option.splits)
  then have "loses P a w w1" using f by (intro loses_fields) simp_all
  moreover have "\<not> delivers P a ev"
    using assms by (auto simp: take_group_ref_event_def split: option.splits)
  ultimately show ?thesis using gains_loses loses_send_event by blast
qed

lemma loses_entry:
  assumes "entry_or_insert maker b t w = (c, w1)"
  shows "loses P a w w1" and "connections w1 b = Some c"
    and "connections w b = Some c \<or> reads_of c = [] \<and> sends_of c = []"
proof -
  let ?w1 = "snd (make_group_ref maker b t w)"
  have "loses P a w w1 \<and> connections w1 b = Some c \<and> (connections w b = Some c \<or> reads_of c = [] \<and> sends_of c = [])"
  proof (cases "connections w b")
    case None
    have same: "connections ?w1 = connections w" "events ?w1 = events w" "writes ?w1 = writes w" "wire ?w1 = wire w"
      by (simp_all add: make_group_ref_def add_member_and_get_group_ref_def effect_defs Let_def split: option.split)
    have "reads_of c = [] \<and> sends_of c = [] \<and> w1 = put_conn b c (?w1\<lparr>killers := killers ?w1 @ [b]\<rparr>)"
      using assms None by (auto simp: entry_or_insert_conv reads_of_def sends_of_def Let_def)
    then show ?thesis
      using same by (simp add: gains_def incoming_def outgoing_def at_conn_eq put_conn_def)
  qed (use assms in \<open>simp add: entry_or_insert_def\<close>)
  then show "loses P a w w1" "connections w1 b = Some c"
    "connections w b = Some c \<or> reads_of c = [] \<and> sends_of c = []" by simp_all
qed

lemma gains_initiate:
  assumes "initiate_connection E ni msg maker t c w = Inr (r, w')" and "connections w (ni_peer_addr ni) = Some c"
    and "tp_is_no_connection (to_peer c)"
  shows "gains P a 0 (one_opt P a (ni_peer_addr ni) msg) w w'"
proof -
  let ?b = "ni_peer_addr ni"
  obtain ref c' w1 where w1: "w1 = w \<or> w1 = snd (make_group_ref maker ?b t w)"
    and c'_def: "c' = (if our_type w = OurClient then c\<lparr>from_peer := FpNotNeeded\<rparr> else c)
      \<lparr>bootstrap_group_ref := ref, to_peer := TpInitiated t (ni_peer_cert_der ni) (case msg of None \<Rightarrow> [] | Some m \<Rightarrow> [m])\<rparr>"
    and w': "w' = w1\<lparr>connections := (connections w1)(?b \<mapsto> c')\<rparr> \<or>
      w' = w1\<lparr>connections := (connections w1)(?b \<mapsto> c'), attempts := (attempts w1)(t \<mapsto> ?b)\<rparr>"
    by (rule initiate_connection_entry [OF assms(1)]) (rule that)
  have c': "to_peer c' = TpInitiated t (ni_peer_cert_der ni) (case msg of None \<Rightarrow> [] | Some m \<Rightarrow> [m])"
      "from_peer c' = from_peer c \<or> from_peer c' = FpNotNeeded"
    by (simp_all add: c'_def)
  have same: "connections w1 = connections w" "events w1 = events w" "writes w1 = writes w" "wire w1 = wire w"
    using w1 by (auto simp: make_group_ref_def add_member_and_get_group_ref_def effect_defs Let_def split: option.splits)
  have "sends_of c = []" using assms(3) by (cases "to_peer c") (simp_all add: sends_of_def)
  moreover have "tally (user_msg P) (reads_of c') \<le> tally (user_msg P) (reads_of c)"
    using c'(2) by (auto simp: reads_of_def)
  moreover have "tally (user_msg P) (sends_of c') = (case msg of None \<Rightarrow> 0 | Some m \<Rightarrow> if user_msg P m then 1 else 0)"
    using c'(1) by (auto simp: sends_of_def split: option.split)
  ultimately show ?thesis
    using w' same assms(2)
    by (auto simp: gains_def incoming_def outgoing_def at_conn_eq one_opt_def one_def split: option.splits)
qed

lemma gains_connect_to:
  assumes "connect_to E ni msg maker w = Inr (r, w')"
  shows "gains P a 0 (one_opt P a (ni_peer_addr ni) msg) w w'"
  using assms
proof (cases rule: connect_to_cases)
  case (bad_cert e)
  then show ?thesis using gains_mono [OF loses_connect_err] by simp
next
  case (entry c w1 r2 w2)
  note e = loses_entry [OF entry(1)]
  have "loses P a w (w\<lparr>next_term := Suc (next_term w)\<rparr>)" by (rule loses_fields) simp_all
  then have w1: "loses P a w w1" using e(1) gains_loses by blast
  have "gains P a 0 (one_opt P a (ni_peer_addr ni) msg) w1 w2"
    using entry(2) gains_initiate [OF _ e(2)] by (auto split: if_splits)
  then show ?thesis using loses_gains [OF w1] entry(3) loses_connect_err gains_loses by blast
qed

lemma gains_try_write:
  assumes "try_write_to_peer E p m w = Inr w'"
  shows "gains P a 0 (one P a (peer_addr p) m) w w'"
proof (cases p)
  case (PeerClient b)
  then have "w' = w \<or> (\<exists>q. w' = write_to_peer_connection b q m w)"
    using assms by (auto simp: try_write_to_peer_def write_to_peer_def split: option.splits to_peer.splits from_peer.splits)
  then show ?thesis using gains_write PeerClient by auto
next
  case (PeerNode ni)
  let ?b = "ni_peer_addr ni"
  obtain c w1 where eq: "entry_or_insert None ?b 0 w = (c, w1)" by fastforce
  note e = loses_entry [OF eq]
  obtain r w2 where wq: "write_or_queue ni m w = (r, w2)" by fastforce
  have "r = Some m \<and> w2 = w1 \<or> r = None \<and> gains P a 0 (one P a ?b m) w1 w2"
  proof (cases "to_peer c")
    case (TpInitiated t crt sends)
    then have "w2 = w1\<lparr>connections := (connections w1)(?b \<mapsto> c\<lparr>to_peer := TpInitiated t crt (sends @ [m])\<rparr>)\<rparr>" "r = None"
      using wq eq by (simp_all add: write_or_queue_def)
    then show ?thesis
      using e(2) TpInitiated
      by (simp add: gains_def incoming_def outgoing_def at_conn_eq one_def) (simp add: sends_of_def)
  qed (use wq eq gains_write in \<open>auto simp: write_or_queue_def\<close>)
  then show ?thesis
  proof
    assume "r = Some m \<and> w2 = w1"
    then obtain x where "connect_to E ni (Some m) None w1 = Inr (x, w')"
      using assms PeerNode wq by (auto simp: try_write_to_peer_def split: sum.splits)
    then show ?thesis using loses_gains [OF e(1)] gains_connect_to PeerNode by (fastforce simp: one_opt_def)
  next
    assume "r = None \<and> gains P a 0 (one P a ?b m) w1 w2"
    then show ?thesis using loses_gains [OF e(1)] assms PeerNode wq by (auto simp: try_write_to_peer_def)
  qed
qed

text \<open>Dispatching delivers a message once and writes none.\<close>

definition same_but :: "(bytes \<Rightarrow> bool) \<Rightarrow> socket_addr \<Rightarrow> nat \<Rightarrow> nat \<Rightarrow> world \<Rightarrow> world \<Rightarrow> bool" where
  "same_but P a i j w w' \<longleftrightarrow> connections w' = connections w \<and> wire w' = wire w \<and>
    tally (delivers P a) (events w') = tally (delivers P a) (events w) + i \<and>
    tally (writes_msg P a) (writes w') = tally (writes_msg P a) (writes w) + j"

lemma same_but_trans: "same_but P a i j w w1 \<Longrightarrow> same_but P a i' j' w1 w2 \<Longrightarrow> same_but P a (i + i') (j + j') w w2"
  by (simp add: same_but_def)

lemma same_but_gains: "same_but P a i j w w' \<Longrightarrow> gains P a i j w w'"
  by (simp add: same_but_def gains_def incoming_def outgoing_def at_conn_eq)

lemma same_write: "same_but P a 0 (one P a b m) w (write_to_peer_connection b q m w)"
  by (simp add: same_but_def write_to_peer_connection_def writes_msg_def one_def)

lemma same_cache: "same_but P a 0 0 w (cache_add_peer E ni w)"
  by (simp add: same_but_def cache_add_peer_def split: prod.split)

lemma same_dispatch:
  assumes "take_and_dispatch E p q known m w = Inr w'"
  shows "same_but P a (one P a (peer_addr p) m) 0 w w'"
proof -
  have "wire w' = wire w \<and> tally (writes_msg P a) (writes w') = tally (writes_msg P a) (writes w)"
    using assms
    by (auto simp: take_and_dispatch_def dispatch_wire_msg_def handle_user_msg_def cache_add_peer_def handle_echo_req_def
        handle_echo_resp_def drop_inform_tx_def write_to_peer_connection_def writes_msg_def send_event_def Let_def
        split: wire_msg.splits option.splits peer.splits prod.splits)
  then show ?thesis
    using take_and_dispatch_Inr [OF assms] core_fields [of w' w]
    by (cases m) (auto simp: same_but_def msg_events_def one_def)
qed

lemma same_dispatch_all:
  assumes "fold_p (take_and_dispatch E p q known) reads w = Inr w'"
  shows "same_but P a (if peer_addr p = a then tally (user_msg P) reads else 0) 0 w w'"
  using assms
proof (induction reads arbitrary: w)
  case Nil
  then show ?case by (simp add: same_but_def)
next
  case (Cons m reads)
  then obtain w1 where w1: "take_and_dispatch E p q known m w = Inr w1"
      "fold_p (take_and_dispatch E p q known) reads w1 = Inr w'"
    by (auto simp: bind_p_Inr_conv)
  show ?case using same_but_trans [OF same_dispatch [OF w1(1)] Cons.IH [OF w1(2)]] by (simp add: one_def split: if_splits)
qed

lemma same_flush: "same_but P a 0 (if b = a then tally (user_msg P) ms else 0) w (flush_pending_sends b q ms w)"
  unfolding flush_pending_sends_def
proof (induction ms arbitrary: w)
  case Nil
  show ?case by (simp add: same_but_def)
next
  case (Cons m ms)
  show ?case
    using same_but_trans [OF same_write [of P a b m w q] Cons.IH [of "write_to_peer_connection b q m w"]]
    by (simp add: one_def split: if_splits)
qed

lemma same_take: "take_group_ref_event ro ni w = (ev, w1) \<Longrightarrow> same_but P a 0 0 w (send_event ev w1)"
  using take_group_ref_frame [of ro ni w ev w1]
  by (auto simp: same_but_def send_event_def take_group_ref_event_def world_simps split: option.splits)

lemma same_greet:
  assumes "greet_peer E b q (node_at b crt) c w = Inr ((c1, acc), w')"
  shows "\<exists>i. same_but P a i 0 w w' \<and>
      (if b = a then tally (user_msg P) (reads_of c1) + i = tally (user_msg P) (reads_of c) else i = 0)"
proof (cases "from_peer c")
  case FpNoConnection
  then show ?thesis using assms same_write [of P a b "Handshake _" w q] by (auto simp: greet_peer_def one_def)
next
  case FpNotNeeded
  let ?w1 = "write_to_peer_connection b q (Handshake HandshakeClient) w"
  obtain ev w2 where ev: "take_group_ref_event (bootstrap_group_ref c) (node_at b crt) ?w1 = (ev, w2)" by fastforce
  have "same_but P a 0 0 w (send_event ev w2)"
    using same_but_trans [OF same_write same_take [OF ev]] by (fastforce simp: one_def)
  then show ?thesis using assms FpNotNeeded ev by (auto simp: greet_peer_def)
next
  case (FpEstablished fq reads)
  obtain ev w1 where ev: "take_group_ref_event (bootstrap_group_ref c) (node_at b crt) w = (ev, w1)" by fastforce
  have d: "fold_p (take_and_dispatch E (PeerNode (node_at b crt)) q (we_contacted_peer c)) reads (send_event ev w1) = Inr w'"
    and c1: "c1 = c\<lparr>bootstrap_group_ref := None, from_peer := FpEstablished fq []\<rparr>"
    using assms FpEstablished ev by (auto simp: greet_peer_def split: sum.splits)
  show ?thesis
    using same_but_trans [OF same_take [OF ev] same_dispatch_all [OF d], of P a] FpEstablished c1
    by (cases "b = a") (auto simp: reads_of_def)
qed

lemma loses_new_connection_res:
  assumes "handle_new_connection_res E b res w = Inr w'"
  shows "loses P a w w'"
proof (cases res)
  case (Inl e)
  then show ?thesis using assms loses_connect_err by (auto simp: handle_new_connection_res_def)
next
  case (Inr q)
  let ?w0 = "w\<lparr>drivers := drivers w @ [(q, b, Outgoing)]\<rparr>"
  show ?thesis
  proof (cases "\<exists>c t crt sends. connections w b = Some c \<and> to_peer c = TpInitiated t crt sends")
    case False
    then have "w' = drop_q_conn q ?w0"
      using Inr assms by (auto simp: handle_new_connection_res_def Let_def split: option.splits to_peer.splits)
    then show ?thesis by (intro loses_fields) (simp_all add: drop_q_conn_def)
  next
    case True
    then obtain c t crt sends where c: "connections w b = Some c" "to_peer c = TpInitiated t crt sends"
      by blast
    define w1 where "w1 = (if we_contacted_peer c then cache_add_peer E (node_at b crt) ?w0 else ?w0)"
    have w1: "same_but P a 0 0 w w1"
      using same_cache [of P a ?w0 E "node_at b crt"] by (simp add: w1_def same_but_def)
    obtain c1 acc w2 where r: "greet_peer E b q (node_at b crt) c w1 = Inr ((c1, acc), w2)"
      using assms Inr c by (auto simp: handle_new_connection_res_def w1_def Let_def split: sum.splits)
    obtain i where i: "same_but P a i 0 w1 w2"
        "if b = a then tally (user_msg P) (reads_of c1) + i = tally (user_msg P) (reads_of c) else i = 0"
      using same_greet [OF r] by blast
    have w3: "same_but P a i (if b = a then tally (user_msg P) sends else 0) w (flush_pending_sends b q sends w2)"
      using same_but_trans [OF same_but_trans [OF w1 i(1)] same_flush [of P a b sends w2 q]] by simp
    have "sends_of c = sends" "sends_of (c1\<lparr>to_peer := TpEstablished crt q\<rparr>) = []"
      using c(2) by (simp_all add: sends_of_def)
    then show ?thesis
      using assms handle_new_connection_res_conv [OF c refl w1_def r] Inr w3 i(2) c(1)
      by (auto simp: gains_def same_but_def incoming_def outgoing_def at_conn_eq put_conn_def try_send_def Let_def
          split: if_splits)
  qed
qed

lemma loses_new_conn: "loses P a w (handle_new_conn b q w)"
proof -
  let ?w0 = "w\<lparr>drivers := drivers w @ [(q, b, Incoming)]\<rparr>"
  obtain c w1 where eq: "entry_or_insert None b 0 ?w0 = (c, w1)" by fastforce
  note e = loses_entry [OF eq]
  have "loses P a w ?w0" by (rule loses_fields) simp_all
  then have w1: "loses P a w w1" using gains_loses [OF _ e(1)] by blast
  have put: "loses P a w1 (read_from_peer b q (w2\<lparr>connections := (connections w2)(b \<mapsto>
      c\<lparr>from_peer := FpEstablished q [], bootstrap_group_ref := ro\<rparr>)\<rparr>))" if "same_but P a 0 0 w1 w2" for w2 ro
    using that e(2)
    by (simp add: gains_def same_but_def incoming_def outgoing_def at_conn_eq read_from_peer_def)
      (simp add: reads_of_def)
  have "loses P a w1 (handle_new_conn b q w)"
  proof (cases "fp_is_no_connection (from_peer c) \<and> tp_is_established (to_peer c)")
    case False
    have "loses P a w1 (drop_q_conn q w1)" by (rule loses_fields) (simp_all add: drop_q_conn_def)
    then show ?thesis
      using False eq put [of w1 "bootstrap_group_ref c"]
      by (cases "to_peer c") (auto simp: handle_new_conn_def same_but_def Let_def)
  next
    case True
    then obtain crt tq where tp: "to_peer c = TpEstablished crt tq" by (cases "to_peer c") auto
    obtain ev w2 where ev: "take_group_ref_event (bootstrap_group_ref c) (node_at b crt) w1 = (ev, w2)" by fastforce
    then show ?thesis using True tp eq put [OF same_take [OF ev]] by (simp add: handle_new_conn_def)
  qed
  then show ?thesis using gains_loses [OF w1] by blast
qed

lemma gains_wire_msg:
  assumes "handle_wire_msg E b m w = Inr w'"
  shows "gains P a (one P a b m) 0 w w'"
proof -
  have queue: "gains P a (one P a b m) 0 w (w\<lparr>connections := (connections w)(b \<mapsto>
      c\<lparr>from_peer := FpEstablished q (reads @ [m])\<rparr>)\<rparr>)"
    if "connections w b = Some c" "from_peer c = FpEstablished q reads" for c q reads
    using that by (simp add: gains_def incoming_def outgoing_def at_conn_eq one_def) (simp add: reads_of_def)
  show ?thesis
  proof (cases m)
    case (Handshake h)
    show ?thesis
    proof (cases h)
      case (HandshakeNode crt)
      then show ?thesis
        using assms Handshake gains_mono [OF gains_connect_to [of E "node_at b crt" None]]
        by (auto simp: handle_wire_msg_def handle_rx_handshake_def handle_rx_cert_def one_opt_def Let_def
            split: if_splits sum.splits)
    next
      case HandshakeClient
      have "loses P a w (send_event (ConnectedTo (PeerClient b))
          (w\<lparr>connections := (connections w)(b \<mapsto> c\<lparr>to_peer := TpNotNeeded\<rparr>)\<rparr>))"
        if "connections w b = Some c" "to_peer c = TpNoConnection" for c
        using that
        by (simp add: gains_def incoming_def outgoing_def at_conn_eq send_event_def) (simp add: sends_of_def)
      then show ?thesis
        using assms Handshake HandshakeClient gains_mono
        by (fastforce simp: handle_wire_msg_def handle_rx_handshake_def split: option.splits to_peer.splits)
    qed
  qed (use assms queue same_but_gains [OF same_dispatch] gains_mono [OF gains_refl] in
      \<open>fastforce simp: handle_wire_msg_def node_info_into_peer_def split: option.splits to_peer.splits from_peer.splits\<close>)+
qed

lemma loses_start:
  assumes "start E w = Inr w'"
  shows "loses P a w w'"
proof -
  let ?w1 = "snd (group_maker_new w)"
  let ?f = "\<lambda>proxy w'. case connect_to E proxy None (Some (next_group w)) w' of
      Inl p \<Rightarrow> Inl p | Inr (_, w') \<Rightarrow> Inr w'"
  obtain w2 where w2: "fold_p ?f (proxies_of w) ?w1 = Inr w2" "w' = drop_group_maker (next_group w) w2"
    using assms by (auto simp: start_def group_maker_new_def split: sum.splits)
  have w1: "loses P a w ?w1" by (rule loses_fields) (simp_all add: group_maker_new_def)
  have "loses P a w w2"
    by (rule fold_p_invariant [where I = "loses P a w", OF w2(1) w1])
      (auto dest!: gains_connect_to [where P = P and a = a] intro: gains_loses simp: one_opt_def split: sum.splits)
  moreover have "loses P a w2 w'"
    using events_drop_group_rc [of "next_group w" w2] unfolding w2(2) drop_group_maker_def
    by (auto simp: gains_def incoming_def outgoing_def at_conn_eq world_simps split: option.splits if_splits)
  ultimately show ?thesis using gains_loses by blast
qed

section \<open>Steps\<close>

definition read_gain :: "extern \<Rightarrow> (bytes \<Rightarrow> bool) \<Rightarrow> socket_addr \<Rightarrow> label \<Rightarrow> nat" where
  "read_gain E P a l =
    (case l of
       ReadFinished b (Inr raw) \<Rightarrow> (case from_raw (msg_codec E) raw of Inr m \<Rightarrow> one P a b m | Inl _ \<Rightarrow> 0)
     | _ \<Rightarrow> 0)"

definition send_gain :: "(bytes \<Rightarrow> bool) \<Rightarrow> socket_addr \<Rightarrow> label \<Rightarrow> nat" where
  "send_gain P a l = (case l of PostSend p m \<Rightarrow> one P a (peer_addr p) (UserMsg m) | _ \<Rightarrow> 0)"

lemma loses_set_contacted: "loses P a w (set_we_contacted_peer b w)"
  by (auto simp: gains_def incoming_def outgoing_def at_conn_eq set_we_contacted_peer_def split: option.split)

lemma loses_inform: "loses P a w (drop_inform_tx tx w)"
  by (rule loses_fields) (simp_all add: drop_inform_tx_def split: option.split)

lemma loses_comm_err: "loses P a w (handle_communication_err b e w)"
  by (simp add: handle_communication_err_def loses_remove)

lemma loses_from_fields:
  assumes "loses P a w0 w'" and "connections w0 = connections w" and "events w0 = events w" and "writes w0 = writes w"
    and "wire w0 = wire w"
  shows "loses P a w w'"
  using assms by (simp add: gains_def incoming_def outgoing_def at_conn_eq)

lemma loses_finish: "loses P a w (finish_attempt t w)"
  by (rule loses_fields) (simp_all add: finish_attempt_def)

lemma step_gains:
  assumes "el_step E w l (Inr w')" and "\<And>t out. l \<noteq> WriteFinished t out"
  shows "gains P a (read_gain E P a l) (send_gain P a l) w w'"
  using assms(1)
proof cases
  case post_bootstrap
  then show ?thesis using loses_start by (simp add: qp2p_bootstrap_def read_gain_def send_gain_def)
next
  case (post_connect_to ni)
  then show ?thesis
    using gains_connect_to [of E ni None None w _ _ P a] gains_loses [OF _ loses_set_contacted]
    by (auto simp: qp2p_connect_to_def one_opt_def read_gain_def send_gain_def split: sum.splits)
next
  case (post_send p m)
  then show ?thesis
    using gains_try_write [of E p "UserMsg m" w _ P a] gains_loses [OF _ loses_set_contacted]
    by (auto simp: qp2p_send_def read_gain_def send_gain_def split: sum.splits)
next
  case (post_query_echo ni ch)
  let ?w1 = "drop_inform_tx (our_ext_addr_tx w) (w\<lparr>our_ext_addr_tx := Some ch\<rparr>)"
  have "loses P a w ?w1" by (rule loses_from_fields [OF loses_inform]) simp_all
  then show ?thesis
    using gains_try_write [of E "PeerNode ni" EndpointEchoReq ?w1 w' P a] post_query_echo gains_loses
    by (auto simp: register_and_ask_echo_def one_def read_gain_def send_gain_def)
next
  case (attempt_connected t b)
  let ?w0 = "w\<lparr>next_q := Suc (next_q w)\<rparr>"
  obtain w1 where w1: "handle_new_connection_res E b (Inr (next_q w)) ?w0 = Inr w1" "w' = finish_attempt t w1"
    using bind_p_Inr_conv [THEN iffD1, OF attempt_connected(2) [symmetric]] by blast
  have "loses P a w w1" by (rule loses_from_fields [OF loses_new_connection_res [OF w1(1)]]) simp_all
  moreover have "loses P a w1 w'" unfolding w1(2) by (rule loses_finish)
  ultimately show ?thesis using gains_loses attempt_connected(1) by (auto simp: read_gain_def send_gain_def)
next
  case (read_finished b out)
  let ?w0 = "w\<lparr>stream_reads := remove1 b (stream_reads w)\<rparr>"
  have "gains P a (read_gain E P a l) 0 ?w0 w'"
    using read_finished gains_wire_msg gains_mono [OF loses_comm_err]
    by (fastforce simp: run_read_task_def read_gain_def split: sum.splits if_splits)
  moreover have "loses P a w ?w0" by (rule loses_fields) simp_all
  ultimately show ?thesis using loses_gains read_finished(1) by (simp add: send_gain_def)
next
  case (incoming_connection b)
  then show ?thesis
    using loses_from_fields [OF loses_new_conn, of "w\<lparr>next_q := Suc (next_q w)\<rparr>" w]
    by (simp add: read_gain_def send_gain_def)
next
  case (post_proxies ps ex)
  then show ?thesis
    by (simp add: read_gain_def send_gain_def loses_fields install_proxies_def Let_def)
qed (use assms(2) in \<open>auto simp: read_gain_def send_gain_def qp2p_disconnect_from_def handle_connect_err_def
      handle_communication_err_def handle_new_connection_res_def read_peer_stream_def
      incomplete_conn_killer_fires_def loses_remove
      intro: loses_fields loses_finish gains_loses [OF loses_remove loses_finish] loses_from_fields [OF loses_remove] split: option.splits\<close>)

text \<open>A write takes its message from those that go out and puts at most one entry on the wire.\<close>

lemma write_counts:
  assumes "el_step E w (WriteFinished t out) (Inr w')"
  shows "incoming P w' a \<le> incoming P w a"
    and "outgoing P w' a + (if writes_msg P a t then 1 else 0) \<le> outgoing P w a"
    and "t \<in> set (writes w)"
    and "wire w' = wire w \<or> (\<exists>bs. into_bytes (msg_codec E) (wt_msg t) = Inr bs \<and> wire w' = wire w @ [(wt_q_conn t, bs)])"
proof -
  let ?w0 = "w\<lparr>writes := remove1 t (writes w)\<rparr>"
  have t: "t \<in> set (writes w)" and run: "run_write_task E t out ?w0 = Inr w'"
    using assms by (simp_all add: el_step_simps eq_commute)
  obtain v where v: "loses P a v w'" "connections v = connections w" "events v = events w" "writes v = writes ?w0"
    and wire: "wire v = wire w \<or> (\<exists>bs. into_bytes (msg_codec E) (wt_msg t) = Inr bs \<and> wire v = wire w @ [(wt_q_conn t, bs)])"
  proof (cases "into_bytes (msg_codec E) (wt_msg t)")
    case (Inl p)
    then show ?thesis using run that [of ?w0] loses_comm_err by (cases out) (auto simp: run_write_task_def Let_def)
  next
    case (Inr bs)
    let ?v = "?w0\<lparr>wire := wire w @ [(wt_q_conn t, bs)]\<rparr>"
    have "loses P a ?w0 w' \<or> loses P a ?v w'"
      using run Inr loses_comm_err by (cases out) (auto simp: run_write_task_def Let_def)
    then show ?thesis using that [of ?w0] that [of ?v] Inr by auto
  qed
  show "t \<in> set (writes w)" by (rule t)
  show "incoming P w' a \<le> incoming P w a"
    and "outgoing P w' a + (if writes_msg P a t then 1 else 0) \<le> outgoing P w a"
    using v tally_remove1 [OF t, of "writes_msg P a"]
    by (auto simp: gains_def incoming_def outgoing_def at_conn_eq)
  show "wire w' = wire w \<or> (\<exists>bs. into_bytes (msg_codec E) (wt_msg t) = Inr bs \<and> wire w' = wire w @ [(wt_q_conn t, bs)])"
    using wire v(1) by (simp add: gains_def)
qed

section \<open>Across the network\<close>

text \<open>What a stream carries, and what a user message turns into when it is written and read\<close>

definition carries :: "wire_msg codec \<Rightarrow> (bytes \<Rightarrow> bool) \<Rightarrow> bytes \<Rightarrow> bool" where
  "carries C P bs \<longleftrightarrow> (case from_raw C bs of Inr m \<Rightarrow> user_msg P m | Inl _ \<Rightarrow> False)"

definition sent_as :: "wire_msg codec \<Rightarrow> (bytes \<Rightarrow> bool) \<Rightarrow> bytes \<Rightarrow> bool" where
  "sent_as C P u \<longleftrightarrow> (case into_bytes C (UserMsg u) of Inr bs \<Rightarrow> carries C P bs | Inl _ \<Rightarrow> False)"

text \<open>The streams a member wrote to a peer, what that peer read, and the sends asked for\<close>

definition streams_to :: "network \<Rightarrow> socket_addr \<Rightarrow> world \<Rightarrow> socket_addr \<Rightarrow> bytes list" where
  "streams_to n a wa b = map snd (filter (\<lambda>(q, bs). ends n a q = Some b) (wire wa))"

definition reads_from :: "network \<Rightarrow> socket_addr \<Rightarrow> socket_addr \<Rightarrow> bytes list" where
  "reads_from n b a = List.map_filter
    (\<lambda>(x, l). case l of ReadFinished y (Inr raw) \<Rightarrow> if x = b \<and> y = a then Some raw else None | _ \<Rightarrow> None) (history n)"

definition sends_to :: "network \<Rightarrow> socket_addr \<Rightarrow> socket_addr \<Rightarrow> bytes list" where
  "sends_to n a b = List.map_filter
    (\<lambda>(x, l). case l of PostSend p m \<Rightarrow> if x = a \<and> peer_addr p = b then Some m else None | _ \<Rightarrow> None) (history n)"

text \<open>QUIC hands over a stream at most once.\<close>

definition read_once :: "network \<Rightarrow> socket_addr \<Rightarrow> world \<Rightarrow> socket_addr \<Rightarrow> bool" where
  "read_once n a wa b \<longleftrightarrow> mset (reads_from n b a) \<subseteq># mset (streams_to n a wa b)"

lemma tally_mono: "mset xs \<subseteq># mset ys \<Longrightarrow> tally P xs \<le> tally P ys"
  unfolding tally_def by (metis mset_filter multiset_filter_mono size_mset size_mset_mono)

definition counts_ok :: "wire_msg codec \<Rightarrow> (bytes \<Rightarrow> bool) \<Rightarrow> network \<Rightarrow> socket_addr \<Rightarrow> world \<Rightarrow> socket_addr \<Rightarrow> bool" where
  "counts_ok C P n x w a \<longleftrightarrow>
    incoming P w a \<le> tally (carries C P) (reads_from n x a) \<and>
    (length (cert_der (our_complete_cert w)) \<le> 1008 \<and> addr_ok a \<longrightarrow>
      tally (carries C P) (streams_to n x w a) + outgoing (sent_as C P) w a \<le> tally (sent_as C P) (sends_to n x a))"

lemma map_filter_snoc: "List.map_filter f (xs @ [x]) = List.map_filter f xs @ (case f x of None \<Rightarrow> [] | Some y \<Rightarrow> [y])"
  by (simp add: List.map_filter_def split: option.split)

lemma counts_other:
  assumes "y \<noteq> x" and "counts_ok C P n y v a"
  shows "counts_ok C P (net_update x w l w' n) y v a"
proof -
  let ?n = "net_update x w l w' n"
  have "reads_from ?n y a = reads_from n y a" "sends_to ?n y a = sends_to n y a" "streams_to ?n y v a = streams_to n y v a"
    using assms(1)
    by (auto simp: reads_from_def sends_to_def streams_to_def net_update_def map_filter_snoc
        split: label.split sum.split option.split)
  then show ?thesis using assms(2) by (simp add: counts_ok_def)
qed

lemma reads_tally:
  "msg_codec E = C \<Longrightarrow>
    tally (carries C P) (reads_from (net_update x w l w' n) x a) = tally (carries C P) (reads_from n x a) + read_gain E P a l"
  by (auto simp: reads_from_def net_update_def map_filter_snoc read_gain_def carries_def one_def
      split: label.split sum.split)

lemma sends_tally:
  "tally Q (sends_to (net_update x w l w' n) x a) = tally Q (sends_to n x a) + send_gain Q a l"
  by (auto simp: sends_to_def net_update_def map_filter_snoc send_gain_def one_def split: label.split)

text \<open>The connections of a member keep their ends, so its streams keep their readers.\<close>

lemma streams_keep:
  assumes "wire_flow F (net_rules C n x) (wire w)" and "ends n x (next_q w) = None"
  shows "filter (\<lambda>(q, bs). ends (net_update x w l w' n) x q = Some a) (wire w) =
    filter (\<lambda>(q, bs). ends n x q = Some a) (wire w)"
proof (intro filter_cong refl)
  fix e assume "e \<in> set (wire w)"
  then have "fst e \<noteq> next_q w"
    using assms by (auto simp: wire_flow_def net_rules_def)
  then show "(\<lambda>(q, bs). ends (net_update x w l w' n) x q = Some a) e = (\<lambda>(q, bs). ends n x q = Some a) e"
    by (cases e) (auto simp: net_update_def split: option.split)
qed

context qp2p_network
begin

text \<open>Only user messages are read as user messages.\<close>

lemma carries_user:
  assumes "net_may_send n a x m0" and "into_bytes C m0 = Inr bs" and "carries C P bs"
    and "length (net_cert n a) \<le> 1008" and "addr_ok x"
  shows "user_msg (sent_as C P) m0"
proof (cases m0)
  case (UserMsg u)
  then show ?thesis using assms(2,3) by (simp add: sent_as_def)
next
  case (Handshake h)
  then show ?thesis
    using assms handshake_node_roundtrip [of "net_cert n a"] control_msg_roundtrip [of m0]
    by (cases h) (auto simp: carries_def)
qed (use assms control_msg_roundtrip [of m0] in \<open>auto simp: carries_def\<close>)

lemma counts_write:
  assumes n: "net_inv E C n" and x: "members n x = Some w" and step: "el_step (E x) w (WriteFinished t out) (Inr w')"
    and ok: "length (cert_der (our_complete_cert w)) \<le> 1008" "addr_ok a"
  shows "tally (carries C P) (streams_to n x w' a) + outgoing (sent_as C P) w' a \<le>
    tally (carries C P) (streams_to n x w a) + outgoing (sent_as C P) w a"
proof -
  note wc = write_counts [OF step]
  have "flow (E x) (net_rules C n x) w" by (rule net_invD(2) [OF n x])
  then have t: "ends n x (wt_q_conn t) = Some (wt_peer_addr t)" "net_may_send n x (wt_peer_addr t) (wt_msg t)"
    using wc(3) by (auto simp: flow_def writes_flow_def net_rules_def)
  show ?thesis
  proof (cases "wire w' = wire w")
    case True
    then show ?thesis using wc(2) [of "sent_as C P" a] by (simp add: streams_to_def)
  next
    case False
    then obtain bs where bs: "into_bytes C (wt_msg t) = Inr bs" "wire w' = wire w @ [(wt_q_conn t, bs)]"
      using wc(4) codec by auto
    have "writes_msg (sent_as C P) a t" if "wt_peer_addr t = a" "carries C P bs"
      using carries_user [OF t(2) bs(1) that(2)] that(1) ok x by (simp add: net_cert_def writes_msg_def)
    then show ?thesis using wc(2) [of "sent_as C P" a] bs(2) t(1) by (auto simp: streams_to_def split: if_splits)
  qed
qed

lemma counts_step:
  assumes n: "net_inv E C n" and x: "members n x = Some w" and step: "el_step (E x) w l (Inr w')"
    and ok: "counts_ok C P n x w a"
  shows "counts_ok C P (net_update x w l w' n) x w' a"
proof -
  let ?n = "net_update x w l w' n"
  have cert: "our_complete_cert w' = our_complete_cert w" using step_grows [OF step] by (simp add: grows_def)
  have keep: "streams_to ?n x w a = streams_to n x w a"
    using streams_keep [of "E x" C n x w] net_invD(2) [OF n x] n x
    by (simp add: streams_to_def flow_def net_inv_def)
  show ?thesis
  proof (cases "\<exists>t out. l = WriteFinished t out")
    case False
    then have g: "gains P a (read_gain (E x) P a l) (send_gain P a l) w w'" for P
      using step_gains [OF step] by blast
    then have "streams_to ?n x w' a = streams_to n x w a" using keep by (simp add: streams_to_def gains_def)
    then show ?thesis
      using ok g [of P] g [of "sent_as C P"] cert
      by (auto simp: counts_ok_def gains_def reads_tally [OF codec [of x]] sends_tally)
  next
    case True
    then obtain t out where l: "l = WriteFinished t out" by blast
    have "ends ?n = ends n" by (simp add: l net_update_def net_new_end_def)
    then have "streams_to ?n x w' a = streams_to n x w' a" by (simp add: streams_to_def)
    then show ?thesis
      using ok write_counts(1) [of "E x" w t out w' P a] counts_write [OF n x step [unfolded l], of a P] step cert
      by (auto simp: counts_ok_def reads_tally [OF codec [of x]] sends_tally send_gain_def read_gain_def l)
  qed
qed

lemma counts_reachable:
  assumes "net_reachable E n" and "members n x = Some w"
  shows "counts_ok C P n x w a"
  using assms unfolding net_reachable_def
proof (induction arbitrary: x w rule: reach.induct)
  case (reach_init n)
  then have "initial_world w" by (simp add: net_initial_def)
  then show ?case
    by (auto simp: initial_world_def context_new_def counts_ok_def incoming_def outgoing_def at_conn_eq streams_to_def)
next
  case (reach_step n l n')
  obtain y k where l: "l = (y, k)" by fastforce
  then obtain v v' where ie: "members n y = Some v" "el_step (E y) v k (Inr v')" "n' = net_update y v k v' n"
    using reach_step.hyps(2) by (auto simp: net_step_simps)
  have n: "net_inv E C n" using reach_step.hyps(1) by (rule net.reach_I)
  show ?case
  proof (cases "x = y")
    case True
    then show ?thesis using counts_step [OF n ie(1,2) reach_step.IH [OF ie(1)]] reach_step.prems ie(3) by (simp add: net_updates)
  next
    case False
    then show ?thesis using counts_other reach_step.IH reach_step.prems ie(3) by (simp add: net_updates)
  qed
qed

text \<open>A message that is read with \<open>P\<close> was sent with \<open>P\<close>, or had it with the header that stays on.\<close>

lemma sent_as_conv:
  "sent_as C P u \<Longrightarrow> P u \<or> 1012 < length u \<and> length u \<le> 1024 \<and> (\<exists>h. length h = 12 \<and> P (h @ u))"
  using user_msg_roundtrip [of u] user_msg_header_kept [of u]
  by (cases "length u \<le> 1012 \<or> 1024 < length u")
    (auto simp: sent_as_def carries_def split: sum.splits)

lemma at_most_once:
  assumes "net_reachable E n" and "members n a = Some wa" and "members n b = Some wb"
    and "length (cert_der (our_complete_cert wa)) \<le> 1008" and "addr_ok b" and "read_once n a wa b"
  shows "tally (delivers P a) (events wb) \<le>
    tally (\<lambda>u. P u \<or> 1012 < length u \<and> length u \<le> 1024 \<and> (\<exists>h. length h = 12 \<and> P (h @ u))) (sends_to n a b)"
proof -
  have "tally (delivers P a) (events wb) \<le> tally (carries C P) (reads_from n b a)"
    using counts_reachable [OF assms(1,3), of P a] by (simp add: counts_ok_def incoming_def)
  also have "\<dots> \<le> tally (carries C P) (streams_to n a wa b)"
    using assms(6) tally_mono by (simp add: read_once_def)
  also have "\<dots> \<le> tally (sent_as C P) (sends_to n a b)"
    using counts_reachable [OF assms(1,2), of P b] assms(4,5) by (simp add: counts_ok_def)
  also have "\<dots> \<le> tally (\<lambda>u. P u \<or> 1012 < length u \<and> length u \<le> 1024 \<and> (\<exists>h. length h = 12 \<and> P (h @ u))) (sends_to n a b)"
    using sent_as_conv by (rule tally_weaken)
  finally show ?thesis .
qed

end

section \<open>At most once\<close>

lemma crossing_counts: "\<exists>n wa wb. net_run (\<lambda>_. sample_extern) crossing two_nodes = Some n \<and>
  members n addr1 = Some wa \<and> our_complete_cert wa = \<lparr>cert_der = [1], key_der = [2]\<rparr> \<and>
  members n addr2 = Some wb \<and> NewMessage addr1 [5] \<in> set (events wb) \<and>
  reads_from n addr2 addr1 = [raw_of (UserMsg [5]), raw_of hello] \<and>
  streams_to n addr1 wa addr2 = [raw_of hello, raw_of (UserMsg [5])] \<and> sends_to n addr1 addr2 = [[5]]"
  by (simp add: crossing_def two_nodes_def second_start_def net_delivers_def
      net_update_def net_new_end_def map_filter_simps reads_from_def streams_to_def sends_to_def
      peer2_def write_of_def hello_def into_bytes_raw_of from_raw_raw_of enc_bytes_def exec_defs sample_defs)

text \<open>
  C3. In a network of instances whose streams are read at most once each, as QUIC has it,
  no message is delivered more often than it was sent: of the messages with any property
  that one member reports from another there are at most as many as that member's user
  gave to \<open>send\<close> with it. A message of 1013 to 1024 bytes counts with the twelve bytes that
  arrive in front of it. Queues, flushes, the connecting back and the putting aside of
  messages never duplicate one.
\<close>

theorem delivered_at_most_once:
  assumes "bincode_wire C" and "\<And>x. msg_codec (E x) = C" and "net_reachable E n"
    and "members n a = Some wa" and "members n b = Some wb"
    and "length (cert_der (our_complete_cert wa)) \<le> 1008" and "addr_ok b" and "read_once n a wa b"
  shows "tally (delivers P a) (events wb) \<le>
    tally (\<lambda>u. P u \<or> 1012 < length u \<and> length u \<le> 1024 \<and> (\<exists>h. length h = 12 \<and> P (h @ u))) (sends_to n a b)"
  by (rule qp2p_network.at_most_once [OF qp2p_network_intro [OF assms(1,2)] assms(3-8)])

theorem delivered_at_most_once_witness:
  "net_reachable (\<lambda>_. sample_extern) crossed \<and>
   tally (delivers (\<lambda>_. True) addr1) (events (the (members crossed addr2))) = 1 \<and> sends_to crossed addr1 addr2 = [[5]]"
proof -
  obtain n wa wb where n: "net_run (\<lambda>_. sample_extern) crossing two_nodes = Some n"
      "members n addr1 = Some wa" "our_complete_cert wa = \<lparr>cert_der = [1], key_der = [2]\<rparr>"
      "members n addr2 = Some wb" "NewMessage addr1 [5] \<in> set (events wb)"
      "reads_from n addr2 addr1 = [raw_of (UserMsg [5]), raw_of hello]"
      "streams_to n addr1 wa addr2 = [raw_of hello, raw_of (UserMsg [5])]" "sends_to n addr1 addr2 = [[5]]"
    using crossing_counts by blast
  note r = crossing_reachable [OF n(1)]
  have "read_once n addr1 wa addr2" by (simp add: read_once_def n(6,7))
  then have "tally (delivers (\<lambda>_. True) addr1) (events wb) \<le> 1"
    using delivered_at_most_once [OF sample_codec refl r n(2,4), of "\<lambda>_. True"] n(3,8) by (simp add: addr2_def)
  moreover have "0 < tally (delivers (\<lambda>_. True) addr1) (events wb)"
    using n(5) by (force simp: tally_def filter_empty_conv)
  ultimately show ?thesis using r n(1,4,8) by (simp add: crossed_def)
qed

end
