(* ===== verification/Send_Delivers.thy ===== *)
theory Send_Delivers
  imports Network_Properties "HOL-Library.Multiset"
begin

text \<open>
  From calls of \<open>send\<close> to the events at the other side: the steps that lead from one to the
  other are possible in any network of fresh nodes, whatever the messages, the
  certificates and the addresses, and the messages arrive in the order in which their
  streams are read.
\<close>

section \<open>The runs\<close>

definition write_done :: "socket_addr \<Rightarrow> wire_msg \<Rightarrow> label" where
  "write_done a m = WriteFinished \<lparr>wt_peer_addr = a, wt_q_conn = 0, wt_msg = m\<rparr> WriteOk"

definition stream_of :: "wire_msg codec \<Rightarrow> wire_msg \<Rightarrow> bytes" where
  "stream_of C m = (case into_bytes C m of Inr bs \<Rightarrow> bs | Inl _ \<Rightarrow> [])"

text \<open>
  The sender, whose user sends all messages before there is a connection, connects and
  writes its handshake and the messages; the receiver accepts, reads all streams, the
  handshake first, connects back and delivers.
\<close>

definition sender_run :: "socket_addr \<Rightarrow> bytes \<Rightarrow> bytes \<Rightarrow> bytes list \<Rightarrow> label list" where
  "sender_run y cx cy ms =
    map (PostSend (PeerNode (node_at y cy))) ms @
    AttemptConnected 0 # map (write_done y) (Handshake (HandshakeNode cx) # map UserMsg ms)"

definition receiver_run :: "wire_msg codec \<Rightarrow> socket_addr \<Rightarrow> bytes \<Rightarrow> bytes list \<Rightarrow> label list" where
  "receiver_run C x cx ms =
    IncomingConnection x # replicate (Suc (length ms)) (StreamArrived 0 x UniStream) @
    map (\<lambda>m. ReadFinished x (Inr (stream_of C m))) (Handshake (HandshakeNode cx) # map UserMsg ms) @
    [AttemptConnected 0]"

text \<open>A certificate that can be used to connect to its owner, with an endpoint that accepts the attempt\<close>

definition can_dial :: "extern \<Rightarrow> socket_addr \<Rightarrow> bytes \<Rightarrow> bool" where
  "can_dial E a crt \<longleftrightarrow> certificate_from_der E crt = None \<and> add_certificate_authority E crt = None \<and>
    connect_with E 0 a = None"

section \<open>The worlds on the way\<close>

abbreviation entry_of :: "to_peer \<Rightarrow> from_peer \<Rightarrow> bool \<Rightarrow> socket_addr \<Rightarrow> connection" where
  "entry_of tp fp mark a \<equiv>
    \<lparr>to_peer = tp, from_peer = fp, bootstrap_group_ref = None, we_contacted_peer = mark, conn_peer_addr = a\<rparr>"

definition dialling :: "world \<Rightarrow> socket_addr \<Rightarrow> bytes \<Rightarrow> bytes list \<Rightarrow> world" where
  "dialling w y cy ms =
    w\<lparr>connections := [y \<mapsto> entry_of (TpInitiated 0 cy (map UserMsg ms)) FpNoConnection True y],
      attempts := [0 \<mapsto> y], killers := [y], next_term := 1\<rparr>"

definition writing :: "world \<Rightarrow> socket_addr \<Rightarrow> bytes \<Rightarrow> bootstrap_cache \<times> disk \<Rightarrow> wire_msg list \<Rightarrow> bytes list \<Rightarrow> world" where
  "writing w y cy cd todo streams =
    w\<lparr>connections := [y \<mapsto> entry_of (TpEstablished cy 0) FpNoConnection True y],
      killers := [y], next_term := 1, next_q := 1, signalled := {0}, drivers := [(0, y, Outgoing)],
      bootstrap_cache := fst cd, the_disk := snd cd,
      writes := map (\<lambda>m. \<lparr>wt_peer_addr = y, wt_q_conn = 0, wt_msg = m\<rparr>) todo, wire := map (Pair 0) streams\<rparr>"

definition accepting :: "world \<Rightarrow> socket_addr \<Rightarrow> nat \<Rightarrow> world" where
  "accepting v x k =
    v\<lparr>connections := [x \<mapsto> entry_of TpNoConnection (FpEstablished 0 []) False x],
      killers := [x], next_q := 1, drivers := [(0, x, Incoming)], readers := [(0, x)], stream_reads := replicate k x\<rparr>"

definition answering :: "world \<Rightarrow> socket_addr \<Rightarrow> bytes \<Rightarrow> nat \<Rightarrow> bytes list \<Rightarrow> world" where
  "answering v x cx k ms =
    v\<lparr>connections := [x \<mapsto> entry_of (TpInitiated 0 cx []) (FpEstablished 0 (map UserMsg ms)) False x],
      killers := [x], next_q := 1, drivers := [(0, x, Incoming)], readers := [(0, x)], stream_reads := replicate k x,
      attempts := [0 \<mapsto> x], next_term := 1\<rparr>"

definition fresh :: "world \<Rightarrow> bool" where
  "fresh w \<longleftrightarrow> initial_world w \<and> our_type w = OurNode"

lemma fresh_node:
  assumes "fresh w"
  obtains cert sz idle keep cache d where "w = (context_new cert sz idle keep OurNode cache d)\<lparr>listening := True\<rparr>"
  using assms by (fastforce simp: fresh_def initial_world_def context_new_def)

section \<open>The steps\<close>

lemmas run_defs =
  el_exec_def qp2p_send_def finish_attempt_def handle_new_connection_res_def handle_new_conn_def read_peer_stream_def
  run_read_task_def run_write_task_def connect_to_def new_client_cfg_def new_transport_cfg_def entry_or_insert_def
  make_group_ref_def connection_new_def initiate_connection_def set_we_contacted_peer_def take_group_ref_event_def
  greet_peer_def write_or_queue_def handle_wire_msg_def handle_rx_handshake_def handle_rx_cert_def try_write_to_peer_def
  read_from_peer_def effect_defs node_info_into_peer_def default_to_peer_def to_peer_default_def default_from_peer_def
  from_peer_default_def Let_def context_new_def

lemma flush_writes:
  "flush_pending_sends a q ms w = w\<lparr>writes := writes w @ map (\<lambda>m. \<lparr>wt_peer_addr = a, wt_q_conn = q, wt_msg = m\<rparr>) ms\<rparr>"
  unfolding flush_pending_sends_def by (induction ms arbitrary: w) (simp_all add: write_to_peer_connection_def)

lemma dispatch_user_msgs:
  "our_ext_addr_tx w = None \<Longrightarrow>
    fold_p (take_and_dispatch E (PeerNode ni) q False) (map UserMsg ms) w =
    Inr (w\<lparr>events := events w @ map (NewMessage (ni_peer_addr ni)) ms\<rparr>)"
  by (induction ms arbitrary: w)
    (simp_all add: take_and_dispatch_def dispatch_wire_msg_def handle_user_msg_def drop_inform_tx_def send_event_def)

lemma send_first:
  "fresh w \<Longrightarrow> can_dial E y cy \<Longrightarrow> el_exec E w (PostSend (PeerNode (node_at y cy)) m) = Some (Inr (dialling w y cy [m]))"
  by (erule fresh_node) (simp add: dialling_def can_dial_def run_defs)

lemma send_next:
  "fresh w \<Longrightarrow> el_exec E (dialling w y cy ms) (PostSend (PeerNode (node_at y cy)) m) = Some (Inr (dialling w y cy (ms @ [m])))"
  by (erule fresh_node) (simp add: dialling_def run_defs)

lemma connects:
  "fresh w \<Longrightarrow> el_exec E (dialling w y cy ms) (AttemptConnected 0) =
    Some (Inr (writing w y cy (add_peer (peers_codec E) (node_at y cy) (bootstrap_cache w, the_disk w))
      (Handshake (HandshakeNode (cert_der (our_complete_cert w))) # map UserMsg ms) []))"
  by (erule fresh_node)
    (simp add: dialling_def writing_def run_defs flush_writes write_to_peer_connection_def cache_add_peer_def split: prod.split)

lemma writes_next:
  "fresh w \<Longrightarrow> into_bytes (msg_codec E) m = Inr bs \<Longrightarrow>
    el_exec E (writing w y cy cd (m # todo) streams) (write_done y m) = Some (Inr (writing w y cy cd todo (streams @ [bs])))"
  by (erule fresh_node) (simp add: writing_def write_done_def run_defs)

lemma accepts:
  "fresh w \<Longrightarrow> el_exec E w (IncomingConnection x) = Some (Inr (accepting w x 0))"
  by (erule fresh_node) (simp add: accepting_def run_defs)

lemma stream_next:
  "fresh w \<Longrightarrow> el_exec E (accepting w x k) (StreamArrived 0 x UniStream) = Some (Inr (accepting w x (Suc k)))"
  by (erule fresh_node) (simp add: accepting_def run_defs replicate_append_same)

lemma answers:
  "fresh w \<Longrightarrow> can_dial E x cx \<Longrightarrow> from_raw (msg_codec E) hs = Inr (Handshake (HandshakeNode cx)) \<Longrightarrow>
    length hs \<le> max_msg_size_allowed w \<Longrightarrow>
    el_exec E (accepting w x (Suc k)) (ReadFinished x (Inr hs)) = Some (Inr (answering w x cx k []))"
  by (erule fresh_node) (simp add: accepting_def answering_def can_dial_def run_defs)

lemma reads_next:
  "fresh w \<Longrightarrow> from_raw (msg_codec E) raw = Inr (UserMsg m) \<Longrightarrow> length raw \<le> max_msg_size_allowed w \<Longrightarrow>
    el_exec E (answering w x cx (Suc k) ms) (ReadFinished x (Inr raw)) = Some (Inr (answering w x cx k (ms @ [m])))"
  by (erule fresh_node) (simp add: answering_def run_defs)

lemma delivers_all:
  "fresh w \<Longrightarrow> \<exists>w'. el_exec E (answering w x cx k ms) (AttemptConnected 0) = Some (Inr w') \<and>
    events w' = ConnectedTo (PeerNode (node_at x cx)) # map (NewMessage x) ms"
  by (erule fresh_node) (simp add: answering_def run_defs dispatch_user_msgs flush_writes)

section \<open>In the network\<close>

text \<open>The worlds of two members, with the ends and the dials of the first\<close>

definition at :: "socket_addr \<Rightarrow> socket_addr \<Rightarrow> world \<Rightarrow> world \<Rightarrow> (nat \<rightharpoonup> socket_addr) \<Rightarrow> socket_addr list \<Rightarrow> network \<Rightarrow> bool" where
  "at x y w v es ds n \<longleftrightarrow> members n x = Some w \<and> members n y = Some v \<and> ends n x = es \<and> dials n x = ds"

definition leads :: "(socket_addr \<Rightarrow> extern) \<Rightarrow> (network \<Rightarrow> bool) \<Rightarrow> (socket_addr \<times> label) list \<Rightarrow> (network \<Rightarrow> bool) \<Rightarrow> bool" where
  "leads E P ls Q \<longleftrightarrow> (\<forall>n. P n \<longrightarrow> (\<exists>n'. net_run E ls n = Some n' \<and> Q n'))"

lemma net_run_append: "net_run E (ls @ ls') n = (case net_run E ls n of None \<Rightarrow> None | Some n' \<Rightarrow> net_run E ls' n')"
  by (induction E ls n rule: net_run.induct) (auto split: option.splits sum.splits)

lemma leads_append: "leads E P ls Q \<Longrightarrow> leads E Q ls' R \<Longrightarrow> leads E P (ls @ ls') R"
  unfolding leads_def by (fastforce simp: net_run_append)

lemma leads_Cons: "leads E P [l] Q \<Longrightarrow> leads E Q ls R \<Longrightarrow> leads E P (l # ls) R"
  using leads_append [of E P "[l]" Q ls R] by simp

lemma leads_nil: "leads E P [] P"
  by (simp add: leads_def)

text \<open>Repeating a step along a list\<close>

lemma leads_list:
  assumes "\<And>i. i < length ls \<Longrightarrow> leads E (P i) [ls ! i] (P (Suc i))"
  shows "leads E (P 0) ls (P (length ls))"
  using assms
proof (induction ls rule: rev_induct)
  case Nil
  show ?case by (simp add: leads_nil)
next
  case (snoc l ls)
  have "leads E (P 0) ls (P (length ls))" using snoc.prems by (intro snoc.IH) (metis less_SucI length_append_singleton nth_append)
  moreover have "leads E (P (length ls)) [l] (P (Suc (length ls)))" using snoc.prems [of "length ls"] by simp
  ultimately show ?case using leads_append by fastforce
qed

lemma leads_map:
  assumes "\<And>i. i < length xs \<Longrightarrow> leads E (P i) [f (xs ! i)] (P (Suc i))" and "ls = map f xs" and "A = P 0" and "B = P (length xs)"
  shows "leads E A ls B"
  using leads_list [of "map f xs" E P] assms by simp

lemma leads_first:
  assumes "el_exec (E x) w l = Some (Inr w')" and "x \<noteq> y" and "\<And>n. at x y w v es ds n \<Longrightarrow> net_delivers n x l"
  shows "leads E (at x y w v es ds) [(x, l)]
    (at x y w' v (case net_new_end w l of None \<Rightarrow> es | Some a \<Rightarrow> es(next_q w \<mapsto> a))
      (ds @ List.map_filter (attempts w') [next_term w..<next_term w']))"
  using assms by (auto simp: leads_def at_def net_update_def split: option.split)

lemma leads_second:
  assumes "el_exec (E y) v l = Some (Inr v')" and "x \<noteq> y" and "\<And>n. at x y w v es ds n \<Longrightarrow> net_delivers n y l"
  shows "leads E (at x y w v es ds) [(y, l)] (at x y w v' es ds)"
  using assms by (auto simp: leads_def at_def net_update_def split: option.split)

lemma sender_leads:
  assumes "fresh w" and "x \<noteq> y" and "ms \<noteq> []" and "can_dial (E x) y cy" and cy: "cy = cert_der (our_complete_cert v)"
    and "\<And>m. m \<in> set (Handshake (HandshakeNode (cert_der (our_complete_cert w))) # map UserMsg ms) \<Longrightarrow>
      into_bytes (msg_codec (E x)) m = Inr (stream_of (msg_codec (E x)) m)"
  shows "\<exists>cd. leads E (at x y w v Map.empty []) (map (Pair x) (sender_run y (cert_der (our_complete_cert w)) cy ms))
    (at x y (writing w y cy cd [] (map (stream_of (msg_codec (E x))) (Handshake (HandshakeNode (cert_der (our_complete_cert w))) # map UserMsg ms)))
       v [0 \<mapsto> y] [y])"
proof -
  let ?todo = "Handshake (HandshakeNode (cert_der (our_complete_cert w))) # map UserMsg ms"
  let ?s = "stream_of (msg_codec (E x))"
  define cd where "cd = add_peer (peers_codec (E x)) (node_at y cy) (bootstrap_cache w, the_disk w)"
  obtain m ms' where ms: "ms = m # ms'" using assms(3) by (cases ms) auto
  have w: "next_term w = 0" "next_q w = 0" using assms(1) by (auto elim!: fresh_node simp: context_new_def)
  have "leads E (at x y w v Map.empty []) [(x, PostSend (PeerNode (node_at y cy)) m)]
      (at x y (dialling w y cy [m]) v Map.empty [y])"
    using leads_first [where E = E and x = x and v = v and es = Map.empty and ds = "[]", OF send_first [OF assms(1,4)] assms(2)] w
    by (simp add: net_delivers_def net_new_end_def dialling_def map_filter_simps)
  moreover have "leads E (at x y (dialling w y cy [m]) v Map.empty [y])
      (map (Pair x) (map (PostSend (PeerNode (node_at y cy))) ms')) (at x y (dialling w y cy ms) v Map.empty [y])"
  proof (rule leads_map [where P = "\<lambda>i. at x y (dialling w y cy (take (Suc i) ms)) v Map.empty [y]"
        and f = "\<lambda>m. (x, PostSend (PeerNode (node_at y cy)) m)" and xs = ms'])
    fix i assume "i < length ms'"
    then show "leads E (at x y (dialling w y cy (take (Suc i) ms)) v Map.empty [y]) [(x, PostSend (PeerNode (node_at y cy)) (ms' ! i))]
        (at x y (dialling w y cy (take (Suc (Suc i)) ms)) v Map.empty [y])"
      using leads_first [where E = E and x = x and v = v and es = Map.empty and ds = "[y]",
          OF send_next [OF assms(1), of "E x" y cy "m # take i ms'" "ms' ! i"] assms(2)]
      by (simp add: net_delivers_def net_new_end_def dialling_def map_filter_simps ms take_Suc_conv_app_nth)
  qed (simp_all add: ms)
  ultimately have sends: "leads E (at x y w v Map.empty []) (map (Pair x) (map (PostSend (PeerNode (node_at y cy))) ms))
      (at x y (dialling w y cy ms) v Map.empty [y])"
    using leads_Cons by (simp add: ms)
  have conn: "leads E (at x y (dialling w y cy ms) v Map.empty [y]) [(x, AttemptConnected 0)]
      (at x y (writing w y cy cd (drop 0 ?todo) (map ?s (take 0 ?todo))) v [0 \<mapsto> y] [y])"
    using leads_first [where E = E and x = x and v = v and es = Map.empty and ds = "[y]", OF connects [OF assms(1)] assms(2)] w cy
    by (simp add: at_def net_delivers_def net_new_end_def dialling_def writing_def cd_def)
  have "leads E (at x y (writing w y cy cd (drop 0 ?todo) (map ?s (take 0 ?todo))) v [0 \<mapsto> y] [y])
      (map (Pair x) (map (write_done y) ?todo)) (at x y (writing w y cy cd [] (map ?s ?todo)) v [0 \<mapsto> y] [y])"
  proof (rule leads_map [where P = "\<lambda>i. at x y (writing w y cy cd (drop i ?todo) (map ?s (take i ?todo))) v [0 \<mapsto> y] [y]"
        and f = "\<lambda>m. (x, write_done y m)" and xs = ?todo])
    fix i assume i: "i < length ?todo"
    have "into_bytes (msg_codec (E x)) (?todo ! i) = Inr (?s (?todo ! i))" using nth_mem [OF i] by (intro assms(6))
    from leads_first [where E = E and x = x and v = v and es = "[0 \<mapsto> y]" and ds = "[y]",
        OF writes_next [OF assms(1) this, of y cy cd "drop (Suc i) ?todo" "map ?s (take i ?todo)"] assms(2)]
    show "leads E (at x y (writing w y cy cd (drop i ?todo) (map ?s (take i ?todo))) v [0 \<mapsto> y] [y]) [(x, write_done y (?todo ! i))]
        (at x y (writing w y cy cd (drop (Suc i) ?todo) (map ?s (take (Suc i) ?todo))) v [0 \<mapsto> y] [y])"
      unfolding Cons_nth_drop_Suc [OF i] take_Suc_conv_app_nth [OF i]
      by (simp add: net_delivers_def net_new_end_def write_done_def writing_def)
  qed simp_all
  from leads_append [OF sends leads_Cons [OF conn this]] show ?thesis
    unfolding sender_run_def by (intro exI [of _ cd]) simp
qed

lemma receiver_leads:
  assumes "fresh v" and "x \<noteq> y" and "can_dial (E y) x cx" and "es 0 = Some y" and "y \<in> set ds"
    and "\<And>m. m \<in> set (Handshake (HandshakeNode cx) # map UserMsg ms) \<Longrightarrow>
      from_raw (msg_codec (E y)) (stream_of C m) = Inr m \<and> length (stream_of C m) \<le> max_msg_size_allowed v \<and>
      (0, stream_of C m) \<in> set (wire w)"
    and cx: "cx = cert_der (our_complete_cert w)"
  shows "\<exists>v'. events v' = ConnectedTo (PeerNode (node_at x cx)) # map (NewMessage x) ms \<and>
    leads E (at x y w v es ds) (map (Pair y) (receiver_run C x cx ms)) (at x y w v' es ds)"
proof -
  let ?hs = "Handshake (HandshakeNode cx)"
  have delivered: "net_delivers n y (ReadFinished x (Inr (stream_of C m)))"
    if "at x y w u es ds n" "m \<in> set (?hs # map UserMsg ms)" for n u m
  proof -
    have "(0, stream_of C m) \<in> set (wire w)" using assms(6) [OF that(2)] by blast
    then have "list_ex (\<lambda>(q, bs). bs = stream_of C m \<and> es q = Some y) (wire w)"
      using assms(4) unfolding list_ex_iff by (intro bexI) simp_all
    then show ?thesis using that(1) by (simp add: at_def net_delivers_def)
  qed
  have "leads E (at x y w v es ds) [(y, IncomingConnection x)] (at x y w (accepting v x 0) es ds)"
    using assms(5) by (intro leads_second [where E = E and y = y, OF accepts [OF assms(1)] assms(2)]) (simp add: at_def net_delivers_def)
  moreover have "leads E (at x y w (accepting v x 0) es ds) (replicate (Suc (length ms)) (y, StreamArrived 0 x UniStream))
      (at x y w (accepting v x (Suc (length ms))) es ds)"
  proof (rule leads_map [where P = "\<lambda>k. at x y w (accepting v x k) es ds" and f = "\<lambda>_. (y, StreamArrived 0 x UniStream)"
        and xs = "replicate (Suc (length ms)) ()"])
    show "leads E (at x y w (accepting v x k) es ds) [(y, StreamArrived 0 x UniStream)] (at x y w (accepting v x (Suc k)) es ds)" for k
      by (intro leads_second [where E = E and y = y, OF stream_next [OF assms(1)] assms(2)]) (simp add: net_delivers_def)
  qed simp_all
  moreover have "leads E (at x y w (accepting v x (Suc (length ms))) es ds) [(y, ReadFinished x (Inr (stream_of C ?hs)))]
      (at x y w (answering v x cx (length ms) []) es ds)"
    using assms(6) [of ?hs] delivered [of _ _ ?hs]
    by (intro leads_second [where E = E and y = y, OF answers [OF assms(1,3)] assms(2)]) simp_all
  moreover have "leads E (at x y w (answering v x cx (length ms) []) es ds)
      (map (Pair y) (map (\<lambda>m. ReadFinished x (Inr (stream_of C m))) (map UserMsg ms)))
      (at x y w (answering v x cx 0 ms) es ds)"
  proof (rule leads_map [where P = "\<lambda>i. at x y w (answering v x cx (length ms - i) (take i ms)) es ds"
        and f = "\<lambda>m. (y, ReadFinished x (Inr (stream_of C (UserMsg m))))" and xs = ms])
    fix i assume i: "i < length ms"
    then have m: "UserMsg (ms ! i) \<in> set (?hs # map UserMsg ms)" by simp
    have "el_exec (E y) (answering v x cx (Suc (length ms - Suc i)) (take i ms)) (ReadFinished x (Inr (stream_of C (UserMsg (ms ! i))))) =
        Some (Inr (answering v x cx (length ms - Suc i) (take i ms @ [ms ! i])))"
      using assms(6) [OF m] by (intro reads_next [OF assms(1)]) simp_all
    then show "leads E (at x y w (answering v x cx (length ms - i) (take i ms)) es ds)
        [(y, ReadFinished x (Inr (stream_of C (UserMsg (ms ! i)))))]
        (at x y w (answering v x cx (length ms - Suc i) (take (Suc i) ms)) es ds)"
      using i delivered [OF _ m] by (intro leads_second [where E = E and y = y, OF _ assms(2)]) (simp_all add: Suc_diff_Suc take_Suc_conv_app_nth)
  qed simp_all
  moreover obtain v' where v': "el_exec (E y) (answering v x cx 0 ms) (AttemptConnected 0) = Some (Inr v')"
      "events v' = ConnectedTo (PeerNode (node_at x cx)) # map (NewMessage x) ms"
    using delivers_all [OF assms(1)] by blast
  have "leads E (at x y w (answering v x cx 0 ms) es ds) [(y, AttemptConnected 0)] (at x y w v' es ds)"
    using cx by (intro leads_second [where E = E and y = y, OF v'(1) assms(2)])
      (simp add: at_def net_delivers_def answering_def)
  ultimately have "leads E (at x y w v es ds)
      ([(y, IncomingConnection x)] @ replicate (Suc (length ms)) (y, StreamArrived 0 x UniStream) @
       [(y, ReadFinished x (Inr (stream_of C ?hs)))] @
       map (Pair y) (map (\<lambda>m. ReadFinished x (Inr (stream_of C m))) (map UserMsg ms)) @ [(y, AttemptConnected 0)])
      (at x y w v' es ds)"
    by (intro leads_append)
  then show ?thesis using v'(2) by (auto simp: receiver_run_def)
qed

section \<open>Messages arrive\<close>

lemma written_streams:
  assumes "bincode_wire C" and "length c \<le> 1008" and "\<forall>m \<in> set ms. length m \<le> 1012 \<or> 1024 < length m"
    and "\<forall>m \<in> set ms. length m + 12 \<le> sz" and "1024 \<le> sz" and "m \<in> set (Handshake (HandshakeNode c) # map UserMsg ms)"
  shows "into_bytes C m = Inr (stream_of C m)" and "from_raw C (stream_of C m) = Inr m" and "length (stream_of C m) \<le> sz"
proof -
  obtain raw where "into_bytes C m = Inr raw" "from_raw C raw = Inr m" "length raw \<le> sz"
  proof (cases m)
    case (UserMsg u)
    then have "u \<in> set ms" using assms(6) by auto
    then have "length u \<le> 1012 \<or> 1024 < length u" "length u + 12 \<le> sz" using assms(3,4) by blast+
    then show ?thesis using that bincode_wire.user_msg_stream [OF assms(1)] UserMsg by (meson le_trans)
  next
    case (Handshake h)
    then have "m = Handshake (HandshakeNode c)" using assms(6) by auto
    then show ?thesis using that bincode_wire.handshake_node_stream [OF assms(1,2)] assms(5) by (meson le_trans)
  qed (use assms(6) in auto)
  then show "into_bytes C m = Inr (stream_of C m)" "from_raw C (stream_of C m) = Inr m" "length (stream_of C m) \<le> sz"
    by (simp_all add: stream_of_def)
qed

text \<open>
  C4. Messages arrive: in a network of fresh nodes in which one can dial another and be
  dialled back, whatever its user sends to the other before they are connected is
  delivered by the run in which the attempts succeed, the streams are written and each is
  read: the other node first announces the sender with its certificate and then
  delivers all messages, in whatever order their streams are read. The messages are of
  lengths that arrive unchanged, and the streams within the receiver's limit.
\<close>

theorem sent_messages_arrive:
  assumes "bincode_wire C" and "\<And>z. msg_codec (E z) = C" and "net_initial n"
    and "members n x = Some w" and "members n y = Some v" and "x \<noteq> y" and "our_type w = OurNode" and "our_type v = OurNode"
    and "can_dial (E x) y (cert_der (our_complete_cert v))" and "can_dial (E y) x (cert_der (our_complete_cert w))"
    and "length (cert_der (our_complete_cert w)) \<le> 1008" and "1024 \<le> max_msg_size_allowed v" and "ms \<noteq> []"
    and "\<And>m. m \<in> set ms \<Longrightarrow> length m \<le> 1012 \<or> 1024 < length m"
    and "\<And>m. m \<in> set ms \<Longrightarrow> length m + 12 \<le> max_msg_size_allowed v" and "mset ms' = mset ms"
  shows "\<exists>n' v'. net_run E (map (Pair x) (sender_run y (cert_der (our_complete_cert w)) (cert_der (our_complete_cert v)) ms) @
        map (Pair y) (receiver_run C x (cert_der (our_complete_cert w)) ms')) n = Some n' \<and>
    members n' y = Some v' \<and>
    events v' = ConnectedTo (PeerNode (node_at x (cert_der (our_complete_cert w)))) # map (NewMessage x) ms'"
proof -
  let ?cx = "cert_der (our_complete_cert w)" and ?cy = "cert_der (our_complete_cert v)"
  let ?todo = "Handshake (HandshakeNode ?cx) # map UserMsg ms"
  have fresh: "fresh w" "fresh v" using assms(3-5,7,8) by (simp_all add: fresh_def net_initial_def)
  have set: "set (Handshake (HandshakeNode ?cx) # map UserMsg ms') = set ?todo" using mset_eq_setD [OF assms(16)] by simp
  have "\<forall>m \<in> set ms. length m \<le> 1012 \<or> 1024 < length m" "\<forall>m \<in> set ms. length m + 12 \<le> max_msg_size_allowed v"
    using assms(14,15) by blast+
  note streams = written_streams [OF assms(1,11) this assms(12)]
  obtain cd where "leads E (at x y w v Map.empty []) (map (Pair x) (sender_run y ?cx ?cy ms))
      (at x y (writing w y ?cy cd [] (map (stream_of C) ?todo)) v [0 \<mapsto> y] [y])"
    using sender_leads [where E = E and x = x, OF fresh(1) assms(6,13,9) refl] streams(1) unfolding assms(2) by blast
  moreover obtain v' where v': "events v' = ConnectedTo (PeerNode (node_at x ?cx)) # map (NewMessage x) ms'"
      "leads E (at x y (writing w y ?cy cd [] (map (stream_of C) ?todo)) v [0 \<mapsto> y] [y])
        (map (Pair y) (receiver_run C x ?cx ms')) (at x y (writing w y ?cy cd [] (map (stream_of C) ?todo)) v' [0 \<mapsto> y] [y])"
  proof -
    have "from_raw (msg_codec (E y)) (stream_of C m) = Inr m \<and> length (stream_of C m) \<le> max_msg_size_allowed v \<and>
        (0, stream_of C m) \<in> set (wire (writing w y ?cy cd [] (map (stream_of C) ?todo)))"
      if "m \<in> set (Handshake (HandshakeNode ?cx) # map UserMsg ms')" for m
    proof -
      have m: "m \<in> set ?todo" using that unfolding set .
      then have "(0, stream_of C m) \<in> set (wire (writing w y ?cy cd [] (map (stream_of C) ?todo)))"
        unfolding writing_def by auto
      then show ?thesis using streams(2,3) [OF m] assms(2) by simp
    qed
    moreover have "?cx = cert_der (our_complete_cert (writing w y ?cy cd [] (map (stream_of C) ?todo)))"
      by (simp add: writing_def)
    moreover have "[0 \<mapsto> y] 0 = Some y" "y \<in> set [y]" by simp_all
    ultimately show thesis
      using that receiver_leads [where E = E and y = y and C = C and ms = ms', OF fresh(2) assms(6,10)] by blast
  qed
  ultimately have "leads E (at x y w v Map.empty []) (map (Pair x) (sender_run y ?cx ?cy ms) @ map (Pair y) (receiver_run C x ?cx ms'))
      (at x y (writing w y ?cy cd [] (map (stream_of C) ?todo)) v' [0 \<mapsto> y] [y])"
    using leads_append by blast
  moreover have "at x y w v Map.empty [] n" using assms(3-5) by (simp add: at_def net_initial_def)
  ultimately show ?thesis using v'(1) unfolding leads_def at_def by blast
qed

theorem sent_messages_arrive_witness:
  "\<exists>ls n' v'. net_run (\<lambda>_. sample_extern) ls two_nodes = Some n' \<and> members n' addr2 = Some v' \<and>
    events v' = [ConnectedTo (PeerNode (node_at addr1 [1])), NewMessage addr1 [7], NewMessage addr1 [5, 6], NewMessage addr1 []]"
proof -
  have "net_initial two_nodes"
    by (auto simp: net_initial_def two_nodes_def sample_start_initial second_start_initial Let_def split: if_splits)
  moreover have "members two_nodes addr1 = Some (sample_start OurNode)" "members two_nodes addr2 = Some second_start"
    "addr1 \<noteq> addr2" by (simp_all add: two_nodes_def addr1_def addr2_def Let_def)
  moreover have "our_type (sample_start OurNode) = OurNode" "our_type second_start = OurNode"
    "cert_der (our_complete_cert (sample_start OurNode)) = [1]" "max_msg_size_allowed second_start = 4096"
    by (simp_all add: second_start_def sample_start_def context_new_def)
  moreover have "can_dial sample_extern a c" for a c by (simp add: can_dial_def sample_extern_def bincode_extern_def)
  moreover have "length m \<le> 1012 \<or> 1024 < length m" "length m + 12 \<le> 4096"
    if "m \<in> set [[5, 6], [7], []]" for m :: bytes
    using that by auto
  moreover have "mset [[7], [5, 6], []] = mset [[5, 6], [7], [] :: bytes]" by simp
  ultimately have "\<exists>n' v'. net_run (\<lambda>_. sample_extern)
      (map (Pair addr1) (sender_run addr2 [1] (cert_der (our_complete_cert second_start)) [[5, 6], [7], []]) @
       map (Pair addr2) (receiver_run (msg_codec sample_extern) addr1 [1] [[7], [5, 6], []])) two_nodes = Some n' \<and>
      members n' addr2 = Some v' \<and>
      events v' = ConnectedTo (PeerNode (node_at addr1 [1])) # map (NewMessage addr1) [[7], [5, 6], []]"
    using sent_messages_arrive [OF sample_codec refl, of two_nodes addr1 "sample_start OurNode" addr2 second_start
        "[[5, 6], [7], []]" "[[7], [5, 6], []]"] by simp
  then show ?thesis unfolding list.map by blast
qed

end
