(* ===== verification/Unit_Tests.thy ===== *)
theory Unit_Tests
  imports Scenario
begin

text \<open>
  The unit tests the sources carry for the bootstrap cache, the configuration file and
  \<open>handle_user_msg\<close>, with the helpers of \<open>utils::testing\<close>. A test returns or
  panics; what it draws at random is an argument. The tests pass for every draw in
  which the random nodes differ, on a disk that works.
\<close>

section \<open>Helpers (src/utils.rs, testing)\<close>

definition hex_digit :: "nat \<Rightarrow> char" where
  "hex_digit k = ''0123456789abcdef'' ! (k mod 16)"

text \<open>\<open>{:016x}\<close> of a \<open>u64\<close>\<close>

definition hex16 :: "u64 \<Rightarrow> string" where
  "hex16 r = map (\<lambda>i. hex_digit (unat r div 16 ^ i)) (rev [0..<16])"

definition tmp_rand_dir :: "path \<Rightarrow> u64 \<Rightarrow> path" where
  "tmp_rand_dir temp_dir r = path_join temp_dir (''quic_p2p_tests_'' @ hex16 r)"

definition test_dirs :: "path \<Rightarrow> u64 \<Rightarrow> dirs" where
  "test_dirs temp_dir r = Overide (tmp_rand_dir temp_dir r)"

text \<open>\<open>rand_node_info\<close>; the generated certificate and the port are what was drawn.\<close>

definition rand_node_info :: "bytes \<times> u16 \<Rightarrow> node_info" where
  "rand_node_info = (\<lambda>(cert, port). \<lparr>ni_peer_addr = SocketAddrV4 2130706433 port, ni_peer_cert_der = cert\<rparr>)"

section \<open>Tests\<close>

text \<open>
  What the tests are run with: the serialisation, the answer of the \<open>directories\<close>
  crate, the temporary directory, the number drawn for its name, and the certificates
  and ports drawn one after the other.
\<close>

record test_env =
  te_codec :: "node_info list codec"
  te_found :: "project_dirs option"
  te_temp :: path
  te_dir :: u64
  te_draw :: "nat \<Rightarrow> bytes \<times> u16"

definition te_dirs :: "test_env \<Rightarrow> dirs" where
  "te_dirs T = test_dirs (te_temp T) (te_dir T)"

definition te_node :: "test_env \<Rightarrow> nat \<Rightarrow> node_info" where
  "te_node T k = rand_node_info (te_draw T k)"

text \<open>\<open>unwrap!(BootstrapCache::new(hard_coded, Some(&dirs)))\<close>, and what follows it\<close>

definition with_cache ::
  "test_env \<Rightarrow> node_info list \<Rightarrow> disk \<Rightarrow> (cache_state \<Rightarrow> panic + unit) \<Rightarrow> panic + unit" where
  "with_cache T hard_coded d rest =
    (let (res, d1) = bootstrap_cache_new (te_codec T) (te_found T) hard_coded (Some (te_dirs T)) d
     in bind_p (unwrap_p res) (\<lambda>cache. rest (cache, d1)))"

definition when_10_peers_are_added_they_are_synced_to_disk :: "test_env \<Rightarrow> disk \<Rightarrow> panic + unit" where
  "when_10_peers_are_added_they_are_synced_to_disk T d =
    with_cache T [] d (\<lambda>st.
      let st1 = fold (\<lambda>k. add_peer (te_codec T) (te_node T k)) [0..<10] st
      in bind_p (assert_p (length (peers (fst st1)) = 10)) (\<lambda>_.
           with_cache T [] (snd st1) (\<lambda>st2. assert_p (length (peers (fst st2)) = 10))))"

definition when_given_peer_is_in_hard_coded_contacts_it_is_not_cached :: "test_env \<Rightarrow> disk \<Rightarrow> panic + unit" where
  "when_given_peer_is_in_hard_coded_contacts_it_is_not_cached T d =
    (let peer1 = te_node T 0;
         peer2 = te_node T 1;
         hard_coded = [peer1]
     in with_cache T hard_coded d (\<lambda>st.
          let st1 = add_peer (te_codec T) peer1 st;
              st2 = add_peer (te_codec T) peer2 st1
          in assert_p (peers (fst st2) = [peer2])))"

definition it_caps_cache_size :: "test_env \<Rightarrow> disk \<Rightarrow> panic + unit" where
  "it_caps_cache_size T d =
    with_cache T [] d (\<lambda>st.
      let st1 = fold (\<lambda>k. add_peer (te_codec T) (te_node T k)) [0..<MAX_CACHE_SIZE] st
      in bind_p (assert_p (length (peers (fst st1)) = MAX_CACHE_SIZE)) (\<lambda>_.
           let st2 = add_peer (te_codec T) (te_node T MAX_CACHE_SIZE) st1
           in assert_p (length (peers (fst st2)) = MAX_CACHE_SIZE)))"

definition it_moves_given_node_to_the_top_of_the_list :: "test_env \<Rightarrow> disk \<Rightarrow> panic + unit" where
  "it_moves_given_node_to_the_top_of_the_list T d =
    with_cache T [] d (\<lambda>st.
      let peer1 = te_node T 0;
          peer2 = te_node T 1;
          peer3 = te_node T 2;
          st1 = add_peer (te_codec T) peer1 st;
          st2 = add_peer (te_codec T) peer2 st1;
          st3 = add_peer (te_codec T) peer3 st2;
          st4 = move_to_cache_top peer2 st3
      in assert_p (peers (fst st4) = [peer1, peer3, peer2]))"

text \<open>
  The test of \<open>handle_user_msg\<close> owns its event channel and its cache; they are
  fields of the world \<open>w\<close>, of which the function uses nothing else.
\<close>

definition when_peer_is_node_and_we_contacted_it_before_it_is_moved_to_bootstrap_cache_top ::
  "extern \<Rightarrow> test_env \<Rightarrow> world \<Rightarrow> disk \<Rightarrow> panic + unit" where
  "when_peer_is_node_and_we_contacted_it_before_it_is_moved_to_bootstrap_cache_top E T w d =
    (let peer1 = te_node T 0;
         peer2 = te_node T 1;
         peer = PeerNode peer1
     in with_cache T [] d (\<lambda>st.
          let st1 = add_peer (te_codec T) peer1 st;
              st2 = add_peer (te_codec T) peer2 st1;
              w1 = handle_user_msg E peer [] True (w\<lparr>bootstrap_cache := fst st2, the_disk := snd st2\<rparr>)
          in assert_p (peers (bootstrap_cache w1) = [peer2, peer1])))"

definition config_create_read_and_write ::
  "config codec \<Rightarrow> project_dirs option \<Rightarrow> serialisable_certificate \<Rightarrow> dirs \<Rightarrow> disk \<Rightarrow> panic + unit" where
  "config_create_read_and_write C found generated dir d =
    bind_p (unwrap_p (config_path found (Some dir))) (\<lambda>path.
      let (before, d1) = read_from_disk C path d
      in bind_p (assert_p (isl before)) (\<lambda>_.
           let (res, d2) = read_or_construct_default C found generated (Some dir) d1
           in bind_p (unwrap_p res) (\<lambda>cfg.
                bind_p (unwrap_p (fst (read_from_disk C path d2))) (\<lambda>read_cfg.
                  assert_p (cfg = read_cfg)))))"

section \<open>A fresh cache\<close>

definition fresh_for :: "test_env \<Rightarrow> disk \<Rightarrow> bool" where
  "fresh_for T d \<longleftrightarrow> io_reliable d \<and> \<not> path_exists (path_join (cache_dir (te_dirs T)) ''bootstrap_cache'') d"

definition fresh_cache :: "test_env \<Rightarrow> node_info list \<Rightarrow> bootstrap_cache" where
  "fresh_cache T hcc = \<lparr>peers = [], cache_path = path_join (cache_dir (te_dirs T)) ''bootstrap_cache'',
     add_count = 0, hard_coded_contacts = hcc\<rparr>"

lemma with_fresh_cache:
  assumes "fresh_for T d"
  obtains d1 where "io_reliable d1" "\<And>rest. with_cache T hcc d rest = rest (fresh_cache T hcc, d1)"
proof
  let ?d1 = "d\<lparr>io_seq := Suc (io_seq d), created_dirs := cache_dir (te_dirs T) # created_dirs d\<rparr>"
  show "io_reliable ?d1" using assms by (simp add: fresh_for_def io_reliable_def)
  have "\<not> io_fault d (io_seq d)" using assms io_reliable_now by (simp add: fresh_for_def)
  then show "with_cache T hcc d rest = rest (fresh_cache T hcc, ?d1)" for rest
    using assms by (simp add: with_cache_def bootstrap_cache_new_def fresh_for_def fresh_cache_def
        path_parent_def path_join_def create_dir_all_def io_step_def unwrap_p_def Let_def)
qed

text \<open>Adding up to 200 different nodes to a fresh cache keeps them all.\<close>

lemma fold_te_node:
  "fold (\<lambda>k. add_peer C (te_node T k)) ks st = fold (add_peer C) (map (te_node T) ks) st"
  by (simp add: fold_map comp_def)

lemma fresh_cache_keeps:
  assumes "distinct ps" and "length ps \<le> MAX_CACHE_SIZE"
  shows "peers (fst (fold (add_peer C) ps (fresh_cache T [], d))) = ps"
  using bcache.fold_suffix [of ps "(fresh_cache T [], d)" C] assms by (auto simp: fresh_cache_def)

text \<open>Up to nine insertions only count; the tenth one writes.\<close>

lemma fresh_cache_counts:
  assumes "distinct ps" and "length ps \<le> 9"
  shows "fold (add_peer C) ps (fresh_cache T [], d) =
    ((fresh_cache T [])\<lparr>peers := ps, add_count := of_nat (length ps)\<rparr>, d)"
  using assms
proof (induction ps rule: rev_induct)
  case Nil
  then show ?case by (simp add: fresh_cache_def)
next
  case (snoc p ps)
  have "unat (of_nat (length ps) :: u8) = length ps" using snoc.prems by (simp add: unat_of_nat)
  then have "of_nat (length ps) \<le> (9 :: u8)" "of_nat (length ps) \<noteq> (9 :: u8)"
    using snoc.prems by (auto simp: word_le_nat_alt word_unat_eq_iff)
  moreover have "pushed p ps = ps @ [p]" using snoc.prems by (simp add: pushed_def MAX_CACHE_SIZE_def)
  ultimately show ?case using snoc
    by (simp add: add_peer_def insert_new_counts cache_inv_def fresh_cache_def add.commute)
qed

lemma ten_are_written:
  assumes "distinct ps" and "length ps = 10" and "faithful_codec (te_codec T) ok" and "ok ps"
    and "io_reliable d"
  shows "\<exists>st2. with_cache T [] (snd (fold (add_peer (te_codec T)) ps (fresh_cache T [], d))) rest =
    rest st2 \<and> peers (fst st2) = ps"
proof -
  obtain qs q where ps: "ps = qs @ [q]" using assms(2) by (cases ps rule: rev_cases) auto
  let ?p = "path_join (cache_dir (te_dirs T)) ''bootstrap_cache''"
  let ?d = "snd (fold (add_peer (te_codec T)) ps (fresh_cache T [], d))"
  have "?d = snd (write_to_disk (te_codec T) ?p ps d)"
    using assms(1,2) ps fresh_cache_counts [of qs "te_codec T" T d]
    by (simp add: add_peer_def insert_new_syncs pushed_def MAX_CACHE_SIZE_def fresh_cache_def)
  then have "path_exists ?p ?d" "fst (read_from_disk (te_codec T) ?p ?d) = Inr ps"
    using faithful_codec.write_read_roundtrip [OF assms(3,5,4), of ?p] by (auto simp: path_exists_def)
  moreover from this obtain d2 where "read_from_disk (te_codec T) ?p ?d = (Inr ps, d2)" by (metis prod.collapse)
  ultimately have "with_cache T [] ?d rest = rest ((fresh_cache T [])\<lparr>peers := ps\<rparr>, d2)"
    by (simp add: with_cache_def bootstrap_cache_new_def unwrap_p_def fresh_cache_def)
  then show ?thesis by fastforce
qed

section \<open>The tests pass\<close>

lemma inj_rand_node_info: "inj rand_node_info"
  by (auto simp: inj_def rand_node_info_def)

lemma te_nodes_distinct:
  assumes "inj_on (te_draw T) {..200}" and "set ks \<subseteq> {..200}" and "distinct ks"
  shows "distinct (map (te_node T) ks)"
proof -
  have "inj_on (rand_node_info \<circ> te_draw T) (set ks)"
    using inj_on_subset [OF assms(1,2)] inj_on_subset [OF inj_rand_node_info] by (auto intro: comp_inj_on)
  then have "inj_on (te_node T) (set ks)" by (simp add: te_node_def comp_def inj_on_def)
  then show ?thesis using assms(3) by (simp add: distinct_map)
qed

lemma fresh_cache_capped:
  assumes "inj_on (te_draw T) {..200}"
  defines "st \<equiv> \<lambda>C d. fold (add_peer C) (map (te_node T) [0..<MAX_CACHE_SIZE]) (fresh_cache T [], d)"
  shows "length (peers (fst (st C d))) = MAX_CACHE_SIZE"
    and "length (peers (fst (add_peer C (te_node T MAX_CACHE_SIZE) (st C d)))) = MAX_CACHE_SIZE"
proof -
  have k: "peers (fst (st C d)) = map (te_node T) [0..<MAX_CACHE_SIZE]"
    unfolding st_def
    by (rule fresh_cache_keeps [OF te_nodes_distinct [OF assms(1)]]) (auto simp: MAX_CACHE_SIZE_def)
  then show "length (peers (fst (st C d))) = MAX_CACHE_SIZE" by simp
  have "distinct (map (te_node T) (MAX_CACHE_SIZE # [0..<MAX_CACHE_SIZE]))"
    by (rule te_nodes_distinct [OF assms(1)]) (auto simp: MAX_CACHE_SIZE_def)
  then have "te_node T MAX_CACHE_SIZE \<notin> set (peers (fst (st C d)))" unfolding k by simp
  moreover have "hard_coded_contacts (fst (st C d)) = []"
    using bcache.pinned_fold [of C "map (te_node T) [0..<MAX_CACHE_SIZE]" "(fresh_cache T [], d)"]
    by (simp add: st_def fresh_cache_def)
  ultimately show "length (peers (fst (add_peer C (te_node T MAX_CACHE_SIZE) (st C d)))) = MAX_CACHE_SIZE"
    by (simp add: add_peer_def peers_insert_new k pushed_def)
qed

text \<open>
  The unit tests of the bootstrap cache pass, whatever certificates and ports they
  draw, as long as the nodes drawn in one test differ, the temporary directory is
  fresh, the disk works and the serialisation gives back what it was given.
\<close>

theorem cache_tests_pass:
  assumes "fresh_for T d" and "inj_on (te_draw T) {..200}"
    and "faithful_codec (te_codec T) ok" and "ok (map (te_node T) [0..<10])"
  shows "when_10_peers_are_added_they_are_synced_to_disk T d = Inr () \<and>
    when_given_peer_is_in_hard_coded_contacts_it_is_not_cached T d = Inr () \<and>
    it_caps_cache_size T d = Inr () \<and>
    it_moves_given_node_to_the_top_of_the_list T d = Inr ()"
proof (intro conjI)
  note nodes = te_nodes_distinct [OF assms(2)]
  obtain d1 where d1: "io_reliable d1" "\<And>rest. with_cache T [] d rest = rest (fresh_cache T [], d1)"
    using with_fresh_cache [OF assms(1)] by blast
  have "distinct (map (te_node T) [0..<10])" by (rule nodes) auto
  then show "when_10_peers_are_added_they_are_synced_to_disk T d = Inr ()"
    using ten_are_written [OF _ _ assms(3,4) d1(1), of "\<lambda>st2. assert_p (length (peers (fst st2)) = 10)"]
      fresh_cache_keeps [of "map (te_node T) [0..<10]"]
    by (auto simp: when_10_peers_are_added_they_are_synced_to_disk_def d1(2) fold_te_node assert_p_def
        MAX_CACHE_SIZE_def)
  have "distinct (map (te_node T) [0, 1])" by (rule nodes) auto
  moreover obtain d2 where "\<And>rest. with_cache T [te_node T 0] d rest = rest (fresh_cache T [te_node T 0], d2)"
    using with_fresh_cache [OF assms(1)] by blast
  ultimately show "when_given_peer_is_in_hard_coded_contacts_it_is_not_cached T d = Inr ()"
    by (simp add: when_given_peer_is_in_hard_coded_contacts_it_is_not_cached_def assert_p_def fresh_cache_def
        add_peer_def peers_insert_new pushed_def MAX_CACHE_SIZE_def Let_def)
  show "it_caps_cache_size T d = Inr ()"
    unfolding it_caps_cache_size_def d1(2) fold_te_node
    using fresh_cache_capped [OF assms(2), of "te_codec T" d1] by (simp add: assert_p_def Let_def)
  have "distinct (map (te_node T) [0, 1, 2])" by (rule nodes) auto
  then show "it_moves_given_node_to_the_top_of_the_list T d = Inr ()"
    using fresh_cache_keeps [of "map (te_node T) [0, 1, 2]" "te_codec T" T d1]
    by (simp add: it_moves_given_node_to_the_top_of_the_list_def d1(2) assert_p_def peers_move_to_cache_top
        MAX_CACHE_SIZE_def Let_def)
qed

definition sample_tests :: test_env where
  "sample_tests = \<lparr>te_codec = bincode_peers, te_found = None, te_temp = [''tmp''], te_dir = 48879,
     te_draw = (\<lambda>k. (replicate k 0, 4000))\<rparr>"

lemma sample_tests_ok:
  "fresh_for sample_tests sample_disk" "inj_on (te_draw sample_tests) A"
  "te_codec sample_tests = bincode_peers" "ok_list node_ok (map (te_node sample_tests) [0..<10])"
  by (auto simp: sample_tests_def fresh_for_def io_reliable_def sample_disk_def path_exists_def inj_on_def
      te_node_def rand_node_info_def ok_list_def node_ok_def list_all_iff)

theorem cache_tests_pass_witness:
  "te_dirs sample_tests = Overide [''tmp'', ''quic_p2p_tests_000000000000beef''] \<and>
   when_10_peers_are_added_they_are_synced_to_disk sample_tests sample_disk = Inr () \<and>
   it_caps_cache_size sample_tests sample_disk = Inr ()"
  using cache_tests_pass [OF sample_tests_ok(1,2), of "ok_list node_ok"] peers_file.faithful_codec_axioms
    sample_tests_ok(3,4)
  by (simp add: te_dirs_def test_dirs_def tmp_rand_dir_def sample_tests_def path_join_def hex16_def hex_digit_def
      upt_rec)

text \<open>
  The unit tests of \<open>handle_user_msg\<close> and of the configuration file pass under the
  same conditions, whatever the state of the world otherwise.
\<close>

theorem message_and_config_tests_pass:
  assumes "fresh_for T d" and "te_draw T 0 \<noteq> te_draw T 1" and "peers_codec E = te_codec T"
    and "faithful_codec C ok" and "ok (with_default_cert g)"
    and "\<not> path_exists (path_join (config_dir dir) ''config'') d"
  shows "when_peer_is_node_and_we_contacted_it_before_it_is_moved_to_bootstrap_cache_top E T w d = Inr () \<and>
    config_create_read_and_write C found g dir d = Inr ()"
proof
  have ne: "te_node T 0 \<noteq> te_node T 1"
    using assms(2) inj_eq [OF inj_rand_node_info] by (simp add: te_node_def)
  obtain d1 where d1: "\<And>rest. with_cache T [] d rest = rest (fresh_cache T [], d1)"
    using with_fresh_cache [OF assms(1)] by blast
  let ?st = "add_peer (te_codec T) (te_node T 1) (add_peer (te_codec T) (te_node T 0) (fresh_cache T [], d1))"
  have "peers (fst ?st) = [te_node T 0, te_node T 1]"
    using fresh_cache_keeps [of "[te_node T 0, te_node T 1]" "te_codec T" T d1] ne
    by (simp add: MAX_CACHE_SIZE_def)
  moreover have "te_node T 0 \<notin> set (hard_coded_contacts (fst ?st))" by (simp add: fresh_cache_def)
  ultimately have "peers (fst (add_peer (te_codec T) (te_node T 0) ?st)) = [te_node T 1, te_node T 0]"
    using bcache.add_known [of "te_node T 0" ?st "te_codec T"] by simp
  then show "when_peer_is_node_and_we_contacted_it_before_it_is_moved_to_bootstrap_cache_top E T w d = Inr ()"
    by (simp add: when_peer_is_node_and_we_contacted_it_before_it_is_moved_to_bootstrap_cache_top_def d1
        assert_p_def handle_user_msg_def cache_add_peer_def assms(3) send_event_def Let_def case_prod_beta)
  let ?p = "path_join (config_dir dir) ''config''"
  let ?d1 = "snd (read_from_disk C ?p d)"
  let ?r = "read_or_construct_default C found g (Some dir) ?d1"
  have "io_reliable ?d1" "\<not> path_exists ?p ?d1"
    using assms(1,6) by (auto simp: fresh_for_def io_reliable_def path_exists_def read_from_disk_frame)
  moreover have "config_path found (Some dir) = Inr ?p" by (simp add: config_path_def)
  ultimately obtain bs where r: "fst ?r = Inr (with_default_cert g)" "files (snd ?r) ?p = Some bs"
      "deserialize C bs = Inr (with_default_cert g)" "io_reliable (snd ?r)"
    using read_or_construct_fresh [OF assms(4) _ assms(5), of ?d1 found "Some dir" ?p ?r] by blast
  have "isl (fst (read_from_disk C ?p d))"
    using assms(6) by (auto simp: read_from_disk_def path_exists_def io_step_def dom_def)
  moreover have "fst (read_from_disk C ?p (snd ?r)) = Inr (with_default_cert g)"
    by (rule read_from_disk_reliable [OF r(4,2,3)])
  ultimately show "config_create_read_and_write C found g dir d = Inr ()"
    using r(1) by (simp add: config_create_read_and_write_def config_path_def unwrap_p_def assert_p_def
        case_prod_beta Let_def)
qed

theorem message_and_config_tests_pass_witness:
  "when_peer_is_node_and_we_contacted_it_before_it_is_moved_to_bootstrap_cache_top sample_extern sample_tests
     (sample_start OurNode) sample_disk = Inr () \<and>
   config_create_read_and_write bincode_config None \<lparr>cert_der = [1], key_der = [2]\<rparr> (Overide []) sample_disk =
     Inr ()"
proof -
  have "config_ok (with_default_cert \<lparr>cert_der = [1], key_der = [2]\<rparr>)"
    by (simp add: config_ok_def with_default_cert_def config_default_def ok_list_def)
  moreover have "\<not> path_exists (path_join (config_dir (Overide [])) ''config'') sample_disk"
    by (simp add: path_exists_def sample_disk_def)
  moreover have "te_draw sample_tests 0 \<noteq> te_draw sample_tests 1" "peers_codec sample_extern = te_codec sample_tests"
    by (simp_all add: sample_tests_def sample_extern_def bincode_extern_def)
  ultimately show ?thesis
    using message_and_config_tests_pass [OF sample_tests_ok(1) _ _ config_file.faithful_codec_axioms] by blast
qed

end
