(* ===== verification/Contact_Mark.thy ===== *)
theory Contact_Mark
  imports Message_Flow Scenario
begin

text \<open>
  The mark that the user contacted a peer (\<open>we_contacted_peer\<close>). Calls set it and
  nothing clears it: it lasts as long as the entry of the peer does. Only bootstrapping
  is left out, which may drop an entry and make a new one in one step.
\<close>

definition marked :: "world \<Rightarrow> socket_addr \<Rightarrow> bool" where
  "marked w a \<longleftrightarrow> (case connections w a of None \<Rightarrow> False | Some c \<Rightarrow> we_contacted_peer c)"

text \<open>All marks are kept; or all but those of the entries that are gone.\<close>

definition marks_kept :: "world \<Rightarrow> world \<Rightarrow> bool" where
  "marks_kept w w' \<longleftrightarrow> (\<forall>a. marked w a \<longrightarrow> marked w' a)"

definition marks_last :: "world \<Rightarrow> world \<Rightarrow> bool" where
  "marks_last w w' \<longleftrightarrow> (\<forall>a. marked w a \<longrightarrow> marked w' a \<or> connections w' a = None)"

lemma marks_kept_trans: "marks_kept w w1 \<Longrightarrow> marks_kept w1 w2 \<Longrightarrow> marks_kept w w2"
  by (simp add: marks_kept_def)

lemma marks_kept_last: "marks_kept w w1 \<Longrightarrow> marks_last w1 w2 \<Longrightarrow> marks_last w w2"
  by (auto simp: marks_kept_def marks_last_def)

lemma marks_same: "connections w' = connections w \<Longrightarrow> marks_kept w w'"
  by (simp add: marks_kept_def marked_def)

lemma marks_last_same: "connections w' = connections w \<Longrightarrow> marks_last w w'"
  by (simp add: marks_last_def marked_def)

lemma marks_put:
  "connections w a = Some c \<Longrightarrow> connections w1 = connections w \<Longrightarrow> we_contacted_peer c' = we_contacted_peer c \<Longrightarrow>
    connections w' = (connections w1)(a \<mapsto> c') \<Longrightarrow> marks_kept w w'"
  by (auto simp: marks_kept_def marked_def)

lemma marks_remove: "marks_last w (remove_connection a w)"
  by (auto simp: marks_last_def marked_def world_simps)

lemma marks_connect_err: "marks_last w (handle_connect_err a e w)"
  by (auto simp: handle_connect_err_def marks_remove marks_last_same split: error.split)

lemma marks_comm_err: "marks_last w (handle_communication_err a e w)"
  by (simp add: handle_communication_err_def marks_remove)

lemma connections_make_group_ref [simp]: "connections (snd (make_group_ref maker a t w)) = connections w"
  by (simp add: make_group_ref_def add_member_and_get_group_ref_def effect_defs Let_def split: option.split)

lemma marks_entry:
  assumes "entry_or_insert maker a t w = (c, w1)"
  shows "marks_kept w w1" and "connections w1 a = Some c"
proof -
  have "connections w1 = (connections w)(a \<mapsto> c) \<and> (connections w a = None \<or> connections w a = Some c)"
    using assms by (auto simp: entry_or_insert_conv put_conn_def Let_def split: option.splits)
  then show "marks_kept w w1" "connections w1 a = Some c" by (auto simp: marks_kept_def marked_def)
qed

lemma marks_initiate:
  assumes "initiate_connection E ni msg maker t c w = Inr (r, w')" and "connections w (ni_peer_addr ni) = Some c"
  shows "marks_kept w w'"
  using assms(1)
proof (rule initiate_connection_entry)
  fix ref w1 c'
  assume "w1 = w \<or> w1 = snd (make_group_ref maker (ni_peer_addr ni) t w)"
    and "c' = (if our_type w = OurClient then c\<lparr>from_peer := FpNotNeeded\<rparr> else c)
      \<lparr>bootstrap_group_ref := ref, to_peer := TpInitiated t (ni_peer_cert_der ni) (case msg of None \<Rightarrow> [] | Some m \<Rightarrow> [m])\<rparr>"
    and "w' = w1\<lparr>connections := (connections w1)(ni_peer_addr ni \<mapsto> c')\<rparr> \<or>
      w' = w1\<lparr>connections := (connections w1)(ni_peer_addr ni \<mapsto> c'), attempts := (attempts w1)(t \<mapsto> ni_peer_addr ni)\<rparr>"
  then show ?thesis by (intro marks_put [OF assms(2), of w1 c']) (auto split: if_splits)
qed

lemma marks_connect_to:
  assumes "connect_to E ni msg maker w = Inr (r, w')"
  shows "marks_last w w'"
  using assms
proof (cases rule: connect_to_cases)
  case (bad_cert e)
  then show ?thesis using marks_connect_err by simp
next
  case (entry c w1 r2 w2)
  have "marks_kept w (w\<lparr>next_term := Suc (next_term w)\<rparr>)" by (rule marks_same) simp
  then have w1: "marks_kept w w1" using marks_entry(1) [OF entry(1)] marks_kept_trans by blast
  have "marks_kept w1 w2"
    using entry(2) marks_initiate [OF _ marks_entry(2) [OF entry(1)]] marks_same by (auto split: if_splits)
  then have "marks_kept w w2" using w1 marks_kept_trans by blast
  then show ?thesis using entry(3) marks_kept_last marks_connect_err marks_last_same by blast
qed

lemma marks_set_contacted: "marks_last w w1 \<Longrightarrow> marks_last w (set_we_contacted_peer a w1)"
  by (auto simp: marks_last_def marked_def set_we_contacted_peer_def split: option.splits)

lemma marks_try_write:
  assumes "try_write_to_peer E p m w = Inr w'"
  shows "marks_last w w'"
proof (cases p)
  case (PeerClient b)
  then have "connections w' = connections w"
    using assms by (auto simp: try_write_to_peer_def write_to_peer_def write_to_peer_connection_def
        split: option.splits to_peer.splits from_peer.splits)
  then show ?thesis by (rule marks_last_same)
next
  case (PeerNode ni)
  let ?b = "ni_peer_addr ni"
  obtain c w1 where eq: "entry_or_insert None ?b 0 w = (c, w1)" by fastforce
  note e = marks_entry [OF eq]
  obtain r w2 where wq: "write_or_queue ni m w = (r, w2)" by fastforce
  have "marks_kept w1 w2"
    using wq eq marks_put [OF e(2) refl, of _ w2] marks_same [of w2 w1]
    by (cases "to_peer c") (auto simp: write_or_queue_def write_to_peer_connection_def)
  then have w2: "marks_kept w w2" using e(1) marks_kept_trans by blast
  then show ?thesis
    using assms PeerNode wq marks_connect_to marks_kept_last [OF w2] marks_last_same
    by (auto simp: try_write_to_peer_def split: option.splits sum.splits)
qed

text \<open>Dispatching and greeting leave the table alone.\<close>

lemma connections_take: "take_group_ref_event ro ni w = (ev, w1) \<Longrightarrow> connections w1 = connections w"
  by (rule take_group_ref_frame(1))

lemma connections_dispatch_all:
  "fold_p (take_and_dispatch E p q b) ms w = Inr w' \<Longrightarrow> connections w' = connections w"
  by (erule fold_p_invariant [where I = "\<lambda>v. connections v = connections w"])
    (auto dest!: take_and_dispatch_Inr(1) core_fields(1))

lemma greet_frame:
  assumes "greet_peer E a q ni c w = Inr ((c1, acc), w')"
  shows "connections w' = connections w" and "we_contacted_peer c1 = we_contacted_peer c"
  using assms
  by (auto simp: greet_peer_def write_to_peer_connection_def send_event_def Let_def
      dest!: connections_take connections_dispatch_all split: from_peer.splits prod.splits sum.splits)

lemma marks_new_connection_res:
  assumes "handle_new_connection_res E a res w = Inr w'"
  shows "marks_last w w'"
proof (cases res)
  case (Inl e)
  then show ?thesis using assms marks_connect_err by (auto simp: handle_new_connection_res_def)
next
  case (Inr q)
  let ?w0 = "w\<lparr>drivers := drivers w @ [(q, a, Outgoing)]\<rparr>"
  show ?thesis
  proof (cases "\<exists>c t crt sends. connections w a = Some c \<and> to_peer c = TpInitiated t crt sends")
    case False
    then have "connections w' = connections w"
      using Inr assms by (auto simp: handle_new_connection_res_def drop_q_conn_def Let_def split: option.splits to_peer.splits)
    then show ?thesis by (rule marks_last_same)
  next
    case True
    then obtain c t crt sends where c: "connections w a = Some c" "to_peer c = TpInitiated t crt sends"
      by blast
    define w1 where "w1 = (if we_contacted_peer c then cache_add_peer E (node_at a crt) ?w0 else ?w0)"
    obtain c1 acc w2 where r: "greet_peer E a q (node_at a crt) c w1 = Inr ((c1, acc), w2)"
      using assms Inr c by (auto simp: handle_new_connection_res_def w1_def Let_def split: sum.splits)
    have "connections w1 = connections w"
      by (simp add: w1_def cache_add_peer_def split: prod.split)
    then have w3: "connections (flush_pending_sends a q sends w2) = connections w"
      using greet_frame(1) [OF r] core_flush [THEN core_fields(1)] by simp
    have "marks_kept w w'"
      by (rule marks_put [OF c(1) w3, of "c1\<lparr>to_peer := TpEstablished crt q\<rparr>"])
        (use assms Inr handle_new_connection_res_conv [OF c refl w1_def r] greet_frame(2) [OF r]
          in \<open>auto simp: put_conn_def try_send_def Let_def\<close>)
    then show ?thesis by (auto simp: marks_kept_def marks_last_def)
  qed
qed

lemma marks_new_conn: "marks_kept w (handle_new_conn a q w)"
proof -
  let ?w0 = "w\<lparr>drivers := drivers w @ [(q, a, Incoming)]\<rparr>"
  obtain c w1 where eq: "entry_or_insert None a 0 ?w0 = (c, w1)" by fastforce
  note e = marks_entry [OF eq]
  have w1: "marks_kept w w1" using marks_kept_trans [OF marks_same e(1)] by simp
  have "marks_kept w1 (handle_new_conn a q w)"
  proof (cases "fp_is_no_connection (from_peer c)")
    case False
    then show ?thesis using eq by (intro marks_same) (simp add: handle_new_conn_def drop_q_conn_def)
  next
    case True
    have "\<exists>c'. connections (handle_new_conn a q w) = (connections w1)(a \<mapsto> c') \<and> we_contacted_peer c' = we_contacted_peer c"
    proof (cases "to_peer c")
      case (TpEstablished crt tq)
      obtain ev w2 where ev: "take_group_ref_event (bootstrap_group_ref c) (node_at a crt) w1 = (ev, w2)" by fastforce
      then show ?thesis
        using eq TpEstablished True connections_take [OF ev]
        by (auto simp: handle_new_conn_def read_from_peer_def send_event_def)
    qed (use eq True in \<open>auto simp: handle_new_conn_def read_from_peer_def\<close>)
    then show ?thesis using marks_put [OF e(2) refl] by blast
  qed
  then show ?thesis using marks_kept_trans [OF w1] by blast
qed

lemma marks_wire_msg:
  assumes "handle_wire_msg E a m w = Inr w'"
  shows "marks_last w w'"
proof (cases m)
  case (Handshake h)
  have put: "marks_last w (send_event ev (w\<lparr>connections := (connections w)(a \<mapsto> c\<lparr>to_peer := tp\<rparr>)\<rparr>))"
    if "connections w a = Some c" for c tp ev
    using that by (auto simp: marks_last_def marked_def send_event_def)
  show ?thesis
    using assms Handshake put marks_last_same [of w w] marks_connect_to
    by (cases h) (auto simp: handle_wire_msg_def handle_rx_handshake_def handle_rx_cert_def Let_def
        split: option.splits to_peer.splits sum.splits if_splits)
qed (use assms in \<open>auto simp: handle_wire_msg_def marks_last_def marked_def
      dest!: take_and_dispatch_Inr(1) core_fields(1) split: option.splits to_peer.splits from_peer.splits if_splits\<close>)

section \<open>Steps\<close>

lemma marks_last_from:
  "marks_last w0 w' \<Longrightarrow> connections w0 = connections w \<Longrightarrow> marks_last w w'"
  by (auto simp: marks_last_def marked_def)

lemma marks_last_to:
  "marks_last w w1 \<Longrightarrow> connections w' = connections w1 \<Longrightarrow> marks_last w w'"
  by (auto simp: marks_last_def marked_def)

lemma marks_step:
  assumes "el_step E w l (Inr w')" and "l \<noteq> PostBootstrap"
  shows "marks_last w w'"
  using assms(1)
proof cases
  case (post_connect_to ni)
  then show ?thesis
    using marks_connect_to [of E ni None None w] marks_set_contacted by (auto simp: qp2p_connect_to_def split: sum.splits)
next
  case (post_send p m)
  then show ?thesis
    using marks_try_write [of E p "UserMsg m" w] marks_set_contacted by (auto simp: qp2p_send_def split: sum.splits)
next
  case (post_query_echo ni ch)
  then show ?thesis
    using marks_last_from [OF marks_try_write, of E "PeerNode ni" EndpointEchoReq _ w' w]
    by (auto simp: register_and_ask_echo_def drop_inform_tx_def split: option.splits)
next
  case (attempt_connected t b)
  obtain w1 where w1: "handle_new_connection_res E b (Inr (next_q w)) (w\<lparr>next_q := Suc (next_q w)\<rparr>) = Inr w1"
      "w' = finish_attempt t w1"
    using bind_p_Inr_conv [THEN iffD1, OF attempt_connected(2) [symmetric]] by blast
  have "marks_last w w1" by (rule marks_last_from [OF marks_new_connection_res [OF w1(1)]]) simp
  then show ?thesis by (rule marks_last_to) (simp add: w1(2) finish_attempt_def)
next
  case (read_finished b out)
  let ?w0 = "w\<lparr>stream_reads := remove1 b (stream_reads w)\<rparr>"
  have "marks_last ?w0 w'"
    using read_finished marks_wire_msg marks_comm_err
    by (fastforce simp: run_read_task_def split: sum.splits if_splits)
  then show ?thesis by (rule marks_last_from) simp
next
  case (write_finished t out)
  let ?w0 = "w\<lparr>writes := remove1 t (writes w)\<rparr>"
  have "marks_last ?w0 w'"
    using write_finished marks_comm_err marks_last_from [OF marks_comm_err] marks_last_same [of w' ?w0]
    by (cases out) (auto simp: run_write_task_def Let_def split: sum.splits)
  then show ?thesis by (rule marks_last_from) simp
next
  case (incoming_connection b)
  have "marks_kept (w\<lparr>next_q := Suc (next_q w)\<rparr>) w'" using incoming_connection marks_new_conn by simp
  then show ?thesis by (auto simp: marks_kept_def marks_last_def marked_def)
next
  case (attempt_failed t b e)
  then show ?thesis
    using marks_last_to [OF marks_connect_err] by (auto simp: handle_new_connection_res_def finish_attempt_def)
qed (use assms(2) in \<open>auto simp: qp2p_disconnect_from_def handle_connect_err_def
      handle_communication_err_def read_peer_stream_def incomplete_conn_killer_fires_def install_proxies_def
      finish_attempt_def Let_def marks_remove
      intro: marks_last_same marks_last_to [OF marks_remove] marks_last_from [OF marks_remove] split: option.splits\<close>)

end
