(* ===== verification/Test_Runs.thy ===== *)
theory Test_Runs
  imports Network_Properties
begin

text \<open>
  The runs of a test with two instances: the instances are the members of a network, the
  second is asked to connect to the first, and nobody else is there. The locale
  \<open>connect_test\<close> is a \<open>qp2p_network\<close> with these two members; its runs keep what the
  assertions of the tests need, as an \<open>invariant_system\<close>.
\<close>

section \<open>Before the first connection\<close>

fun is_call :: "label \<Rightarrow> bool" where
  "is_call PostBootstrap = True"
| "is_call (PostConnectTo _) = True"
| "is_call (PostDisconnectFrom _) = True"
| "is_call (PostSend _ _) = True"
| "is_call (PostQueryEcho _ _) = True"
| "is_call (PostProxies _ _) = True"
| "is_call _ = False"

fun is_message :: "label \<Rightarrow> bool" where
  "is_message (ReadFinished a (Inr raw)) = True"
| "is_message _ = False"

text \<open>An instance nobody asks anything and that reads nothing writes and dials nothing.\<close>

definition quiet :: "world \<Rightarrow> bool" where
  "quiet w \<longleftrightarrow> writes w = [] \<and> wire w = [] \<and> attempts w = Map.empty"

lemma quiet_take: "take_group_ref_event ro ni w = (ev, w1) \<Longrightarrow> quiet w1 = quiet w"
  by (auto simp: quiet_def take_group_ref_event_def world_simps split: option.splits)

lemma quiet_new_conn: "quiet w \<Longrightarrow> quiet (handle_new_conn a q w)"
  by (auto simp: quiet_def handle_new_conn_def entry_or_insert_conv make_group_ref_def put_conn_def read_from_peer_def
      drop_q_conn_def send_event_def Let_def
      dest: quiet_take [unfolded quiet_def] split: option.splits prod.splits to_peer.splits if_splits)

lemma quiet_step:
  assumes "el_step E w l (Inr w')" and "quiet w" and "\<not> is_call l" and "\<not> is_message l"
  shows "quiet w'"
  using assms(1)
proof cases
  case (incoming_connection a)
  then show ?thesis using assms(2) quiet_new_conn [of "w\<lparr>next_q := Suc (next_q w)\<rparr>"] by (simp add: quiet_def)
next
  case (read_finished a out)
  then show ?thesis using assms(2,4)
    by (cases out) (auto simp: run_read_task_def handle_communication_err_def quiet_def world_simps)
qed (use assms(2,3) in \<open>auto simp: quiet_def world_simps handle_connect_err_def handle_communication_err_def
      read_peer_stream_def incomplete_conn_killer_fires_def split: option.splits\<close>)

text \<open>
  An instance that was only asked to connect to the node at \<open>a\<close> and has not succeeded yet:
  its only entry is that of \<open>a\<close>, marked as contacted by the user.
\<close>

definition calling :: "socket_addr \<Rightarrow> world \<Rightarrow> bool" where
  "calling a w \<longleftrightarrow> (\<forall>b c. connections w b = Some c \<longrightarrow> b = a \<and> we_contacted_peer c) \<and>
    (\<forall>t b. attempts w t = Some b \<longrightarrow> b = a)"

lemma calling_remove: "calling a w \<Longrightarrow> calling a (remove_connection b w)"
  by (auto simp: calling_def world_simps split: if_splits)

lemma calling_fields [simp]:
  "calling a (w\<lparr>drivers := ds\<rparr>) = calling a w" "calling a (w\<lparr>readers := rs\<rparr>) = calling a w"
  "calling a (w\<lparr>stream_reads := ss\<rparr>) = calling a w" "calling a (w\<lparr>killers := ks\<rparr>) = calling a w"
  "calling a (w\<lparr>listening := b\<rparr>) = calling a w" "calling a w \<Longrightarrow> calling a (finish_attempt t w)"
  by (auto simp: calling_def finish_attempt_def split: if_splits)

lemma cache_finish [simp]: "bootstrap_cache (finish_attempt t w) = bootstrap_cache w"
  by (simp add: finish_attempt_def)

lemma cache_remove [simp]: "bootstrap_cache (remove_connection b w) = bootstrap_cache w"
  by (simp add: world_simps)

lemma calling_connect_to:
  assumes "qp2p_connect_to E ni w = Inr w'" and "calling (ni_peer_addr ni) w" and "our_type w = OurNode"
  shows "calling (ni_peer_addr ni) w' \<and> bootstrap_cache w' = bootstrap_cache w"
proof -
  let ?a = "ni_peer_addr ni"
  obtain c0 w0 where c0: "entry_or_insert None ?a (next_term w) (w\<lparr>next_term := Suc (next_term w)\<rparr>) = (c0, w0)"
    by fastforce
  then have w0: "connections w0 = (connections w)(?a \<mapsto> c0)" "attempts w0 = attempts w"
      "bootstrap_cache w0 = bootstrap_cache w" "our_type w0 = OurNode"
      "connections w ?a = Some c0 \<or> to_peer c0 = TpNoConnection"
    using assms(3) by (auto simp: entry_or_insert_conv make_group_ref_def put_conn_def Let_def split: option.splits)
  have old: "calling ?a w0" if "connections w ?a = Some c0"
  proof -
    have "connections w0 = connections w" using that w0(1) by (auto simp: fun_eq_iff)
    then show ?thesis using assms(2) w0(2) by (simp add: calling_def)
  qed
  show ?thesis
  proof (cases "new_client_cfg E (ni_peer_cert_der ni) w")
    case (Inl e)
    then have "w' = handle_connect_err ?a e w"
      using assms(1) by (simp add: qp2p_connect_to_def connect_to_def Let_def)
    then show ?thesis using assms(2) calling_remove by (simp add: handle_connect_err_def split: error.splits)
  next
    case (Inr cfg)
    show ?thesis
    proof (cases "tp_is_no_connection (to_peer c0)")
      case False
      then have "w' = w0" "connections w ?a = Some c0"
        using assms(1) Inr c0 w0(5)
        by (auto simp: qp2p_connect_to_def connect_to_def handle_connect_err_def Let_def)
      then show ?thesis using old w0(3) by simp
    next
      case True
      define c where "c = c0\<lparr>bootstrap_group_ref := bootstrap_group_ref c0, to_peer := TpInitiated (next_term w) (ni_peer_cert_der ni) []\<rparr>"
      define v where "v = w0\<lparr>connections := (connections w0)(?a \<mapsto> c)\<rparr>"
      have init: "initiate_connection E ni None None (next_term w) c0 w0 =
          (case connect_with E (next_term w) ?a of
             Some e \<Rightarrow> Inr (Inl (Connect e), v)
           | None \<Rightarrow> Inr (Inr (), v\<lparr>attempts := (attempts v)(next_term w \<mapsto> ?a)\<rparr>))"
        using w0(4) by (cases "bootstrap_group_ref c0")
          (simp_all add: initiate_connection_def make_group_ref_def c_def v_def Let_def split: option.split)
      show ?thesis
      proof (cases "connect_with E (next_term w) ?a")
        case None
        then have "w' = set_we_contacted_peer ?a (v\<lparr>attempts := (attempts v)(next_term w \<mapsto> ?a)\<rparr>)"
          using assms(1) Inr c0 True init by (simp add: qp2p_connect_to_def connect_to_def Let_def)
        then show ?thesis using assms(2) w0 by (auto simp: v_def calling_def set_we_contacted_peer_def split: if_splits)
      next
        case (Some e)
        then have "w' = remove_connection ?a v"
          using assms(1) Inr c0 True init
          by (simp add: qp2p_connect_to_def connect_to_def handle_connect_err_def Let_def)
        then show ?thesis using assms(2) w0 by (auto simp: v_def calling_def world_simps split: if_splits)
      qed
    qed
  qed
qed

fun is_new_connection :: "label \<Rightarrow> bool" where
  "is_new_connection (IncomingConnection _) = True"
| "is_new_connection (AttemptConnected _) = True"
| "is_new_connection _ = False"

lemma calling_step:
  assumes "el_step E w l (Inr w')" and "calling a w" and "our_type w = OurNode" and "writes w = []"
    and "\<not> is_message l" and "\<not> is_new_connection l"
    and "is_call l \<Longrightarrow> \<exists>ni. l = PostConnectTo ni \<and> ni_peer_addr ni = a"
  shows "calling a w' \<and> bootstrap_cache w' = bootstrap_cache w"
  using assms(1)
proof cases
  case (post_connect_to ni)
  then show ?thesis using calling_connect_to [of E ni w w'] assms(2,3,7) by auto
next
  case (read_finished b out)
  then show ?thesis using assms(2,5)
    by (cases out) (auto simp: run_read_task_def handle_communication_err_def calling_remove)
qed (use assms(2,4,6,7) in \<open>auto simp: handle_connect_err_def handle_communication_err_def calling_remove
      handle_new_connection_res_def read_peer_stream_def incomplete_conn_killer_fires_def split: option.splits\<close>)

text \<open>The first connection puts the node into the empty cache.\<close>

lemma cache_flush [simp]: "bootstrap_cache (flush_pending_sends a q ms w) = bootstrap_cache w"
  unfolding flush_pending_sends_def
  by (induction ms arbitrary: w) (simp_all add: write_to_peer_connection_def)

lemma first_connection:
  assumes "el_step E w (AttemptConnected t) (Inr w')" and "calling a w" and "inv {} None w"
    and "peers (bootstrap_cache w) = []" and "hard_coded_contacts (bootstrap_cache w) = []"
    and "\<And>c. connections w a = Some c \<Longrightarrow> from_peer c = FpNoConnection"
  shows "\<exists>crt. attempts w t = Some a \<and> expected_cert w a = Some crt \<and>
    peers (bootstrap_cache w') = [node_at a crt] \<and> hard_coded_contacts (bootstrap_cache w') = []"
proof -
  have t: "attempts w t = Some a" "t \<notin> signalled w" using assms(1,2) by (auto simp: el_step_simps calling_def)
  obtain c crt sends where c: "connections w a = Some c" "to_peer c = TpInitiated t crt sends"
    using assms(3) t attempts_ok_live [of "{}" w t a] by (auto simp: inv_def)
  have contacted: "we_contacted_peer c" using assms(2) c(1) by (simp add: calling_def)
  let ?q = "next_q w"
  define w0 where "w0 = w\<lparr>next_q := Suc ?q\<rparr>\<lparr>drivers := drivers w @ [(?q, a, Outgoing)]\<rparr>"
  define w1 where "w1 = cache_add_peer E (node_at a crt) w0"
  have w1: "peers (bootstrap_cache w1) = [node_at a crt] \<and> hard_coded_contacts (bootstrap_cache w1) = []"
    using assms(4,5) by (simp add: w1_def w0_def cache_add_peer_def add_peer_def insert_new_def try_sync_to_disk_def
        MAX_CACHE_SIZE_def Let_def split: prod.split)
  obtain c1 acc w2 where g: "greet_peer E a ?q (node_at a crt) c w1 = Inr ((c1, acc), w2)"
      "bootstrap_cache w2 = bootstrap_cache w1"
    using assms(6) [OF c(1)]
    by (auto simp: greet_peer_def write_to_peer_connection_def)
  have "handle_new_connection_res E a (Inr ?q) (w\<lparr>next_q := Suc ?q\<rparr>) =
      Inr (let w5 = try_send t (put_conn a (c1\<lparr>to_peer := TpEstablished crt ?q\<rparr>) (flush_pending_sends a ?q sends w2))
           in if acc then w5\<lparr>readers := readers w5 @ [(?q, a)]\<rparr> else w5)"
    by (rule handle_new_connection_res_conv [OF _ c(2) refl _ g(1)]) (simp_all add: c contacted w1_def w0_def)
  then have "bootstrap_cache w' = bootstrap_cache w2"
    using assms(1) t by (auto simp: el_step_simps finish_attempt_def try_send_def put_conn_def Let_def)
  then show ?thesis using w1 g(2) t(1) c by (simp add: expected_cert_def)
qed

section \<open>The runs of the tests\<close>

text \<open>
  Two fresh instances, the second asked to connect to the first, nobody else on the
  network. \<open>info\<close> is what \<open>our_connection_info\<close> of the first returns.
\<close>

fun heard_from :: "label \<Rightarrow> socket_addr option" where
  "heard_from (IncomingConnection a) = Some a"
| "heard_from (ReadFinished a _) = Some a"
| "heard_from _ = None"

definition test_world :: "world \<Rightarrow> bool" where
  "test_world w \<longleftrightarrow> our_type w = OurNode \<and> peers (bootstrap_cache w) = [] \<and>
    hard_coded_contacts (bootstrap_cache w) = []"

definition test_label :: "socket_addr \<Rightarrow> socket_addr \<Rightarrow> node_info \<Rightarrow> socket_addr \<times> label \<Rightarrow> bool" where
  "test_label first second info l \<longleftrightarrow>
    (is_call (snd l) \<longrightarrow> l = (second, PostConnectTo info)) \<and>
    (case heard_from (snd l) of None \<Rightarrow> True | Some a \<Rightarrow> a = first \<or> a = second)"

definition test_initial :: "socket_addr \<Rightarrow> socket_addr \<Rightarrow> node_info \<Rightarrow> network \<Rightarrow> bool" where
  "test_initial first second info n \<longleftrightarrow> net_initial n \<and>
    (\<exists>w1 w2. members n = [first \<mapsto> w1, second \<mapsto> w2] \<and> test_world w1 \<and> test_world w2 \<and>
       info = node_at first (cert_der (our_complete_cert w1)))"

definition test_step ::
  "(socket_addr \<Rightarrow> extern) \<Rightarrow> socket_addr \<Rightarrow> socket_addr \<Rightarrow> node_info \<Rightarrow> network \<Rightarrow> socket_addr \<times> label \<Rightarrow>
    panic + network \<Rightarrow> bool" where
  "test_step E first second info n l r \<longleftrightarrow> net_step E n l r \<and> test_label first second info l"

definition test_reachable ::
  "(socket_addr \<Rightarrow> extern) \<Rightarrow> socket_addr \<Rightarrow> socket_addr \<Rightarrow> node_info \<Rightarrow> network \<Rightarrow> bool" where
  "test_reachable E first second info = reach (test_initial first second info) (test_step E first second info)"

text \<open>
  Either the second instance has the first in its cache, or it has never had a
  connection and the first has never been told anything.
\<close>

definition cached :: "node_info \<Rightarrow> bootstrap_cache \<Rightarrow> bool" where
  "cached info bc \<longleftrightarrow> peers bc = [info] \<and> hard_coded_contacts bc = []"

definition before_connection :: "socket_addr \<Rightarrow> socket_addr \<Rightarrow> network \<Rightarrow> world \<Rightarrow> world \<Rightarrow> bool" where
  "before_connection first second n w1 w2 \<longleftrightarrow>
    peers (bootstrap_cache w2) = [] \<and> hard_coded_contacts (bootstrap_cache w2) = [] \<and>
    ends n second = Map.empty \<and> calling first w2 \<and> dials n first = [] \<and> quiet w1"

definition test_setup :: "socket_addr \<Rightarrow> socket_addr \<Rightarrow> node_info \<Rightarrow> network \<Rightarrow> world \<Rightarrow> world \<Rightarrow> bool" where
  "test_setup first second info n w1 w2 \<longleftrightarrow>
    members n = [first \<mapsto> w1, second \<mapsto> w2] \<and> our_type w1 = OurNode \<and> our_type w2 = OurNode \<and>
    info = node_at first (cert_der (our_complete_cert w1)) \<and>
    (\<forall>x w. starts n x = Some w \<longrightarrow> test_world w) \<and>
    (\<forall>l \<in> set (history n). test_label first second info l) \<and> (\<forall>x q. ends n x q \<noteq> Some x)"

lemma test_setup_asked:
  assumes "test_setup first second info n w1 w2"
  shows "asked n = {}" and "proxied n x = {}"
    and "called n x \<subseteq> (if x = second then {first} else {})" and "named n x \<subseteq> (if x = second then {info} else {})"
proof -
  have lab: "(y, k) \<in> set (history n) \<Longrightarrow> is_call k \<Longrightarrow> y = second \<and> k = PostConnectTo info" for y k
    using assms by (fastforce simp: test_setup_def test_label_def)
  have none: "(y, PostSend p m) \<notin> set (history n)" "(y, PostProxies ps ex) \<notin> set (history n)"
      "(y, PostQueryEcho ni ch) \<notin> set (history n)" for y p m ps ex ni ch
    using lab [of y "PostSend p m"] lab [of y "PostProxies ps ex"] lab [of y "PostQueryEcho ni ch"] by auto
  have conn: "y = second \<and> ni = info" if "(y, PostConnectTo ni) \<in> set (history n)" for y ni
    using lab [OF that] by simp
  have "test_world w" if "starts n x = Some w" for w using assms that by (simp add: test_setup_def)
  then have start: "(case starts n x of None \<Rightarrow> {} | Some w \<Rightarrow> set (peers (bootstrap_cache w))) = {}"
    "(case starts n x of None \<Rightarrow> {} | Some w \<Rightarrow> set (hard_coded_contacts (bootstrap_cache w))) = {}"
    by (simp_all add: test_world_def split: option.split)
  have info: "ni_peer_addr info = first" using assms by (simp add: test_setup_def)
  show a: "asked n = {}" by (simp add: asked_def none)
  show p: "proxied n x = {}" by (simp add: proxied_def none start)
  show "called n x \<subseteq> (if x = second then {first} else {})" using conn info by (auto simp: called_def a)
  show "named n x \<subseteq> (if x = second then {info} else {})" using conn by (auto simp: named_def none p start)
qed

definition test_inv ::
  "(socket_addr \<Rightarrow> extern) \<Rightarrow> wire_msg codec \<Rightarrow> socket_addr \<Rightarrow> socket_addr \<Rightarrow> node_info \<Rightarrow> network \<Rightarrow> bool" where
  "test_inv E C first second info n \<longleftrightarrow> net_inv E C n \<and>
    (\<exists>w1 w2. test_setup first second info n w1 w2 \<and>
       (cached info (bootstrap_cache w2) \<or> before_connection first second n w1 w2))"

locale connect_test = qp2p_network C E for C :: "wire_msg codec" and E :: "socket_addr \<Rightarrow> extern" +
  fixes first second :: socket_addr
    and info :: node_info
  assumes apart: "first \<noteq> second"
    and addrs_ok: "addr_ok first" "addr_ok second"
begin

text \<open>Each instance knows only the other one, by its own certificate.\<close>

lemma knows_other:
  assumes "test_setup first second info n w1 w2" and "x = first \<or> x = second" and "net_may_know C n x ni"
  shows "ni_peer_addr ni \<noteq> x" and "\<exists>w. members n (ni_peer_addr ni) = Some w \<and> ni_peer_cert_der ni = cert_der (our_complete_cert w)"
proof -
  let ?a = "ni_peer_addr ni"
  have mem: "members n = [first \<mapsto> w1, second \<mapsto> w2]" and info: "info = node_at first (cert_der (our_complete_cert w1))"
    and lab: "\<And>l. l \<in> set (history n) \<Longrightarrow> test_label first second info l" and self: "\<And>q. ends n x q \<noteq> Some x"
    using assms(1) by (auto simp: test_setup_def)
  have "?a \<noteq> x \<and> (\<exists>w. members n ?a = Some w \<and> ni_peer_cert_der ni = cert_der (our_complete_cert w))"
  proof (cases "ni \<in> named n x")
    case True
    then have "x = second" "ni = info" using test_setup_asked(4) [OF assms(1), of x] by (auto split: if_splits)
    then show ?thesis using mem info apart by simp
  next
    case False
    then have recv: "net_may_recv C n x ?a (Handshake (HandshakeNode (ni_peer_cert_der ni)))"
      using assms(3) by (simp add: net_may_know_def)
    show ?thesis
    proof (cases "members n ?a")
      case None
      then obtain raw where "(x, ReadFinished ?a (Inr raw)) \<in> set (history n)"
        using recv by (auto simp: net_may_recv_def)
      then have "?a = first \<or> ?a = second" using lab by (fastforce simp: test_label_def)
      then show ?thesis using None mem by (auto split: if_splits)
    next
      case (Some w)
      then have "?a \<noteq> x" using recv self by (auto simp: net_may_recv_def)
      moreover have "addr_ok x" using assms(2) addrs_ok by blast
      ultimately show ?thesis using control_msg_sent [OF recv] Some by (simp add: net_cert_def)
    qed
  qed
  then show "?a \<noteq> x" and "\<exists>w. members n ?a = Some w \<and> ni_peer_cert_der ni = cert_der (our_complete_cert w)"
    by simp_all
qed

lemma dials_other:
  assumes "test_setup first second info n w1 w2" and "x = first \<or> x = second"
    and "known_addr (net_rules C n x) a"
  shows "a \<noteq> x"
  using assms(3) knows_other(1) [OF assms(1,2)] by (fastforce simp: known_addr_def net_rules_def)

text \<open>The setup stays as it is.\<close>

lemma setup_step:
  assumes inv: "net_inv E C n" and su: "test_setup first second info n w1 w2"
    and x: "members n x = Some w" and del: "net_delivers n x l" and step: "el_step (E x) w l (Inr w')"
    and lab: "test_label first second info (x, l)"
  shows "test_setup first second info (net_update x w l w' n)
    (if x = first then w' else w1) (if x = second then w' else w2)"
proof -
  let ?n = "net_update x w l w' n"
  have old: "members n = [first \<mapsto> w1, second \<mapsto> w2]" "our_type w1 = OurNode" "our_type w2 = OurNode"
      "info = node_at first (cert_der (our_complete_cert w1))" "\<And>x q. ends n x q \<noteq> Some x"
    using su by (auto simp: test_setup_def)
  have xs: "x = first \<and> w = w1 \<or> x = second \<and> w = w2" using x old(1) apart by (auto split: if_splits)
  then have known: "known_addr (net_rules C n x) a \<Longrightarrow> a \<noteq> x" for a using dials_other [OF su] by blast
  have same: "our_type w' = our_type w" "our_complete_cert w' = our_complete_cert w"
    using step_grows [OF step] by (simp_all add: grows_def)
  have "net_new_end w l \<noteq> Some x"
  proof
    assume "net_new_end w l = Some x"
    moreover have "dials_flow (net_rules C n x) (attempts w)" "\<forall>b \<in> set (dials n x). known_addr (net_rules C n x) b"
      using net_invD [OF inv x] by (simp_all add: flow_def)
    ultimately have "known_addr (net_rules C n x) x"
      using del x by (auto simp: net_new_end_def net_delivers_def dials_flow_def split: label.splits)
    then show False using known by blast
  qed
  then have "ends ?n y q \<noteq> Some y" for y q
    using old(5) by (auto simp: net_update_def split: option.split)
  then show ?thesis
    using su xs same apart lab old by (auto simp: test_setup_def net_update_def)
qed

text \<open>Before the first connection nothing is on the wire.\<close>

lemma nothing_written:
  assumes "net_inv E C n" and "test_setup first second info n w1 w2" and "before_connection first second n w1 w2"
  shows "writes w2 = []" and "wire w2 = []" and "connections w2 a = Some c \<Longrightarrow> from_peer c = FpNoConnection"
    and "test_label first second info (x, l) \<Longrightarrow> is_message l \<Longrightarrow> \<not> net_delivers n x l"
proof -
  have mem: "members n = [first \<mapsto> w1, second \<mapsto> w2]" and node: "our_type w2 = OurNode"
    using assms(2) by (simp_all add: test_setup_def)
  have ends: "ends n second = Map.empty" and w1: "wire w1 = []"
    using assms(3) by (simp_all add: before_connection_def quiet_def)
  have fl: "flow (E second) (net_rules C n second) w2" using net_invD(2) [OF assms(1)] mem by simp
  show "writes w2 = []"
    using fl ends by (cases "writes w2") (auto simp: flow_def writes_flow_def net_rules_def)
  show w2: "wire w2 = []"
    using fl ends by (cases "wire w2") (auto simp: flow_def wire_flow_def net_rules_def)
  show "from_peer c = FpNoConnection" if "connections w2 a = Some c"
    using flow_conn [OF fl that] ends mem node
    by (cases "from_peer c") (simp_all add: conn_flow_def net_rules_def net_client_def)
  show "\<not> net_delivers n x l" if "test_label first second info (x, l)" "is_message l"
    using that mem apart w1 w2
    by (cases l rule: is_message.cases) (auto simp: test_label_def net_delivers_def split: if_splits)
qed

lemma first_waits:
  assumes "net_inv E C n" and "test_setup first second info n w1 w2" and "before_connection first second n w1 w2"
    and "net_delivers n first l" and "el_step (E first) w1 l (Inr w')"
    and "test_label first second info (first, l)"
  shows "before_connection first second (net_update first w1 l w' n) w' w2"
proof -
  have "\<not> is_message l" using nothing_written(4) [OF assms(1-3,6)] assms(4) by blast
  moreover have "\<not> is_call l" using assms(6) apart by (auto simp: test_label_def)
  ultimately have q: "quiet w'" using quiet_step [OF assms(5)] assms(3) by (simp add: before_connection_def)
  then have "List.map_filter (attempts w') xs = []" for xs
    by (simp add: quiet_def List.map_filter_def)
  then show ?thesis
    using assms(3) q apart by (auto simp: before_connection_def net_update_def split: option.split)
qed

lemma second_connects:
  assumes inv: "net_inv E C n" and su: "test_setup first second info n w1 w2"
    and bc: "before_connection first second n w1 w2"
    and del: "net_delivers n second l" and step: "el_step (E second) w2 l (Inr w')"
    and lab: "test_label first second info (second, l)"
  shows "cached info (bootstrap_cache w') \<or> before_connection first second (net_update second w2 l w' n) w1 w'"
proof -
  have mem: "members n = [first \<mapsto> w1, second \<mapsto> w2]" and node: "our_type w2 = OurNode"
    and info: "info = node_at first (cert_der (our_complete_cert w1))"
    using su by (simp_all add: test_setup_def)
  have b: "peers (bootstrap_cache w2) = []" "hard_coded_contacts (bootstrap_cache w2) = []" "calling first w2"
      "dials n first = []"
    using bc by (simp_all add: before_connection_def)
  note silent = nothing_written [OF inv su bc]
  have "second \<notin> set (dials n second)"
    using net_invD(3) [OF inv, of second w2 second] dials_other [OF su, of second second] mem by auto
  then have no_in: "l \<noteq> IncomingConnection a" for a
    using del lab mem apart b(4) by (auto simp: net_delivers_def test_label_def split: if_splits)
  show ?thesis
  proof (cases "\<exists>t. l = AttemptConnected t")
    case True
    then obtain t where t: "l = AttemptConnected t" by blast
    have "inv {} None w2" using net_invD(1) [OF inv, of second] mem by simp
    from first_connection [OF step [unfolded t] b(3) this b(1,2) silent(3) [of first]]
    obtain crt where "attempts w2 t = Some first" "expected_cert w2 first = Some crt"
        "peers (bootstrap_cache w') = [node_at first crt]" "hard_coded_contacts (bootstrap_cache w') = []"
      by blast
    moreover from this obtain c s sends where "connections w2 first = Some c" "to_peer c = TpInitiated s crt sends"
      by (auto simp: expected_cert_def split: option.splits to_peer.splits)
    then have "net_may_know C n second (node_at first crt)"
      using flow_conn [OF net_invD(2) [OF inv, of second w2]] mem by (fastforce simp: conn_flow_def net_rules_def)
    then have "crt = cert_der (our_complete_cert w1)" using knows_other(2) [OF su] mem apart by fastforce
    ultimately show ?thesis using info by (simp add: cached_def)
  next
    case False
    then have new: "\<not> is_new_connection l" using no_in by (cases l) auto
    moreover have "\<not> is_message l" using silent(4) lab del by blast
    moreover have "\<exists>ni. l = PostConnectTo ni \<and> ni_peer_addr ni = first" if "is_call l"
      using that lab info by (simp add: test_label_def)
    ultimately have "calling first w' \<and> bootstrap_cache w' = bootstrap_cache w2"
      using calling_step [OF step b(3) node silent(1)] by blast
    moreover have "net_new_end w2 l = None" using new by (cases l) (auto simp: net_new_end_def)
    ultimately show ?thesis using bc apart by (simp add: before_connection_def net_update_def)
  qed
qed

text \<open>Once cached, the first instance stays the only entry of the cache.\<close>

lemma cache_keeps:
  assumes n': "net_inv E C n'" and su: "test_setup first second info n' w1 v"
  shows "message_flow ((net_rules C n' second)\<lparr>cache_ok := cached info\<rparr>) (net_cert n' second)"
proof
  fix bc ni P d
  assume "cache_ok ((net_rules C n' second)\<lparr>cache_ok := cached info\<rparr>) bc"
    and "may_cache ((net_rules C n' second)\<lparr>cache_ok := cached info\<rparr>) ni"
  then have bc: "cached info bc" and may: "net_may_cache C n' second ni" by (simp_all add: net_rules_def)
  have "net_verified C n' second ni" "ni_peer_addr ni = first"
    using may test_setup_asked(2,3) [OF su, of second] by (auto simp: net_may_cache_def)
  then have "ni = info"
    using su apart knows_other(2) [OF su, of second ni] by (cases ni) (auto simp: net_verified_def test_setup_def)
  then show "cache_ok ((net_rules C n' second)\<lparr>cache_ok := cached info\<rparr>) (fst (add_peer P ni (bc, d)))"
    using bc by (simp add: cached_def add_peer_def move_to_cache_top_def remove_at_def)
qed (auto simp: net_rules_def net_may_cache_def net_verified_def net_may_know_def named_def)

lemma second_keeps:
  assumes inv: "net_inv E C n" and x: "members n second = Some w2" and c: "cached info (bootstrap_cache w2)"
    and del: "net_delivers n second l" and step: "el_step (E second) w2 l (Inr w')"
    and lab: "test_label first second info (second, l)"
    and su: "test_setup first second info (net_update second w2 l w' n) w1 w'"
    and inv': "net_inv E C (net_update second w2 l w' n)"
  shows "cached info (bootstrap_cache w')"
proof -
  let ?n = "net_update second w2 l w' n"
  let ?F = "(net_rules C ?n second)\<lparr>cache_ok := cached info\<rparr>"
  have F: "(net_rules C ?n second)\<lparr>cache_ok := (\<lambda>_. True)\<rparr> = net_rules C ?n second" by (simp add: net_rules_def)
  have "ends n second (next_q w2) = None" using inv x by (simp add: net_inv_def)
  then have "flow (E second) (net_rules C ?n second) w2"
    using flow_mono [OF net_rules_mono [OF x step]] net_invD(2) [OF inv x] by blast
  then have w2: "flow (E second) ?F w2" using c flow_cache_ok F by metis
  have "\<not> is_call l \<or> l = PostConnectTo info" using lab by (simp add: test_label_def)
  then have "input_ok (E second) ?F w2 l"
    using net_input_ok [OF inv codec x del step] by (auto simp: input_ok_def split: label.splits sum.splits)
  moreover have "cert_der (our_complete_cert w2) = net_cert ?n second"
    using net_update_cert(1) [OF x step] x by (simp add: net_cert_def)
  ultimately have "flow (E second) ?F w'" using message_flow.flow_step [OF cache_keeps [OF inv' su] step w2] by blast
  then show ?thesis using flow_cache_ok by blast
qed

lemma test_inv_step:
  assumes "test_inv E C first second info n" and "test_step E first second info n (x, l) (Inr n')"
  shows "test_inv E C first second info n'"
proof -
  obtain w1 w2 where inv: "net_inv E C n" and su: "test_setup first second info n w1 w2"
    and phase: "cached info (bootstrap_cache w2) \<or> before_connection first second n w1 w2"
    using assms(1) by (auto simp: test_inv_def)
  obtain w w' where x: "members n x = Some w" "net_delivers n x l" "el_step (E x) w l (Inr w')"
      and n': "n' = net_update x w l w' n" and lab: "test_label first second info (x, l)"
    using assms(2) by (auto simp: test_step_def net_step_simps)
  have inv': "net_inv E C n'" using net_inv_step [OF inv, of x l n'] assms(2) by (simp add: test_step_def)
  note su' = setup_step [OF inv su x lab, folded n']
  have "members n = [first \<mapsto> w1, second \<mapsto> w2]" using su by (simp add: test_setup_def)
  then consider "x = first" "w = w1" | "x = second" "w = w2" using x(1) apart by (auto split: if_splits)
  then show ?thesis
  proof cases
    case 1
    then have "cached info (bootstrap_cache w2) \<or> before_connection first second n' w' w2"
      using phase first_waits [OF inv su] x lab n' by blast
    then show ?thesis using inv' su' 1 apart unfolding test_inv_def by auto
  next
    case 2
    then have su2: "test_setup first second info (net_update second w2 l w' n) w1 w'" using su' apart n' by simp
    have "cached info (bootstrap_cache w') \<or> before_connection first second n' w1 w'"
      using phase second_connects [OF inv su] second_keeps [OF inv _ _ _ _ _ su2] x lab n' inv' 2 by blast
    then show ?thesis using inv' su2 n' 2 unfolding test_inv_def by auto
  qed
qed

lemma test_inv_initial:
  assumes "test_initial first second info n"
  shows "test_inv E C first second info n"
proof -
  obtain w1 w2 where n: "net_initial n" "members n = [first \<mapsto> w1, second \<mapsto> w2]" "test_world w1" "test_world w2"
      "info = node_at first (cert_der (our_complete_cert w1))"
    using assms by (auto simp: test_initial_def)
  then have "test_setup first second info n w1 w2"
    by (auto simp: test_setup_def net_initial_def test_world_def split: if_splits)
  moreover have "\<And>x w. members n x = Some w \<Longrightarrow> initial_world w" using n(1) by (simp add: net_initial_def)
  then have "initial_world w1" "initial_world w2" using n(2) apart by (metis fun_upd_same fun_upd_other)+
  then have "before_connection first second n w1 w2"
    using n(1,4) by (auto simp: before_connection_def net_initial_def test_world_def calling_def quiet_def
        initial_world_def context_new_def)
  ultimately show ?thesis using net_inv_initial [OF n(1)] unfolding test_inv_def by blast
qed

end

sublocale connect_test \<subseteq> tst: invariant_system "test_initial first second info" "test_step E first second info"
  "test_inv E C first second info" net_may_panic
proof
  show "test_inv E C first second info n" if "test_initial first second info n" for n
    using that by (rule test_inv_initial)
next
  fix n l n'
  assume "test_inv E C first second info n" and "test_step E first second info n l (Inr n')"
  then show "test_inv E C first second info n'" using test_inv_step by (cases l) simp
next
  fix n l p
  assume "test_inv E C first second info n" and "test_step E first second info n l (Inl p)"
  then show "net_may_panic n p" using net.step_panic [of n l p] by (auto simp: test_inv_def test_step_def)
qed

interpretation sample_test: connect_test bincode_codec "\<lambda>x. bincode_extern cert key ca own (conn x)" addr2 addr1 peer2
  for cert key ca own conn
  by unfold_locales (simp_all add: addr1_def addr2_def)

end
