(* ===== verification/Api_Calls.thy ===== *)
theory Api_Calls
  imports Event_System
begin

text \<open>
  A program that uses the library calls methods of its \<open>QuicP2p\<close> handle. The calls
  that only post a closure are collected here as values, so that what a program asks
  of the library can be stated; \<open>perform_call\<close> makes the call on a handle, and
  \<open>call_label\<close> names the step of the event loop it leads to.
\<close>

datatype api_call =
    CallBootstrap
  | CallConnectTo node_info
  | CallDisconnectFrom socket_addr
  | CallSend peer bytes

fun perform_call :: "extern \<Rightarrow> api_call \<Rightarrow> quic_p2p \<Rightarrow> quic_p2p" where
  "perform_call E CallBootstrap = bootstrap E"
| "perform_call E (CallConnectTo ni) = quic_p2p_connect_to E ni"
| "perform_call E (CallDisconnectFrom a) = disconnect_from a"
| "perform_call E (CallSend p m) = send E p m"

fun call_label :: "api_call \<Rightarrow> label" where
  "call_label CallBootstrap = PostBootstrap"
| "call_label (CallConnectTo ni) = PostConnectTo ni"
| "call_label (CallDisconnectFrom a) = PostDisconnectFrom a"
| "call_label (CallSend p m) = PostSend p m"

fun call_closure :: "extern \<Rightarrow> api_call \<Rightarrow> world \<Rightarrow> panic + world" where
  "call_closure E CallBootstrap = qp2p_bootstrap E"
| "call_closure E (CallConnectTo ni) = qp2p_connect_to E ni"
| "call_closure E (CallDisconnectFrom a) = (\<lambda>w. Inr (qp2p_disconnect_from a w))"
| "call_closure E (CallSend p m) = qp2p_send E p m"

lemma perform_call_posts: "perform_call E c = el_post_to (ctx_mut (call_closure E c))"
  by (cases c) (simp_all add: bootstrap_def quic_p2p_connect_to_def disconnect_from_def send_def)

lemma posted_perform_calls:
  "posted (qp_el (fold (perform_call E) cs qp)) =
    posted (qp_el qp) @ map (\<lambda>c. event_loop_msg_new (ctx_mut (call_closure E c))) cs"
  by (induction cs arbitrary: qp) (simp_all add: perform_call_posts el_post_to_def el_post_def)

lemma run_event_loop_append:
  "run_event_loop (ms @ ms') cell =
    (case run_event_loop ms cell of LoopWaiting cell' \<Rightarrow> run_event_loop ms' cell' | r \<Rightarrow> r)"
  by (induction ms cell rule: run_event_loop.induct) (simp_all split: sum.splits)

lemma el_step_call: "el_step E w (call_label c) r \<longleftrightarrow> r = call_closure E c w"
  by (cases c) (simp_all add: el_step_simps)

text \<open>
  The calls in order, on the context the event loop has: each is one step of the
  transition system, and the loop panics exactly when a step does.
\<close>

lemma run_calls:
  "run_event_loop (map (\<lambda>c. event_loop_msg_new (ctx_mut (call_closure E c))) cs) (Some w) =
    (case fold_p (call_closure E) cs w of Inl p \<Rightarrow> LoopPanicked p | Inr w' \<Rightarrow> LoopWaiting (Some w'))"
  by (induction cs arbitrary: w) (simp_all add: event_loop_msg_new_def ctx_mut_def bind_p_def split: sum.splits)

lemma fold_p_snoc: "fold_p f (xs @ [x]) s = bind_p (fold_p f xs s) (f x)"
  by (simp add: fold_p_append) (simp add: bind_p_def split: sum.splits)

lemma steps_calls:
  "steps (el_step E) w (map call_label cs) w' \<longleftrightarrow> fold_p (call_closure E) cs w = Inr w'"
proof (induction cs arbitrary: w' rule: rev_induct)
  case Nil
  show ?case by (auto elim: steps.cases intro: steps_nil)
next
  case (snoc c cs)
  have "steps (el_step E) w (map call_label cs @ [call_label c]) w' \<longleftrightarrow>
      (\<exists>w1. steps (el_step E) w (map call_label cs) w1 \<and> el_step E w1 (call_label c) (Inr w'))"
    by (auto elim: steps.cases intro: steps_snoc)
  then show ?case by (auto simp: snoc.IH el_step_call fold_p_snoc bind_p_Inr_conv)
qed

lemma calls_run_as_steps:
  assumes "run_event_loop (posted (qp_el qp)) None = LoopWaiting (Some w)"
  shows "run_event_loop (posted (qp_el (fold (perform_call E) cs qp))) None = LoopWaiting (Some w') \<longleftrightarrow>
    steps (el_step E) w (map call_label cs) w'"
  by (simp add: posted_perform_calls run_event_loop_append assms run_calls steps_calls split: sum.splits)

end
