(* ===== verification/Socket_Tests.thy ===== *)
theory Socket_Tests
  imports Test_Runs Api_Properties Api_Calls Thread_End
begin

text \<open>
  The integration tests of \<open>tests/quic\_p2p.rs\<close> and the tests of \<open>src/lib.rs\<close>, which
  run instances on sockets: what they assert when they have waited, as functions of what
  they see, and that it holds in every run of \<open>Test_Runs\<close>.
\<close>

section \<open>Helpers of the tests\<close>

text \<open>
  What waiting on the receiver of the events comes to: nothing yet, the end of the
  channel, where the tests panic, or a value.
\<close>

datatype 'a awaited = Waiting | SenderGone | Got 'a

fun wait_till_connected :: "bool \<Rightarrow> event list \<Rightarrow> peer awaited" where
  "wait_till_connected gone [] = (if gone then SenderGone else Waiting)"
| "wait_till_connected gone (ConnectedTo p # es) = Got p"
| "wait_till_connected gone (_ # es) = wait_till_connected gone es"

lemma wait_got: "wait_till_connected gone es = Got p \<Longrightarrow> ConnectedTo p \<in> set es"
  by (induction gone es rule: wait_till_connected.induct) (auto split: if_splits)

definition test_config :: config where
  "test_config = config_default\<lparr>cfg_port := Some 0, cfg_ip := Some (V4 2130706433)\<rparr>"

definition test_peer ::
  "extern \<Rightarrow> sockets \<Rightarrow> config codec \<Rightarrow> project_dirs option \<Rightarrow> serialisable_certificate \<Rightarrow> disk
    \<Rightarrow> panic + quic_p2p R \<times> disk" where
  "test_peer E N C dirs generated d =
    build E N C dirs generated (with_proxies [] True (with_config test_config builder_new)) d"

text \<open>
  The tests of \<open>src/lib.rs\<close> build their instances with a generated certificate and the
  given contacts.
\<close>

definition new_random_qp2p_for_unit_test ::
  "extern \<Rightarrow> sockets \<Rightarrow> config codec \<Rightarrow> project_dirs option \<Rightarrow> serialisable_certificate \<Rightarrow> bool \<Rightarrow> node_info list
    \<Rightarrow> disk \<Rightarrow> panic + quic_p2p R \<times> disk" where
  "new_random_qp2p_for_unit_test E N C dirs generated is_addr_unspecified contacts d =
    (let cfg = (with_default_cert generated)\<lparr>cfg_hard_coded_contacts := contacts, cfg_port := Some 0\<rparr>;
         cfg = (if is_addr_unspecified then cfg else cfg\<lparr>cfg_ip := Some (V4 2130706433)\<rparr>)
     in build E N C dirs generated (with_config cfg builder_new) d)"

lemma initial_install: "initial_world w \<Longrightarrow> initial_world (install_proxies ps ex w)"
  unfolding initial_world_def
  by (auto simp: install_proxies_def context_new_def Let_def)

text \<open>An instance of the integration tests starts as a node with an empty cache and no contacts.\<close>

lemma test_peer_starts:
  assumes "test_peer E N C dirs g d = Inr (Inr qp, d')" and "bind_endpoint N (settings_of (qp_cfg qp)) = Inr pt"
    and "\<And>c k. add_own_certificate E c k = None"
  shows "\<exists>w. run_event_loop (posted (qp_el qp)) None = LoopWaiting (Some w) \<and> initial_world w \<and> test_world w"
proof -
  obtain w0 where w0: "run_event_loop (posted (qp_el qp)) None = LoopWaiting (Some (install_proxies [] True w0))"
      "initial_world w0" "our_type w0 = cfg_our_type (qp_cfg qp)"
      "hard_coded_contacts (bootstrap_cache w0) = cfg_hard_coded_contacts (qp_cfg qp)" "qp_cfg qp = test_config"
    using assms(1) unfolding test_peer_def
    by (elim build_world [OF _ assms(2,3)]) (auto simp: with_proxies_def with_config_def builder_new_def)
  have "test_world (install_proxies [] True w0)"
    using w0(3-5) by (simp add: test_world_def install_proxies_def test_config_def config_default_def default_our_type_def our_type_default_def Let_def)
  then show ?thesis using w0(1,2) initial_install by blast
qed

text \<open>
  \<open>dropping_qp2p_handle_gracefully_shutsdown_event_loop\<close>: a handle is built and dropped;
  the drop joins the thread, so the test ends exactly if the loop does.
\<close>

definition dropping_qp2p_handle_gracefully_shutsdown_event_loop ::
  "extern \<Rightarrow> sockets \<Rightarrow> config codec \<Rightarrow> project_dirs option \<Rightarrow> serialisable_certificate \<Rightarrow> disk \<Rightarrow> loop_result option" where
  "dropping_qp2p_handle_gracefully_shutsdown_event_loop E N C dirs generated d =
    (case build E N C dirs generated builder_new d of
       Inr (Inr qp2p, _) \<Rightarrow> Some (run_event_loop (posted (drop_event_loop (qp_el qp2p))) None)
     | _ \<Rightarrow> None)"

text \<open>
  \<open>echo_service\<close>, as far as its first instance: without contacts there is no echo
  service, any other answer is a panic, and the connection info comes from the endpoint.
\<close>

definition echo_service_first_instance ::
  "extern \<Rightarrow> sockets \<Rightarrow> nat \<Rightarrow> unit + socket_addr \<Rightarrow> ctx_cell \<Rightarrow> quic_p2p \<Rightarrow> panic + node_info \<times> quic_p2p" where
  "echo_service_first_instance E N ch answer cell qp2p0 =
    bind_p (query_ip_echo_service E ch answer qp2p0) (\<lambda>(res, qp).
      case res of
        Inl NoEndpointEchoServerFound \<Rightarrow>
          bind_p (our_connection_info E N ch answer cell qp) (\<lambda>(info, qp1).
            case info of Inr ni \<Rightarrow> Inr (ni, qp1) | Inl _ \<Rightarrow> Inl UnwrapOnError)
      | _ \<Rightarrow> Inl UnwrapOnError)"

section \<open>The tests of tests/quic\_p2p.rs\<close>

text \<open>
  What each test asserts when it has waited for the event; \<open>qp\<close> is the handle whose
  bootstrap cache it asks for.
\<close>

definition successfull_connection_stores_peer_in_bootstrap_cache ::
  "node_info \<Rightarrow> world \<Rightarrow> quic_p2p \<Rightarrow> bool awaited" where
  "successfull_connection_stores_peer_in_bootstrap_cache peer1_conn_info w2 qp =
    map_awaited (\<lambda>connected_to. connected_to = node_info_into_peer peer1_conn_info \<and>
        fst (bootstrap_cache_list (Some w2) qp) = Inr [peer1_conn_info])
      (wait_till_connected False (events w2))"

definition incoming_connections_yield_connected_to_event :: "node_info \<Rightarrow> world \<Rightarrow> bool awaited" where
  "incoming_connections_yield_connected_to_event peer2_conn_info w1 =
    map_awaited (\<lambda>p. peer_cert_der p = Some (ni_peer_cert_der peer2_conn_info))
      (wait_till_connected False (events w1))"

definition incoming_connections_are_not_put_into_bootstrap_cache_upon_connected_to_event ::
  "world \<Rightarrow> quic_p2p \<Rightarrow> bool awaited" where
  "incoming_connections_are_not_put_into_bootstrap_cache_upon_connected_to_event w1 qp =
    map_awaited (\<lambda>_. fst (bootstrap_cache_list (Some w1) qp) = Inr []) (wait_till_connected False (events w1))"

lemma awaited_holds:
  "(\<And>p. ConnectedTo p \<in> set es \<Longrightarrow> P p) \<Longrightarrow> map_awaited P (wait_till_connected False es) \<in> {Waiting, Got True}"
  by (induction False es rule: wait_till_connected.induct) auto

context connect_test
begin

lemma test_reachable_inv: "test_reachable E first second info n \<Longrightarrow> test_inv E C first second info n"
  by (simp add: test_reachable_def tst.reach_I)

lemma announces_other:
  assumes inv: "net_inv E C n" and su: "test_setup first second info n w1 w2" and x: "x = first \<or> x = second"
    and w: "members n x = Some w" "ConnectedTo p \<in> set (events w)"
  shows "\<exists>a v. a \<noteq> x \<and> members n a = Some v \<and> p = PeerNode (node_at a (cert_der (our_complete_cert v)))"
proof (cases p)
  case (PeerNode ni)
  then have "net_may_know C n x ni"
    using net_invD(2) [OF inv w(1)] w(2) by (fastforce simp: flow_def net_rules_def net_verified_def)
  then show ?thesis using knows_other [OF su x] PeerNode by (cases ni) fastforce
next
  case (PeerClient a)
  have lab: "\<And>l. l \<in> set (history n) \<Longrightarrow> test_label first second info l" using su unfolding test_setup_def by blast
  have recv: "net_may_recv C n x a (Handshake HandshakeClient)"
    using net_invD(2) [OF inv w(1)] w(2) PeerClient by (fastforce simp: flow_def net_rules_def)
  have False
  proof (cases "members n a")
    case None
    then obtain raw where "(x, ReadFinished a (Inr raw)) \<in> set (history n)"
      using recv by (auto simp: net_may_recv_def)
    then have "a = first \<or> a = second" using lab by (fastforce simp: test_label_def)
    then show False using None su by (auto simp: test_setup_def split: if_splits)
  next
    case (Some v)
    have "addr_ok x" using x addrs_ok by blast
    then have "net_client n a" using control_msg_sent [OF recv] Some by simp
    then show False using su by (auto simp: test_setup_def net_client_def split: if_splits)
  qed
  then show ?thesis by blast
qed

lemma tests_hold:
  assumes "test_reachable E first second info n" and "members n first = Some w1" and "members n second = Some w2"
  shows "successfull_connection_stores_peer_in_bootstrap_cache info w2 qp2 \<in> {Waiting, Got True}"
    and "incoming_connections_yield_connected_to_event (node_at second (cert_der (our_complete_cert w2))) w1
      \<in> {Waiting, Got True}"
    and "incoming_connections_are_not_put_into_bootstrap_cache_upon_connected_to_event w1 qp1 \<in> {Waiting, Got True}"
proof -
  obtain v1 v2 where inv: "net_inv E C n" and su: "test_setup first second info n v1 v2"
    and phase: "cached info (bootstrap_cache v2) \<or> before_connection first second n v1 v2"
    using test_reachable_inv [OF assms(1)] by (auto simp: test_inv_def)
  have mem: "members n = [first \<mapsto> v1, second \<mapsto> v2]" and info: "info = node_at first (cert_der (our_complete_cert v1))"
    using su unfolding test_setup_def by blast+
  then have v: "v1 = w1" "v2 = w2" using assms(2,3) apart by auto
  have p2: "p = PeerNode info \<and> cached info (bootstrap_cache w2)" if p: "ConnectedTo p \<in> set (events w2)" for p
  proof -
    have "p = PeerNode info" using announces_other [OF inv su _ assms(3) p] mem info v by (auto split: if_splits)
    moreover have "\<not> before_connection first second n v1 v2"
    proof
      assume "before_connection first second n v1 v2"
      then have "ends n second = Map.empty" by (simp add: before_connection_def)
      then show False
        using net_invD(2) [OF inv assms(3)] p calculation by (fastforce simp: flow_def net_rules_def net_verified_def)
    qed
    ultimately show ?thesis using phase v by simp
  qed
  then show "successfull_connection_stores_peer_in_bootstrap_cache info w2 qp2 \<in> {Waiting, Got True}"
    unfolding successfull_connection_stores_peer_in_bootstrap_cache_def
    by (intro awaited_holds) (simp add: node_info_into_peer_def bootstrap_cache_list_def ctx_def cached_def)
  have "p = PeerNode (node_at second (cert_der (our_complete_cert w2)))" if "ConnectedTo p \<in> set (events w1)" for p
    using announces_other [OF inv su _ assms(2) that] mem v by (auto split: if_splits)
  then show "incoming_connections_yield_connected_to_event (node_at second (cert_der (our_complete_cert w2))) w1
      \<in> {Waiting, Got True}"
    unfolding incoming_connections_yield_connected_to_event_def by (intro awaited_holds) fastforce
  have "set (peers (bootstrap_cache w1)) = {}"
    using net_invD(2) [OF inv assms(2)] test_setup_asked(2,3) [OF su, of first] apart
    by (auto simp: flow_def cache_flow_def net_rules_def net_may_cache_def)
  then show "incoming_connections_are_not_put_into_bootstrap_cache_upon_connected_to_event w1 qp1 \<in> {Waiting, Got True}"
    unfolding incoming_connections_are_not_put_into_bootstrap_cache_upon_connected_to_event_def
    by (intro awaited_holds) (simp add: bootstrap_cache_list_def ctx_def)
qed

end

text \<open>
  C7. The integration tests hold in every run: of two fresh instances on a network of
  their own the second is asked to connect to the first. Whenever the second has seen a
  \<open>ConnectedTo\<close> event, the first such event was for the first instance, and the second's
  bootstrap cache is exactly that node; whenever the first has seen one, its first one
  carries the certificate of the second instance, and the first's cache is empty.
\<close>

theorem integration_tests_hold:
  assumes "bincode_wire C" and "\<And>x. msg_codec (E x) = C" and "first \<noteq> second" and "addr_ok first" and "addr_ok second"
    and "test_reachable E first second info n" and "members n first = Some w1" and "members n second = Some w2"
  shows "successfull_connection_stores_peer_in_bootstrap_cache info w2 qp2 \<in> {Waiting, Got True} \<and>
    incoming_connections_yield_connected_to_event (node_at second (cert_der (our_complete_cert w2))) w1
      \<in> {Waiting, Got True} \<and>
    incoming_connections_are_not_put_into_bootstrap_cache_upon_connected_to_event w1 qp1 \<in> {Waiting, Got True}"
proof -
  have "connect_test C E first second"
    using qp2p_network_intro [OF assms(1,2)] assms(3-5) by (simp add: connect_test_def connect_test_axioms_def)
  from connect_test.tests_hold [OF this assms(6-8)] show ?thesis by blast
qed

definition meeting :: "(socket_addr \<times> label) list" where
  "meeting =
    [(addr1, PostConnectTo peer2), (addr1, AttemptConnected 0), (addr1, write_of hello),
     (addr2, IncomingConnection addr1), (addr2, StreamArrived 0 addr1 UniStream),
     (addr2, ReadFinished addr1 (Inr (raw_of hello))), (addr2, AttemptConnected 0),
     (addr1, IncomingConnection addr2)]"

lemma meeting_runs: "\<exists>n w1 w2. net_run (\<lambda>_. sample_extern) meeting two_nodes = Some n \<and>
  members n addr2 = Some w1 \<and> members n addr1 = Some w2 \<and>
  events w1 = [ConnectedTo (PeerNode (node_at addr1 [1]))] \<and> events w2 = [ConnectedTo (PeerNode peer2)]"
  by (simp add: meeting_def two_nodes_def second_start_def net_delivers_def
      net_update_def net_new_end_def map_filter_simps peer2_def write_of_def hello_def into_bytes_raw_of
      from_raw_raw_of enc_bytes_def exec_defs sample_defs)

lemma net_run_test_reachable:
  "net_run E ls n = Some n' \<Longrightarrow> list_all (test_label first second info) ls \<Longrightarrow>
    test_reachable E first second info n \<Longrightarrow> test_reachable E first second info n'"
proof (induction E ls n rule: net_run.induct)
  case (2 E x l ls n)
  then obtain w w' where w: "members n x = Some w" "net_delivers n x l" "el_exec (E x) w l = Some (Inr w')"
      "net_run E ls (net_update x w l w' n) = Some n'"
    by (auto split: option.splits if_splits sum.splits)
  then have "test_step E first second info n (x, l) (Inr (net_update x w l w' n))"
    using "2.prems"(2) by (simp add: test_step_def member_steps el_step_exec)
  then show ?case using "2.IH" w "2.prems"(2,3) reach_step by (fastforce simp: test_reachable_def)
qed simp

theorem integration_tests_hold_witness:
  "\<exists>n w1 w2 qp. test_reachable (\<lambda>_. sample_extern) addr2 addr1 peer2 n \<and>
     members n addr2 = Some w1 \<and> members n addr1 = Some w2 \<and>
     successfull_connection_stores_peer_in_bootstrap_cache peer2 w2 qp = Got True \<and>
     incoming_connections_are_not_put_into_bootstrap_cache_upon_connected_to_event w1 qp = Got True"
proof -
  obtain n w1 w2 where n: "net_run (\<lambda>_. sample_extern) meeting two_nodes = Some n"
      "members n addr2 = Some w1" "members n addr1 = Some w2"
      "events w1 = [ConnectedTo (PeerNode (node_at addr1 [1]))]" "events w2 = [ConnectedTo (PeerNode peer2)]"
    using meeting_runs by blast
  have "test_initial addr2 addr1 peer2 two_nodes"
    by (auto simp: test_initial_def net_initial_def two_nodes_def second_start_initial sample_start_initial
        test_world_def peer2_def fun_upd_twist Let_def split: if_splits)
      (auto simp: second_start_def sample_start_def context_new_def sample_cache_def addr1_def addr2_def intro!: exI)
  then have "test_reachable (\<lambda>_. sample_extern) addr2 addr1 peer2 two_nodes"
    by (simp add: test_reachable_def reach_init)
  moreover have "list_all (test_label addr2 addr1 peer2) meeting"
    by (simp add: meeting_def test_label_def write_of_def)
  ultimately have r: "test_reachable (\<lambda>_. sample_extern) addr2 addr1 peer2 n"
    using net_run_test_reachable [OF n(1)] by blast
  have "successfull_connection_stores_peer_in_bootstrap_cache peer2 w2 qp \<noteq> Waiting"
    "incoming_connections_are_not_put_into_bootstrap_cache_upon_connected_to_event w1 qp \<noteq> Waiting" for qp
    by (simp_all add: successfull_connection_stores_peer_in_bootstrap_cache_def n(4,5)
        incoming_connections_are_not_put_into_bootstrap_cache_upon_connected_to_event_def)
  moreover have "addr2 \<noteq> addr1" "addr_ok addr2" "addr_ok addr1" by (simp_all add: addr1_def addr2_def)
  ultimately show ?thesis
    using integration_tests_hold [OF sample_codec refl _ _ _ r n(2,3)] r n(2,3) by fast
qed

section \<open>Dropping a handle\<close>

text \<open>
  A dropped handle ends its event loop: if a handle is built, its endpoint bound and
  our certificate accepted, then after the calls made on it the loop ends, or one of
  these calls has panicked it; and from where it ends the thread releases everything, so
  that joining it returns with no connection and no bootstrap group left.
\<close>

theorem dropped_handle_ends_loop:
  assumes "build E N C dirs g b d = Inr (Inr qp, d')" and "bind_endpoint N (settings_of (qp_cfg qp)) = Inr pt"
    and "\<And>c k. add_own_certificate E c k = None" and "bincode_wire (msg_codec E)"
  shows "(\<exists>p. run_event_loop (posted (drop_event_loop (qp_el (fold (perform_call E) cs qp)))) None = LoopPanicked p) \<or>
    (\<exists>w. run_event_loop (posted (drop_event_loop (qp_el (fold (perform_call E) cs qp)))) None = LoopExited (Some w) \<and>
       reachable E w \<and> (\<forall>order. set order = dom (connections w) \<longrightarrow>
         (\<exists>w'. thread_exit order (Some w) = Some w' \<and> connections w' = Map.empty \<and> groups w' = Map.empty \<and>
            set (closed w') = {..<next_q w})))"
proof -
  obtain w0 where w0: "run_event_loop (posted (qp_el qp)) None = LoopWaiting (Some w0)" "reachable E w0"
    using build_world [OF assms(1-3)] reachable_step [OF reachable_init el_step.post_proxies] by metis
  have run: "run_event_loop (posted (drop_event_loop (qp_el (fold (perform_call E) cs qp)))) None =
      (case fold_p (call_closure E) cs w0 of Inl p \<Rightarrow> LoopPanicked p | Inr w \<Rightarrow> LoopExited (Some w))"
    by (simp add: drop_event_loop_def event_loop_terminator_def posted_perform_calls run_event_loop_append w0(1)
        run_calls split: sum.split)
  show ?thesis
  proof (cases "fold_p (call_closure E) cs w0")
    case (Inl p)
    then show ?thesis using run by simp
  next
    case (Inr w)
    then have "steps (el_step E) w0 (map call_label cs) w" by (simp add: steps_calls)
    then have "reachable E w" using w0(2) steps_reach by (simp add: reachable_def)
    then show ?thesis using run Inr thread_exit_empties [OF assms(4)] by simp
  qed
qed

theorem drop_test_ends:
  assumes "build E N C dirs g builder_new d = Inr (Inr qp, d')" and "bind_endpoint N (settings_of (qp_cfg qp)) = Inr pt"
    and "\<And>c k. add_own_certificate E c k = None"
  shows "\<exists>w. dropping_qp2p_handle_gracefully_shutsdown_event_loop E N C dirs g d = Some (LoopExited (Some w))"
proof -
  obtain w where "run_event_loop (posted (qp_el qp)) None = LoopWaiting (Some w)"
    using build_world [OF assms] by metis
  then show ?thesis
    by (simp add: dropping_qp2p_handle_gracefully_shutsdown_event_loop_def assms(1) drop_event_loop_def
        event_loop_terminator_def run_event_loop_append)
qed

text \<open>The first instance of the echo test is known by the address it is bound to.\<close>

theorem echo_test_first_instance:
  assumes "new_random_qp2p_for_unit_test E N C dirs g False [] d = Inr (Inr qp, d')"
    and "run_event_loop (posted (qp_el qp)) None = LoopWaiting (Some w)"
    and "ep_local_addr N = Inr a" and "\<not> is_unspecified (ip a)" and "qp_us qp = None"
  shows "\<exists>qp1. echo_service_first_instance E N ch answer (Some w) qp = Inr (node_at a (cert_der (our_complete_cert w)), qp1)"
proof -
  have "cfg_hard_coded_contacts (qp_cfg qp) = []"
    using build_cfg [OF assms(1) [unfolded new_random_qp2p_for_unit_test_def Let_def]]
    by (simp add: with_config_def)
  then show ?thesis
    using assms(3-5)
    by (simp add: echo_service_first_instance_def query_ip_echo_service_def our_connection_info_def
        our_certificate_der_def el_post_to_def ctx_def bind_p_def Let_def)
qed

end
