(* ===== verification/Lib_Tests.thy ===== *)
theory Lib_Tests
  imports Socket_Tests Contact_Mark "HOL-Library.Multiset"
begin

text \<open>
  The other tests of \<open>src/lib.rs\<close> that run instances on sockets: the rest of
  \<open>echo_service\<close>, the one on concurrent streams and the one on the contacted mark. What
  they do with the events they receive is a function of the events; the theorems say when
  their assertions hold.
\<close>

section \<open>The contacted mark\<close>

text \<open>
  The test waits for a \<open>ConnectedTo\<close> event and then looks up the entry, unwrapping it.
\<close>

definition connect_to_marks_that_we_attempted_to_contact_the_peer ::
  "socket_addr \<Rightarrow> world \<Rightarrow> (panic + bool) awaited" where
  "connect_to_marks_that_we_attempted_to_contact_the_peer peer1_addr w =
    map_awaited (\<lambda>_. case connections w peer1_addr of
        None \<Rightarrow> Inl UnwrapOnError
      | Some c \<Rightarrow> Inr (we_contacted_peer c))
      (wait_till_connected False (events w))"

text \<open>Steps during which the entry of a peer stays in the table\<close>

definition entry_stays :: "extern \<Rightarrow> socket_addr \<Rightarrow> world \<Rightarrow> label \<Rightarrow> panic + world \<Rightarrow> bool" where
  "entry_stays E a w l r \<longleftrightarrow> el_step E w l r \<and> l \<noteq> PostBootstrap \<and>
    (case r of Inl _ \<Rightarrow> True | Inr w' \<Rightarrow> connections w' a \<noteq> None)"

lemma mark_stays:
  assumes "reach I (entry_stays E a) w" and "\<And>v. I v \<Longrightarrow> marked v a"
  shows "marked w a"
  using assms
proof (induction rule: reach.induct)
  case (reach_step v l v')
  then have "el_step E v l (Inr v')" "l \<noteq> PostBootstrap" "connections v' a \<noteq> None" by (simp_all add: entry_stays_def)
  then have "marks_last v v'" "connections v' a \<noteq> None" using marks_step by blast+
  moreover have "marked v a" using reach_step by blast
  ultimately show ?case by (auto simp: marks_last_def)
qed blast

text \<open>
  The test on the contacted mark passes on every run after \<open>connect_to\<close> on a fresh instance,
  as long as the entry is not dropped; if it is, the test panics or finds a new entry.
\<close>

theorem contacted_mark_test_holds:
  assumes "initial_world w0" and "our_type w0 = OurNode" and "qp2p_connect_to E info w0 = Inr w1"
    and "connections w1 (ni_peer_addr info) \<noteq> None" and "reach (\<lambda>v. v = w1) (entry_stays E (ni_peer_addr info)) w"
  shows "connect_to_marks_that_we_attempted_to_contact_the_peer (ni_peer_addr info) w \<in> {Waiting, Got (Inr True)}"
proof -
  have "connections w0 = Map.empty" "attempts w0 = Map.empty" using assms(1) by (auto simp: initial_world_def context_new_def)
  then have "calling (ni_peer_addr info) w0" by (simp add: calling_def)
  then have "calling (ni_peer_addr info) w1" using calling_connect_to [OF assms(3) _ assms(2)] by blast
  moreover obtain c1 where c1: "connections w1 (ni_peer_addr info) = Some c1" using assms(4) by blast
  ultimately have "we_contacted_peer c1" unfolding calling_def by blast
  then have "marked w1 (ni_peer_addr info)" using c1 by (simp add: marked_def)
  then have "marked w (ni_peer_addr info)" using mark_stays [OF assms(5)] by blast
  then obtain c where "connections w (ni_peer_addr info) = Some c" "we_contacted_peer c"
    by (auto simp: marked_def split: option.splits)
  then show ?thesis
    using awaited_holds [of "events w" "\<lambda>_. True"]
    by (cases "wait_till_connected False (events w)")
      (simp_all add: connect_to_marks_that_we_attempted_to_contact_the_peer_def)
qed

section \<open>Concurrent streams\<close>

text \<open>
  The thread that waits for three messages from the peer at \<open>a\<close>: the first two have to be
  small ones, the last the big one; anything else is a panic.
\<close>

primrec receive_messages ::
  "socket_addr \<Rightarrow> bytes \<Rightarrow> bytes \<Rightarrow> bytes \<Rightarrow> nat \<Rightarrow> event list \<Rightarrow> bool awaited" where
  "receive_messages a small0 small1 big i [] = (if i = 3 then Got True else Waiting)"
| "receive_messages a small0 small1 big i (e # es) =
    (if i = 3 then Got True
     else case e of
            NewMessage b m \<Rightarrow>
              if b = a \<and> (if i \<noteq> 2 then m = small0 \<or> m = small1 else m = big)
              then receive_messages a small0 small1 big (Suc i) es
              else Got False
          | _ \<Rightarrow> Got False)"

definition multistreaming_receiver :: "socket_addr \<Rightarrow> bytes \<Rightarrow> bytes \<Rightarrow> bytes \<Rightarrow> event list \<Rightarrow> bool awaited" where
  "multistreaming_receiver a small0 small1 big es =
    (case es of
       [] \<Rightarrow> Waiting
     | ConnectedTo (PeerNode ni) # es' \<Rightarrow>
         if ni_peer_addr ni = a then receive_messages a small0 small1 big 0 es' else Got False
     | _ \<Rightarrow> Got False)"

definition multistreaming_sender :: "socket_addr \<Rightarrow> bytes \<Rightarrow> event list \<Rightarrow> bool awaited" where
  "multistreaming_sender a msg es =
    (case es of
       [] \<Rightarrow> Waiting
     | ConnectedTo (PeerNode ni) # es' \<Rightarrow>
         if ni_peer_addr ni = a
         then (case es' of
                 [] \<Rightarrow> Waiting
               | NewMessage b m # _ \<Rightarrow> Got (b = a \<and> m = msg)
               | _ \<Rightarrow> Got False)
         else Got False
     | _ \<Rightarrow> Got False)"

text \<open>The calls of the test, on \<open>qp2p1\<close> and \<open>qp2p0\<close>\<close>

definition small_msg0_to_qp2p0 :: bytes where
  "small_msg0_to_qp2p0 = [255, 254, 253, 252]"

definition small_msg1_to_qp2p0 :: bytes where
  "small_msg1_to_qp2p0 = [155, 154, 153, 152]"

definition big_msg_to_qp2p0 :: bytes where
  "big_msg_to_qp2p0 = replicate (400 * 1024 * 1024) 255"

definition msg_to_qp2p1 :: bytes where
  "msg_to_qp2p1 = [120, 129, 2]"

definition multistreaming_calls :: "node_info \<Rightarrow> node_info \<Rightarrow> api_call list \<times> api_call list" where
  "multistreaming_calls qp2p0_info qp2p1_info =
    ([CallSend (PeerNode qp2p1_info) msg_to_qp2p1],
     [CallSend (PeerNode qp2p0_info) big_msg_to_qp2p0, CallSend (PeerNode qp2p0_info) small_msg0_to_qp2p0,
      CallSend (PeerNode qp2p0_info) small_msg1_to_qp2p0])"

text \<open>
  The reads of several streams may be in flight at once, and QUIC decides in which order
  they end: over a connection established both ways the messages are delivered in just
  that order.
\<close>

lemma read_delivers:
  assumes "connections w a = Some c" and "from_peer c = FpEstablished q reads" and "to_peer c = TpEstablished crt tq"
    and "a \<in> set (stream_reads w)" and "length raw \<le> max_msg_size_allowed w" and "from_raw (msg_codec E) raw = Inr (UserMsg m)"
  shows "\<exists>w'. el_step E w (ReadFinished a (Inr raw)) (Inr w') \<and> events w' = events w @ [NewMessage a m] \<and>
    connections w' = connections w \<and> stream_reads w' = remove1 a (stream_reads w) \<and>
    max_msg_size_allowed w' = max_msg_size_allowed w"
proof -
  let ?w0 = "w\<lparr>stream_reads := remove1 a (stream_reads w)\<rparr>"
  obtain w' where w': "take_and_dispatch E (PeerNode (node_at a crt)) tq (we_contacted_peer c) (UserMsg m) ?w0 = Inr w'"
    using take_and_dispatch_total [of "UserMsg m"] by fastforce
  then have "events w' = events w @ [NewMessage a m]" "connections w' = connections w"
      "stream_reads w' = remove1 a (stream_reads w)" "max_msg_size_allowed w' = max_msg_size_allowed w"
    by (auto simp: take_and_dispatch_def dispatch_wire_msg_def handle_user_msg_def cache_add_peer_def drop_inform_tx_def
        send_event_def Let_def split: option.splits prod.splits if_splits)
  moreover have "el_step E w (ReadFinished a (Inr raw)) (Inr w')"
    using assms w' by (simp add: el_step_simps run_read_task_def handle_wire_msg_def node_info_into_peer_def)
  ultimately show ?thesis by blast
qed

lemma reads_deliver:
  assumes "connections w a = Some c" and "from_peer c = FpEstablished q reads" and "to_peer c = TpEstablished crt tq"
    and "length raws \<le> count_list (stream_reads w) a"
    and "list_all2 (\<lambda>raw m. length raw \<le> max_msg_size_allowed w \<and> from_raw (msg_codec E) raw = Inr (UserMsg m)) raws ms"
  shows "\<exists>w'. steps (el_step E) w (map (\<lambda>raw. ReadFinished a (Inr raw)) raws) w' \<and>
    events w' = events w @ map (NewMessage a) ms \<and> connections w' = connections w \<and>
    count_list (stream_reads w') a = count_list (stream_reads w) a - length raws \<and>
    max_msg_size_allowed w' = max_msg_size_allowed w"
  using assms(4,5)
proof (induction raws arbitrary: ms rule: rev_induct)
  case Nil
  then show ?case by (auto intro: steps_nil)
next
  case (snoc raw raws)
  obtain ms' m where ms: "ms = ms' @ [m]"
      "list_all2 (\<lambda>raw m. length raw \<le> max_msg_size_allowed w \<and> from_raw (msg_codec E) raw = Inr (UserMsg m)) raws ms'"
      "length raw \<le> max_msg_size_allowed w" "from_raw (msg_codec E) raw = Inr (UserMsg m)"
    using snoc.prems(2) by (auto simp: list_all2_append1 list_all2_Cons1)
  obtain v where v: "steps (el_step E) w (map (\<lambda>raw. ReadFinished a (Inr raw)) raws) v"
      "events v = events w @ map (NewMessage a) ms'" "connections v = connections w"
      "count_list (stream_reads v) a = count_list (stream_reads w) a - length raws"
      "max_msg_size_allowed v = max_msg_size_allowed w"
    using snoc.IH [OF _ ms(2)] snoc.prems(1) by auto
  have "a \<in> set (stream_reads v)"
    using v(4) snoc.prems(1) count_notin [of a "stream_reads v"] by fastforce
  then obtain w' where w': "el_step E v (ReadFinished a (Inr raw)) (Inr w')" "events w' = events v @ [NewMessage a m]"
      "connections w' = connections v" "stream_reads w' = remove1 a (stream_reads v)"
      "max_msg_size_allowed w' = max_msg_size_allowed v"
    using read_delivers [of v a c q reads crt tq raw E m] assms(1-3) v(3,5) ms(3,4) by auto
  have "count_list (remove1 a xs) a = count_list xs a - 1" for xs by (induction xs) auto
  then have "count_list (stream_reads w') a = count_list (stream_reads w) a - length (raws @ [raw])"
    using w'(4) v(4) by simp
  then show ?case using steps_snoc [OF v(1) w'(1)] w' v ms(1) by auto
qed

lemma user_streams_deliver:
  assumes "bincode_wire (msg_codec E)"
    and "connections w a = Some c" and "from_peer c = FpEstablished q reads" and "to_peer c = TpEstablished crt tq"
    and "length ms \<le> count_list (stream_reads w) a"
    and "\<And>m. m \<in> set ms \<Longrightarrow> (length m \<le> 1012 \<or> 1024 < length m) \<and> length m + 12 \<le> max_msg_size_allowed w"
  shows "\<exists>raws w'. map (into_bytes (msg_codec E) \<circ> UserMsg) ms = map Inr raws \<and>
    steps (el_step E) w (map (\<lambda>raw. ReadFinished a (Inr raw)) raws) w' \<and> events w' = events w @ map (NewMessage a) ms"
proof -
  let ?C = "msg_codec E"
  obtain r where r: "\<And>m. m \<in> set ms \<Longrightarrow> into_bytes ?C (UserMsg m) = Inr (r m) \<and> length (r m) \<le> length m + 12 \<and>
      from_raw ?C (r m) = Inr (UserMsg m)"
    using bincode_wire.user_msg_stream [OF assms(1)] assms(6) by metis
  have fits: "length (r m) \<le> max_msg_size_allowed w" if "m \<in> set ms" for m
    using r [OF that] assms(6) [OF that] by linarith
  have "list_all2 (\<lambda>raw m. length raw \<le> max_msg_size_allowed w \<and> from_raw ?C raw = Inr (UserMsg m)) (map r ms) ms"
    using r fits by (simp add: list_all2_conv_all_nth)
  from reads_deliver [OF assms(2-4) _ this] assms(5) obtain w' where
      "steps (el_step E) w (map (\<lambda>raw. ReadFinished a (Inr raw)) (map r ms)) w'" "events w' = events w @ map (NewMessage a) ms"
    by auto
  moreover have "map (into_bytes ?C \<circ> UserMsg) ms = map Inr (map r ms)" using r by simp
  ultimately show ?thesis by blast
qed

text \<open>What the receiving thread makes of three messages from the peer\<close>

lemma receiver_outcome:
  assumes "mset [m0, m1, m2] = mset [big, small0, small1]" and "big \<noteq> small0" and "big \<noteq> small1"
  shows "multistreaming_receiver a small0 small1 big
      [ConnectedTo (PeerNode (node_at a crt)), NewMessage a m0, NewMessage a m1, NewMessage a m2] = Got (m2 = big)"
proof -
  have "{m0, m1, m2} = {big, small0, small1}" using mset_eq_setD [OF assms(1)] by simp
  moreover have "count (mset [m0, m1, m2]) big = 1" unfolding assms(1) using assms(2,3) by simp
  then have "m2 = big \<Longrightarrow> m0 \<noteq> big \<and> m1 \<noteq> big" by (simp split: if_splits)
  ultimately show ?thesis using assms(2,3) by (auto simp: multistreaming_receiver_def)
qed

lemma test_messages:
  "length small_msg0_to_qp2p0 = 4" "length small_msg1_to_qp2p0 = 4" "length big_msg_to_qp2p0 = 419430400"
  "length msg_to_qp2p1 = 3" "big_msg_to_qp2p0 \<noteq> small_msg0_to_qp2p0" "big_msg_to_qp2p0 \<noteq> small_msg1_to_qp2p0"
proof -
  show l: "length small_msg0_to_qp2p0 = 4" "length small_msg1_to_qp2p0 = 4" "length msg_to_qp2p1 = 3"
    by (simp_all add: small_msg0_to_qp2p0_def small_msg1_to_qp2p0_def msg_to_qp2p1_def)
  show b: "length big_msg_to_qp2p0 = 419430400" unfolding big_msg_to_qp2p0_def length_replicate by simp
  show "big_msg_to_qp2p0 \<noteq> small_msg0_to_qp2p0" "big_msg_to_qp2p0 \<noteq> small_msg1_to_qp2p0" using l b by fastforce+
qed

text \<open>
  The receiving thread of the test passes exactly if the stream of the big message
  ends last.
\<close>

theorem receiver_passes_if_big_ends_last:
  assumes "bincode_wire (msg_codec E)" and "connections w a = Some c" and "from_peer c = FpEstablished q []"
    and "to_peer c = TpEstablished crt tq" and "events w = [ConnectedTo (PeerNode (node_at a crt))]"
    and "3 \<le> count_list (stream_reads w) a" and "max_msg_size_allowed w = DEFAULT_MAX_ALLOWED_MSG_SIZE"
    and "mset [m0, m1, m2] = mset [big_msg_to_qp2p0, small_msg0_to_qp2p0, small_msg1_to_qp2p0]"
  shows "\<exists>raws w'. map (into_bytes (msg_codec E) \<circ> UserMsg) [m0, m1, m2] = map Inr raws \<and>
    steps (el_step E) w (map (\<lambda>raw. ReadFinished a (Inr raw)) raws) w' \<and>
    multistreaming_receiver a small_msg0_to_qp2p0 small_msg1_to_qp2p0 big_msg_to_qp2p0 (events w') =
      Got (m2 = big_msg_to_qp2p0)"
proof -
  have "set [m0, m1, m2] = {big_msg_to_qp2p0, small_msg0_to_qp2p0, small_msg1_to_qp2p0}"
    using mset_eq_setD [OF assms(8)] by simp
  then have "(length m \<le> 1012 \<or> 1024 < length m) \<and> length m + 12 \<le> max_msg_size_allowed w" if "m \<in> set [m0, m1, m2]" for m
    using that test_messages(1-3) assms(7) unfolding DEFAULT_MAX_ALLOWED_MSG_SIZE_def by auto
  moreover have "length [m0, m1, m2] \<le> count_list (stream_reads w) a" using assms(6) by simp
  ultimately obtain raws w' where w':
      "map (into_bytes (msg_codec E) \<circ> UserMsg) [m0, m1, m2] = map Inr raws"
      "steps (el_step E) w (map (\<lambda>raw. ReadFinished a (Inr raw)) raws) w'"
      "events w' = events w @ map (NewMessage a) [m0, m1, m2]"
    using user_streams_deliver [OF assms(1-4), of "[m0, m1, m2]"] by blast
  moreover have "multistreaming_receiver a small_msg0_to_qp2p0 small_msg1_to_qp2p0 big_msg_to_qp2p0 (events w') =
      Got (m2 = big_msg_to_qp2p0)"
    using receiver_outcome [OF assms(8) test_messages(5,6)] assms(5) w'(3) by simp
  ultimately show ?thesis by blast
qed

text \<open>The sending side of the test passes when it reads the one message sent to it.\<close>

theorem sender_passes:
  assumes "bincode_wire (msg_codec E)" and "connections w a = Some c" and "from_peer c = FpEstablished q []"
    and "to_peer c = TpEstablished crt tq" and "events w = [ConnectedTo (PeerNode (node_at a crt))]"
    and "1 \<le> count_list (stream_reads w) a" and "max_msg_size_allowed w = DEFAULT_MAX_ALLOWED_MSG_SIZE"
  shows "\<exists>raws w'. map (into_bytes (msg_codec E) \<circ> UserMsg) [msg_to_qp2p1] = map Inr raws \<and>
    steps (el_step E) w (map (\<lambda>raw. ReadFinished a (Inr raw)) raws) w' \<and>
    multistreaming_sender a msg_to_qp2p1 (events w') = Got True"
proof -
  have "(length m \<le> 1012 \<or> 1024 < length m) \<and> length m + 12 \<le> max_msg_size_allowed w" if "m \<in> set [msg_to_qp2p1]" for m
    using that test_messages(4) assms(7) unfolding DEFAULT_MAX_ALLOWED_MSG_SIZE_def by auto
  moreover have "length [msg_to_qp2p1] \<le> count_list (stream_reads w) a" using assms(6) by simp
  ultimately obtain raws w' where w':
      "map (into_bytes (msg_codec E) \<circ> UserMsg) [msg_to_qp2p1] = map Inr raws"
      "steps (el_step E) w (map (\<lambda>raw. ReadFinished a (Inr raw)) raws) w'"
      "events w' = events w @ map (NewMessage a) [msg_to_qp2p1]"
    using user_streams_deliver [OF assms(1-4), of "[msg_to_qp2p1]"] by blast
  moreover have "multistreaming_sender a msg_to_qp2p1 (events w') = Got True"
    using assms(5) w'(3) by (simp add: multistreaming_sender_def)
  ultimately show ?thesis by blast
qed

section \<open>The rest of the echo test\<close>

text \<open>
  The second instance has the first as its contact: it asks for its address twice,
  directly and for its connection info, and both have to agree and differ from the port of
  the first. \<open>answer\<close> and \<open>answer'\<close> are what the two queries receive.
\<close>

definition echo_service_second_instance ::
  "extern \<Rightarrow> sockets \<Rightarrow> nat \<Rightarrow> unit + socket_addr \<Rightarrow> nat \<Rightarrow> unit + socket_addr \<Rightarrow> ctx_cell \<Rightarrow> u16 \<Rightarrow> quic_p2p
    \<Rightarrow> panic + node_info \<times> quic_p2p" where
  "echo_service_second_instance E N ch answer ch' answer' cell qp2p0_port qp2p1 =
    bind_p (query_ip_echo_service E ch answer qp2p1) (\<lambda>(res, qp).
      case res of
        Inl _ \<Rightarrow> Inl UnwrapOnError
      | Inr addr \<Rightarrow>
          bind_p (our_connection_info E N ch' answer' cell qp) (\<lambda>(info, qp').
            case info of
              Inl _ \<Rightarrow> Inl UnwrapOnError
            | Inr qp2p1_info \<Rightarrow>
                if qp2p0_port \<noteq> port addr \<and> port addr = port (ni_peer_addr qp2p1_info)
                then Inr (qp2p1_info, qp') else Inl AssertionFailed))"

text \<open>The third instance sends to the second.\<close>

definition echo_service_data :: bytes where
  "echo_service_data = [12, 13, 14, 253]"

definition echo_service_send :: "extern \<Rightarrow> node_info \<Rightarrow> quic_p2p \<Rightarrow> quic_p2p" where
  "echo_service_send E qp2p1_info qp2p2 = send E (node_info_into_peer qp2p1_info) echo_service_data qp2p2"

text \<open>The last two events the test waits for, after it has drained the receiver\<close>

definition echo_service_exchange :: "node_info \<Rightarrow> bytes \<Rightarrow> event list \<Rightarrow> bool awaited" where
  "echo_service_exchange qp2p2_info data es =
    (case es of
       [] \<Rightarrow> Waiting
     | ConnectedTo p # es' \<Rightarrow>
         if p = PeerNode qp2p2_info
         then (case es' of
                 [] \<Rightarrow> Waiting
               | NewMessage b m # _ \<Rightarrow> Got (b = ni_peer_addr qp2p2_info \<and> m = data)
               | _ \<Rightarrow> Got False)
         else Got False
     | _ \<Rightarrow> Got False)"

lemma echo_recv_sent: "echo_recv ch w = Some (Inr b) \<Longrightarrow> (ch, b) \<in> set (echo_sent w)"
proof -
  assume "echo_recv ch w = Some (Inr b)"
  then obtain x xs where x: "filter (\<lambda>x. fst x = ch) (echo_sent w) = x # xs" "b = snd x"
    by (auto simp: echo_recv_def split: list.splits if_splits)
  then have "x \<in> set (filter (\<lambda>x. fst x = ch) (echo_sent w))" by simp
  then have "fst x = ch" "x \<in> set (echo_sent w)" unfolding set_filter by blast+
  then show "(ch, b) \<in> set (echo_sent w)" using x(2) by (cases x) simp
qed

text \<open>
  In a network in which the second instance hears only from members, the answers it gets
  make the test go on with its own address, provided that the first has another port.
\<close>

theorem echo_test_second_instance:
  assumes "bincode_wire C" and "\<And>y. msg_codec (E y) = C" and "net_reachable E n" and "members n x = Some w"
    and "addr_ok x" and "\<And>a raw. (x, ReadFinished a (Inr raw)) \<in> set (history n) \<Longrightarrow> members n a \<noteq> None"
    and "echo_recv ch w = Some answer" and "echo_recv ch' w = Some answer'" and "isl answer = False" and "isl answer' = False"
    and "cfg_hard_coded_contacts (qp_cfg qp) \<noteq> []" and "qp_us qp = None" and "qp2p0_port \<noteq> port x"
  shows "\<exists>qp'. echo_service_second_instance (E x) N ch answer ch' answer' (Some w) qp2p0_port qp =
    Inr (node_at x (cert_der (our_complete_cert w)), qp')"
proof -
  have own: "b = x" if "echo_recv c w = Some (Inr b)" for c b
    using qp2p_network.echo_answered [OF qp2p_network_intro [OF assms(1,2)] assms(3,4) echo_recv_sent [OF that] assms(5)]
      assms(6) by blast
  obtain b b' where b: "answer = Inr b" "answer' = Inr b'" using assms(9,10) by (cases answer; cases answer') auto
  then have "b = x" "b' = x" using own assms(7,8) by auto
  then show ?thesis
    using assms(11-13) b
    by (cases "cfg_hard_coded_contacts (qp_cfg qp)")
      (simp_all add: echo_service_second_instance_def query_ip_echo_service_def our_connection_info_def
        our_certificate_der_def el_post_to_def ctx_def bind_p_def Let_def)
qed

text \<open>
  The exchange at the end: if the next two events of the second instance are an announcement of
  the third one and a message from it, then they are the third's own certificate and the data
  its user sent, when that is all it sent to the second and the second's user did not name
  the third: the test connects only from the third to the second.
\<close>

theorem echo_test_exchange:
  assumes "bincode_wire C" and "\<And>y. msg_codec (E y) = C" and "net_reachable E n" and "members n x = Some w"
    and "members n z = Some wz" and "addr_ok x" and "length (cert_der (our_complete_cert wz)) \<le> 1008"
    and "events w = drained @ ConnectedTo (PeerNode (node_at z crt)) # NewMessage z m # later"
    and "\<And>u. (z, x, u) \<in> asked n \<Longrightarrow> u = echo_service_data"
    and "\<And>ni. ni \<in> named n x \<Longrightarrow> ni_peer_addr ni \<noteq> z"
  shows "echo_service_exchange (node_at z (cert_der (our_complete_cert wz))) echo_service_data
    (drop (length drained) (events w)) = Got True"
proof -
  have net: "qp2p_network C E" using assms(1,2) by (rule qp2p_network_intro)
  have "net_may_know C n x (node_at z crt)"
    using qp2p_network.reachable_flow [OF net assms(3,4)] assms(8) by (auto simp: flow_def net_rules_def net_verified_def)
  then have "crt = cert_der (our_complete_cert wz)"
    using qp2p_network.known_certificate [OF net _ assms(5,6)] assms(10) by fastforce
  moreover have "NewMessage z m \<in> set (events w)" using assms(8) by simp
  then obtain u where "(z, x, u) \<in> asked n" and m: "m = u \<or> 1012 < length u"
    using qp2p_network.delivered_origin [OF net assms(3,4) _ assms(5,7,6), of m] by blast
  then have "u = echo_service_data" using assms(9) by blast
  then have "m = echo_service_data" using m by (auto simp: echo_service_data_def)
  ultimately show ?thesis by (simp add: echo_service_exchange_def assms(8))
qed

end
