(* ===== verification/Rust_Text.thy ===== *)
theory Rust_Text
  imports Formatting
begin

text \<open>
  What the example programs use of Rust's strings: splitting a line into words,
  parsing an unsigned integer, and the conversion between strings and UTF-8. A
  string is the list of its Unicode scalar values.
\<close>

section \<open>Strings\<close>

type_synonym ustring = "nat list"

definition str :: "string \<Rightarrow> ustring" where
  "str s = map of_char s"

definition is_scalar :: "nat \<Rightarrow> bool" where
  "is_scalar c \<longleftrightarrow> c < 0xD800 \<or> 0xE000 \<le> c \<and> c < 0x110000"

text \<open>\<open>char::is_whitespace\<close>: the code points with the property \<open>White_Space\<close>.\<close>

definition is_whitespace :: "nat \<Rightarrow> bool" where
  "is_whitespace c \<longleftrightarrow>
    9 \<le> c \<and> c \<le> 13 \<or> c = 32 \<or> c = 0x85 \<or> c = 0xA0 \<or> c = 0x1680 \<or> 0x2000 \<le> c \<and> c \<le> 0x200A \<or>
    c = 0x2028 \<or> c = 0x2029 \<or> c = 0x202F \<or> c = 0x205F \<or> c = 0x3000"

fun split_words :: "ustring \<Rightarrow> ustring \<Rightarrow> ustring list" where
  "split_words cur [] = (if cur = [] then [] else [cur])"
| "split_words cur (c # cs) =
    (if is_whitespace c
     then (if cur = [] then split_words [] cs else cur # split_words [] cs)
     else split_words (cur @ [c]) cs)"

definition split_whitespace :: "ustring \<Rightarrow> ustring list" where
  "split_whitespace s = split_words [] s"

text \<open>\<open>join(" ")\<close>\<close>

fun join_space :: "ustring list \<Rightarrow> ustring" where
  "join_space [] = []"
| "join_space [w] = w"
| "join_space (w # ws) = w @ 32 # join_space ws"

section \<open>Unsigned integers\<close>

text \<open>
  \<open>FromStr\<close> of an unsigned type of \<open>w\<close> bits: an optional plus sign and at least
  one digit; multiplication and addition are checked, so an overflow is an error.
\<close>

fun parse_digits :: "nat \<Rightarrow> nat \<Rightarrow> ustring \<Rightarrow> nat option" where
  "parse_digits lim acc [] = Some acc"
| "parse_digits lim acc (c # cs) =
    (if 48 \<le> c \<and> c \<le> 57 then
       (let v = acc * 10
        in if lim \<le> v then None
           else let v' = v + (c - 48) in if lim \<le> v' then None else parse_digits lim v' cs)
     else None)"

definition parse_uint :: "nat \<Rightarrow> ustring \<Rightarrow> nat option" where
  "parse_uint w s =
    (case s of
       [] \<Rightarrow> None
     | c # cs \<Rightarrow>
         if c = 43 then (if cs = [] then None else parse_digits (2 ^ w) 0 cs)
         else parse_digits (2 ^ w) 0 s)"

definition is_digits :: "ustring \<Rightarrow> bool" where
  "is_digits s \<longleftrightarrow> s \<noteq> [] \<and> (\<forall>c \<in> set s. 48 \<le> c \<and> c \<le> 57)"

definition decimal :: "ustring \<Rightarrow> nat" where
  "decimal s = foldl (\<lambda>v c. v * 10 + (c - 48)) 0 s"

section \<open>UTF-8\<close>

definition encode_char :: "nat \<Rightarrow> bytes" where
  "encode_char c =
    map of_nat
     (if c < 0x80 then [c]
      else if c < 0x800 then [0xC0 + c div 64, 0x80 + c mod 64]
      else if c < 0x10000 then [0xE0 + c div 4096, 0x80 + c div 64 mod 64, 0x80 + c mod 64]
      else [0xF0 + c div 262144, 0x80 + c div 4096 mod 64, 0x80 + c div 64 mod 64, 0x80 + c mod 64])"

definition as_bytes :: "ustring \<Rightarrow> bytes" where
  "as_bytes s = concat (map encode_char s)"

definition is_cont :: "byte \<Rightarrow> bool" where
  "is_cont b \<longleftrightarrow> 0x80 \<le> unat b \<and> unat b \<le> 0xBF"

text \<open>
  \<open>String::from_utf8\<close>, with the ranges the standard library admits for the second
  byte: no overlong forms, no surrogates, nothing above \<open>0x10FFFF\<close>.
\<close>

definition second_ok :: "nat \<Rightarrow> byte \<Rightarrow> bool" where
  "second_ok n b \<longleftrightarrow> is_cont b \<and>
    (n = 0xE0 \<longrightarrow> 0xA0 \<le> unat b) \<and> (n = 0xED \<longrightarrow> unat b \<le> 0x9F) \<and>
    (n = 0xF0 \<longrightarrow> 0x90 \<le> unat b) \<and> (n = 0xF4 \<longrightarrow> unat b \<le> 0x8F)"

definition decode_char :: "bytes \<Rightarrow> (nat \<times> bytes) option" where
  "decode_char bs =
    (case bs of
       [] \<Rightarrow> None
     | b # bs1 \<Rightarrow>
         let n = unat b
         in if n < 0x80 then Some (n, bs1)
            else if 0xC2 \<le> n \<and> n \<le> 0xDF then
              (case bs1 of
                 b1 # r \<Rightarrow> if is_cont b1 then Some ((n - 0xC0) * 64 + (unat b1 - 0x80), r) else None
               | _ \<Rightarrow> None)
            else if 0xE0 \<le> n \<and> n \<le> 0xEF then
              (case bs1 of
                 b1 # b2 # r \<Rightarrow>
                   if second_ok n b1 \<and> is_cont b2
                   then Some ((n - 0xE0) * 4096 + (unat b1 - 0x80) * 64 + (unat b2 - 0x80), r) else None
               | _ \<Rightarrow> None)
            else if 0xF0 \<le> n \<and> n \<le> 0xF4 then
              (case bs1 of
                 b1 # b2 # b3 # r \<Rightarrow>
                   if second_ok n b1 \<and> is_cont b2 \<and> is_cont b3
                   then Some ((n - 0xF0) * 262144 + (unat b1 - 0x80) * 4096 + (unat b2 - 0x80) * 64
                              + (unat b3 - 0x80), r)
                   else None
               | _ \<Rightarrow> None)
            else None)"

lemma decode_char_shorter: "decode_char bs = Some (c, r) \<Longrightarrow> length r < length bs"
  by (auto simp: decode_char_def Let_def split: list.splits if_splits)

function from_utf8 :: "bytes \<Rightarrow> ustring option" where
  "from_utf8 bs =
    (if bs = [] then Some []
     else case decode_char bs of
            None \<Rightarrow> None
          | Some (c, r) \<Rightarrow> map_option ((#) c) (from_utf8 r))"
  by pat_completeness auto

termination
  by (relation "measure length") (auto dest: decode_char_shorter)

declare from_utf8.simps [simp del]

section \<open>Lemmas on words\<close>

lemma split_words_no_space:
  "\<forall>c \<in> set w. \<not> is_whitespace c \<Longrightarrow> split_words cur (w @ s) = split_words (cur @ w) s"
  by (induction w arbitrary: cur) auto

definition is_word :: "ustring \<Rightarrow> bool" where
  "is_word w \<longleftrightarrow> w \<noteq> [] \<and> (\<forall>c \<in> set w. \<not> is_whitespace c)"

lemma split_words_are_words:
  "\<forall>c \<in> set cur. \<not> is_whitespace c \<Longrightarrow> w \<in> set (split_words cur s) \<Longrightarrow> is_word w"
proof (induction s arbitrary: cur)
  case Nil
  then show ?case by (simp add: is_word_def split: if_split_asm)
next
  case (Cons c s)
  show ?case
  proof (cases "is_whitespace c")
    case True
    then show ?thesis using Cons.IH [of "[]"] Cons.prems by (auto simp: is_word_def split: if_split_asm)
  next
    case False
    then show ?thesis using Cons.IH [of "cur @ [c]"] Cons.prems by simp
  qed
qed

lemma split_whitespace_words: "w \<in> set (split_whitespace s) \<Longrightarrow> is_word w"
  unfolding split_whitespace_def by (rule split_words_are_words) simp_all

lemma split_whitespace_join:
  "\<forall>w \<in> set ws. is_word w \<Longrightarrow> split_whitespace (join_space ws) = ws"
proof (induction ws rule: join_space.induct)
  case (2 w)
  then show ?case
    using split_words_no_space [of w "[]" "[]"] by (simp add: split_whitespace_def is_word_def)
next
  case (3 w v vs)
  then show ?case
    using split_words_no_space [of w "[]" "32 # join_space (v # vs)"]
    by (simp add: split_whitespace_def is_word_def is_whitespace_def [of 32])
qed (simp add: split_whitespace_def)

lemma join_space_scalar:
  "\<forall>w \<in> set ws. \<forall>c \<in> set w. is_scalar c \<Longrightarrow> c \<in> set (join_space ws) \<Longrightarrow> is_scalar c"
  by (induction ws rule: join_space.induct) (auto simp: is_scalar_def [of 32])

section \<open>Lemmas on integers\<close>

lemma foldl_decimal_mono: "acc \<le> foldl (\<lambda>v c. v * 10 + (c - 48)) acc (s :: nat list)"
proof (induction s arbitrary: acc)
  case (Cons c s)
  show ?case using Cons.IH [of "acc * 10 + (c - 48)"] by simp
qed simp

lemma parse_digits_eq:
  assumes "acc < lim"
  shows "parse_digits lim acc s =
    (let v = foldl (\<lambda>v c. v * 10 + (c - 48)) acc s
     in if (\<forall>c \<in> set s. 48 \<le> c \<and> c \<le> 57) \<and> v < lim then Some v else None)"
  using assms
proof (induction s arbitrary: acc)
  case (Cons c s)
  let ?v = "acc * 10 + (c - 48)"
  have "?v \<le> foldl (\<lambda>v c. v * 10 + (c - 48)) ?v s" by (rule foldl_decimal_mono)
  then show ?case using Cons.IH [of ?v] by (auto simp: Let_def)
qed simp

text \<open>Parsing with overflow checks is reading the decimal number and comparing it with the bound.\<close>

lemma parse_uint_digits:
  "is_digits s \<Longrightarrow> parse_uint w s = (if decimal s < 2 ^ w then Some (decimal s) else None)"
  using parse_digits_eq [of 0 "2 ^ w" s]
  by (cases s) (auto simp: parse_uint_def is_digits_def decimal_def Let_def simp del: parse_digits.simps)

lemma parse_uint_plus:
  "is_digits s \<Longrightarrow> parse_uint w (43 # s) = parse_uint w s"
  by (auto simp: parse_uint_def is_digits_def split: list.splits)

lemma parse_uint_Some_iff:
  "parse_uint w s = Some n \<longleftrightarrow>
    (\<exists>ds. (s = ds \<or> s = 43 # ds) \<and> is_digits ds \<and> n = decimal ds \<and> n < 2 ^ w)"
  (is "_ \<longleftrightarrow> ?R")
proof
  assume "parse_uint w s = Some n"
  then obtain ds where ds: "s = ds \<or> s = 43 # ds" "ds \<noteq> []" "parse_digits (2 ^ w) 0 ds = Some n"
    by (auto simp: parse_uint_def split: list.splits if_splits)
  then show ?R
    by (auto simp: parse_digits_eq Let_def is_digits_def decimal_def split: if_splits)
next
  assume ?R
  then show "parse_uint w s = Some n" by (auto simp: parse_uint_plus parse_uint_digits)
qed

text \<open>The digits after an optional plus sign\<close>

definition unsigned_part :: "ustring \<Rightarrow> ustring" where
  "unsigned_part s = (case s of [] \<Rightarrow> [] | c # cs \<Rightarrow> if c = 43 then cs else s)"

lemma parse_uint_eq:
  "parse_uint w s =
    (if is_digits (unsigned_part s) \<and> decimal (unsigned_part s) < 2 ^ w
     then Some (decimal (unsigned_part s)) else None)"
proof (cases s)
  case (Cons c cs)
  have "\<not> is_digits (43 # cs)" by (simp add: is_digits_def)
  then show ?thesis
    using parse_uint_Some_iff [of w s] by (cases "parse_uint w s") (auto simp: Cons unsigned_part_def)
qed (simp add: parse_uint_def unsigned_part_def is_digits_def)

lemma digit_char: "n < 10 \<Longrightarrow> of_char (digit n) = (48 + n :: nat)"
  by (simp add: digit_def)

lemma fmt_nat_decimal: "is_digits (str (fmt_nat n)) \<and> decimal (str (fmt_nat n)) = n"
proof (induction n rule: fmt_nat.induct)
  case (1 n)
  show ?case
  proof (cases "n < 10")
    case True
    then show ?thesis by (simp add: fmt_nat.simps [of n] str_def is_digits_def decimal_def digit_char)
  next
    case False
    have "of_char (digit (n mod 10)) = (48 + n mod 10 :: nat)" by (simp add: digit_char)
    then show ?thesis
      using 1 [OF False] False
      by (auto simp: fmt_nat.simps [of n] str_def is_digits_def decimal_def)
  qed
qed

lemma parse_uint_fmt_nat: "n < 2 ^ w \<Longrightarrow> parse_uint w (str (fmt_nat n)) = Some n"
  using fmt_nat_decimal [of n] by (simp add: parse_uint_digits)

section \<open>Lemmas on UTF-8\<close>

lemma unat_byte: "n < 256 \<Longrightarrow> unat (of_nat n :: byte) = n"
  by (simp add: unat_of_nat)

lemma byte_unat: "n = unat b \<Longrightarrow> (of_nat n :: byte) = b"
  by simp

lemma mod_64_le: "(x :: nat) mod 64 \<le> 63"
  using mod_less_divisor [of 64 x] by linarith

lemma base64_digits:
  "(c div 64) * 64 + c mod 64 = (c :: nat)"
  "(c div 4096) * 4096 + (c div 64 mod 64) * 64 + c mod 64 = c"
  "(c div 262144) * 262144 + (c div 4096 mod 64) * 4096 + (c div 64 mod 64) * 64 + c mod 64 = c"
proof -
  have d: "c div 4096 = c div 64 div 64" "c div 262144 = c div 4096 div 64"
    by (simp_all add: div_mult2_eq [symmetric])
  note m = div_mult_mod_eq [of c 64] div_mult_mod_eq [of "c div 64" 64] div_mult_mod_eq [of "c div 4096" 64]
  show "(c div 64) * 64 + c mod 64 = c" using m by linarith
  show "(c div 4096) * 4096 + (c div 64 mod 64) * 64 + c mod 64 = c" using m d by linarith
  show "(c div 262144) * 262144 + (c div 4096 mod 64) * 4096 + (c div 64 mod 64) * 64 + c mod 64 = c"
    using m d by linarith
qed

lemma decode_encode_char:
  assumes "is_scalar c"
  shows "decode_char (encode_char c @ r) = Some (c, r)"
proof -
  have "c < 0x110000" using assms by (auto simp: is_scalar_def)
  then consider "c < 0x80" | "0x80 \<le> c" "c < 0x800" | "0x800 \<le> c" "c < 0x10000"
    | "0x10000 \<le> c" "c < 0x110000"
    by (meson not_less)
  then show ?thesis
  proof cases
    case 1
    then show ?thesis by (simp add: decode_char_def encode_char_def unat_byte Let_def)
  next
    case 2
    define b0 b1 where "b0 = (of_nat (0xC0 + c div 64) :: byte)" and "b1 = (of_nat (0x80 + c mod 64) :: byte)"
    then have e: "encode_char c = [b0, b1]" using 2 by (simp add: encode_char_def)
    have "c div 64 < 32" "2 \<le> c div 64" using 2 by auto
    moreover have "unat b0 = 0xC0 + c div 64" "unat b1 = 0x80 + c mod 64"
      using calculation unfolding b0_def b1_def by (intro unat_byte; simp)+
    ultimately show ?thesis
      using base64_digits(1) [of c] by (simp add: e decode_char_def is_cont_def Let_def)
  next
    case 3
    define b0 b1 b2 where "b0 = (of_nat (0xE0 + c div 4096) :: byte)"
      and "b1 = (of_nat (0x80 + c div 64 mod 64) :: byte)" and "b2 = (of_nat (0x80 + c mod 64) :: byte)"
    then have e: "encode_char c = [b0, b1, b2]" using 3 by (simp add: encode_char_def)
    have d: "c div 4096 = 0 \<Longrightarrow> 32 \<le> c div 64 mod 64" "c div 4096 = 13 \<Longrightarrow> c div 64 mod 64 \<le> 31"
      using 3 assms base64_digits(2) [of c] by (auto simp: is_scalar_def)
    have "c div 4096 < 16" using 3 by auto
    moreover have "unat b0 = 0xE0 + c div 4096" "unat b1 = 0x80 + c div 64 mod 64" "unat b2 = 0x80 + c mod 64"
      using calculation unfolding b0_def b1_def b2_def by (intro unat_byte; simp)+
    ultimately show ?thesis
      using base64_digits(2) [of c] d
      by (simp add: e decode_char_def is_cont_def second_ok_def Let_def mod_64_le)
  next
    case 4
    define b0 b1 b2 b3 where "b0 = (of_nat (0xF0 + c div 262144) :: byte)"
      and "b1 = (of_nat (0x80 + c div 4096 mod 64) :: byte)"
      and "b2 = (of_nat (0x80 + c div 64 mod 64) :: byte)" and "b3 = (of_nat (0x80 + c mod 64) :: byte)"
    then have e: "encode_char c = [b0, b1, b2, b3]" using 4 by (simp add: encode_char_def)
    have d: "c div 262144 = 0 \<Longrightarrow> 16 \<le> c div 4096 mod 64" "c div 262144 = 4 \<Longrightarrow> c div 4096 mod 64 \<le> 15"
      using 4 base64_digits(3) [of c] by auto
    have "c div 262144 \<le> 4" using 4 by auto
    moreover have "unat b0 = 0xF0 + c div 262144" "unat b1 = 0x80 + c div 4096 mod 64"
      "unat b2 = 0x80 + c div 64 mod 64" "unat b3 = 0x80 + c mod 64"
      using calculation unfolding b0_def b1_def b2_def b3_def by (intro unat_byte; simp)+
    ultimately show ?thesis
      using base64_digits(3) [of c] d
      by (simp add: e decode_char_def is_cont_def second_ok_def Let_def mod_64_le)
  qed
qed

text \<open>What is decoded is a scalar value, and encoding it gives the bytes back.\<close>

lemma base64_split: "b < 64 \<Longrightarrow> (a * 64 + b) div 64 = a \<and> (a * 64 + b) mod 64 = (b :: nat)"
  by simp

lemma encode_char_2:
  assumes "x < 32" and "2 \<le> x" and "y < 64"
  shows "encode_char (x * 64 + y) = [of_nat (0xC0 + x), of_nat (0x80 + y)]"
proof -
  have "(x * 64 + y) div 64 = x" "(x * 64 + y) mod 64 = y" using assms by auto
  then show ?thesis using assms by (simp add: encode_char_def)
qed

lemma encode_char_3:
  assumes "x < 16" and "y < 64" and "z < 64" and "x = 0 \<Longrightarrow> 32 \<le> y"
  shows "encode_char (x * 4096 + y * 64 + z) = [of_nat (0xE0 + x), of_nat (0x80 + y), of_nat (0x80 + z)]"
proof -
  let ?c = "x * 4096 + y * 64 + z"
  have c: "?c = (x * 64 + y) * 64 + z" by simp
  have q: "?c div 64 = x * 64 + y" "?c mod 64 = z"
    unfolding c using base64_split [OF assms(3), of "x * 64 + y"] by blast+
  then have "?c div 4096 = x" using assms(2) div_mult2_eq [of ?c 64 64] by simp
  moreover have "?c div 64 mod 64 = y" unfolding q using assms(2) by simp
  moreover have "0x800 \<le> ?c" using assms(4) by (cases "x = 0") auto
  ultimately show ?thesis using assms(1-3) q(2) by (simp add: encode_char_def)
qed

lemma encode_char_4:
  assumes "x \<le> 4" and "y < 64" and "z < 64" and "u < 64" and "x = 0 \<Longrightarrow> 16 \<le> y"
  shows "encode_char (x * 262144 + y * 4096 + z * 64 + u) =
    [of_nat (0xF0 + x), of_nat (0x80 + y), of_nat (0x80 + z), of_nat (0x80 + u)]"
proof -
  let ?c = "x * 262144 + y * 4096 + z * 64 + u"
  have c: "?c = (x * 4096 + y * 64 + z) * 64 + u" by simp
  have q: "?c div 64 = x * 4096 + y * 64 + z" "?c mod 64 = u"
    unfolding c using base64_split [OF assms(4), of "x * 4096 + y * 64 + z"] by blast+
  then have r: "?c div 4096 = x * 64 + y" using assms(3) div_mult2_eq [of ?c 64 64] by simp
  then have "?c div 262144 = x" using assms(2) div_mult2_eq [of ?c 4096 64] by simp
  moreover have "?c div 4096 mod 64 = y" unfolding r using assms(2) by simp
  moreover have "?c div 64 mod 64 = z"
  proof -
    have "x * 4096 + y * 64 + z = (x * 64 + y) * 64 + z" by simp
    then show ?thesis unfolding q using base64_split [OF assms(3), of "x * 64 + y"] by presburger
  qed
  moreover have "0x10000 \<le> ?c" using assms(5) by (cases "x = 0") auto
  ultimately show ?thesis using q(2) by (simp add: encode_char_def)
qed

lemma is_scalar_ranges:
  "x < 32 \<Longrightarrow> y < 64 \<Longrightarrow> is_scalar (x * 64 + y)"
  "x < 16 \<Longrightarrow> y < 64 \<Longrightarrow> z < 64 \<Longrightarrow> (x = 13 \<Longrightarrow> y < 32) \<Longrightarrow> is_scalar (x * 4096 + y * 64 + z)"
  "x \<le> 4 \<Longrightarrow> y < 64 \<Longrightarrow> z < 64 \<Longrightarrow> u < 64 \<Longrightarrow> (x = 0 \<Longrightarrow> 16 \<le> y) \<Longrightarrow> (x = 4 \<Longrightarrow> y < 16) \<Longrightarrow>
    is_scalar (x * 262144 + y * 4096 + z * 64 + u)"
proof -
  show "is_scalar (x * 64 + y)" if "x < 32" "y < 64" using that by (simp add: is_scalar_def)
  show "is_scalar (x * 4096 + y * 64 + z)" if "x < 16" "y < 64" "z < 64" "x = 13 \<Longrightarrow> y < 32"
    using that by (cases "x < 13"; cases "x = 13") (simp_all add: is_scalar_def)
  show "is_scalar (x * 262144 + y * 4096 + z * 64 + u)"
    if "x \<le> 4" "y < 64" "z < 64" "u < 64" "x = 0 \<Longrightarrow> 16 \<le> y" "x = 4 \<Longrightarrow> y < 16"
    using that by (cases "x = 0"; cases "x = 4") (simp_all add: is_scalar_def)
qed

lemma cont_bits: "is_cont b \<Longrightarrow> unat b - 0x80 < 64" "is_cont b \<Longrightarrow> 0x80 + (unat b - 0x80) = unat b"
  by (auto simp: is_cont_def)

lemma second_ok_cont: "second_ok n b \<Longrightarrow> is_cont b"
  by (simp add: second_ok_def)

lemma encode_decode_char:
  assumes "decode_char bs = Some (c, r)"
  shows "bs = encode_char c @ r \<and> is_scalar c"
proof -
  obtain b bs1 where bs: "bs = b # bs1" using assms by (cases bs) (auto simp: decode_char_def)
  let ?n = "unat b"
  consider "?n < 0x80" | "0xC2 \<le> ?n" "?n \<le> 0xDF" | "0xE0 \<le> ?n" "?n \<le> 0xEF" | "0xF0 \<le> ?n" "?n \<le> 0xF4"
    using assms by (auto simp: bs decode_char_def Let_def split: if_splits)
  then show ?thesis
  proof cases
    case 1
    then have "c = ?n" "r = bs1" using assms by (auto simp: bs decode_char_def Let_def)
    then show ?thesis using 1 by (simp add: bs encode_char_def is_scalar_def)
  next
    case 2
    then obtain b1 where b: "bs1 = b1 # r" "is_cont b1" "c = (?n - 0xC0) * 64 + (unat b1 - 0x80)"
      using assms by (auto simp: bs decode_char_def Let_def split: list.splits if_splits)
    have x: "?n - 0xC0 < 32" "2 \<le> ?n - 0xC0" "0xC0 + (?n - 0xC0) = ?n" using 2 by simp_all
    note y = cont_bits [OF b(2)]
    show ?thesis
      using encode_char_2 [OF x(1,2) y(1)] is_scalar_ranges(1) [OF x(1) y(1)]
      unfolding x(3) y(2) b(3) [symmetric] by (simp add: bs b(1))
  next
    case 3
    then obtain b1 b2 where b: "bs1 = b1 # b2 # r" "second_ok ?n b1" "is_cont b2"
        "c = (?n - 0xE0) * 4096 + (unat b1 - 0x80) * 64 + (unat b2 - 0x80)"
      using assms by (auto simp: bs decode_char_def Let_def split: list.splits if_splits)
    have x: "?n - 0xE0 < 16" "0xE0 + (?n - 0xE0) = ?n" using 3 by simp_all
    have s: "?n - 0xE0 = 0 \<Longrightarrow> 32 \<le> unat b1 - 0x80" "?n - 0xE0 = 13 \<Longrightarrow> unat b1 - 0x80 < 32"
      using 3 b(2) unfolding second_ok_def is_cont_def by linarith+
    note y = cont_bits [OF second_ok_cont [OF b(2)]] and z = cont_bits [OF b(3)]
    show ?thesis
      using encode_char_3 [OF x(1) y(1) z(1) s(1)] is_scalar_ranges(2) [OF x(1) y(1) z(1) s(2)]
      unfolding x(2) y(2) z(2) b(4) [symmetric] by (simp add: bs b(1))
  next
    case 4
    then obtain b1 b2 b3 where b: "bs1 = b1 # b2 # b3 # r" "second_ok ?n b1" "is_cont b2" "is_cont b3"
        "c = (?n - 0xF0) * 262144 + (unat b1 - 0x80) * 4096 + (unat b2 - 0x80) * 64 + (unat b3 - 0x80)"
      using assms by (auto simp: bs decode_char_def Let_def split: list.splits if_splits)
    have x: "?n - 0xF0 \<le> 4" "0xF0 + (?n - 0xF0) = ?n" using 4 by simp_all
    have s: "?n - 0xF0 = 0 \<Longrightarrow> 16 \<le> unat b1 - 0x80" "?n - 0xF0 = 4 \<Longrightarrow> unat b1 - 0x80 < 16"
      using 4 b(2) unfolding second_ok_def is_cont_def by linarith+
    note y = cont_bits [OF second_ok_cont [OF b(2)]] and z = cont_bits [OF b(3)] and u = cont_bits [OF b(4)]
    show ?thesis
      using encode_char_4 [OF x(1) y(1) z(1) u(1) s(1)] is_scalar_ranges(3) [OF x(1) y(1) z(1) u(1) s]
      unfolding x(2) y(2) z(2) u(2) b(5) [symmetric] by (simp add: bs b(1))
  qed
qed

lemma from_utf8_Nil [simp]: "from_utf8 [] = Some []"
  by (simp add: from_utf8.simps)

lemma from_utf8_encode:
  "is_scalar c \<Longrightarrow> from_utf8 (encode_char c @ bs) = map_option ((#) c) (from_utf8 bs)"
  using decode_encode_char [of c bs]
  by (subst from_utf8.simps) (auto simp: decode_char_def)

text \<open>
  Decoding inverts encoding and accepts nothing else: the valid byte sequences are
  exactly the encodings of strings.
\<close>

lemma from_utf8_as_bytes:
  "\<forall>c \<in> set s. is_scalar c \<Longrightarrow> from_utf8 (as_bytes s) = Some s"
  by (induction s) (simp_all add: as_bytes_def from_utf8_encode)

lemma from_utf8_Some:
  "from_utf8 bs = Some s \<Longrightarrow> as_bytes s = bs \<and> (\<forall>c \<in> set s. is_scalar c)"
proof (induction bs arbitrary: s rule: from_utf8.induct)
  case (1 bs)
  show ?case
  proof (cases "bs = []")
    case True
    then show ?thesis using "1.prems" by (simp add: as_bytes_def)
  next
    case False
    then obtain c r s' where d: "decode_char bs = Some (c, r)" "from_utf8 r = Some s'" "s = c # s'"
      using "1.prems" by (subst (asm) from_utf8.simps) (auto split: option.splits)
    then show ?thesis
      using "1.IH" [OF False d(1) refl d(2)] encode_decode_char [OF d(1)]
      by (simp add: as_bytes_def)
  qed
qed

lemma from_utf8_iff:
  "from_utf8 bs = Some s \<longleftrightarrow> as_bytes s = bs \<and> (\<forall>c \<in> set s. is_scalar c)"
  using from_utf8_Some from_utf8_as_bytes by blast

end
