(* ===== verification/Ip_Text.thy ===== *)
theory Ip_Text
  imports Rust_Text
begin

text \<open>
  \<open>str::parse::<IpAddr>\<close> of Rust's standard library, which the chat applies to the option
  \<open>--our-ip\<close>: an IPv4 address in dotted decimal, or an IPv6 address of eight groups, of which
  a run may be left out as \<open>::\<close> and the last two may be written as an IPv4 address.
\<close>

section \<open>Reading numbers\<close>

definition digit_value :: "nat \<Rightarrow> nat \<Rightarrow> nat option" where
  "digit_value radix c =
    (if 48 \<le> c \<and> c \<le> 57 then Some (c - 48)
     else if radix > 10 \<and> 97 \<le> c \<and> c < 97 + (radix - 10) then Some (c - 97 + 10)
     else if radix > 10 \<and> 65 \<le> c \<and> c < 65 + (radix - 10) then Some (c - 65 + 10)
     else None)"

text \<open>At most \<open>max_digits\<close> digits of a number below \<open>bound\<close>; \<open>r\<close> and \<open>k\<close> are the value and the count so far.\<close>

fun read_digits :: "nat \<Rightarrow> nat \<Rightarrow> nat \<Rightarrow> nat \<Rightarrow> nat \<Rightarrow> ustring \<Rightarrow> (nat \<times> ustring) option" where
  "read_digits radix max_digits bound r k [] = (if k = 0 then None else Some (r, []))"
| "read_digits radix max_digits bound r k (c # cs) =
    (case digit_value radix c of
       None \<Rightarrow> if k = 0 then None else Some (r, c # cs)
     | Some d \<Rightarrow>
         (let r' = r * radix + d
          in if Suc k > max_digits \<or> r' \<ge> bound then None else read_digits radix max_digits bound r' (Suc k) cs))"

definition read_number :: "nat \<Rightarrow> nat \<Rightarrow> nat \<Rightarrow> ustring \<Rightarrow> (nat \<times> ustring) option" where
  "read_number radix max_digits bound s = read_digits radix max_digits bound 0 0 s"

fun read_given_char :: "nat \<Rightarrow> ustring \<Rightarrow> ustring option" where
  "read_given_char c [] = None"
| "read_given_char c (d # s) = (if d = c then Some s else None)"

section \<open>Reading addresses\<close>

text \<open>The first of the \<open>n\<close> octets is read as it is, every other one after a dot.\<close>

fun read_octets :: "nat \<Rightarrow> bool \<Rightarrow> ustring \<Rightarrow> (nat list \<times> ustring) option" where
  "read_octets 0 first s = Some ([], s)"
| "read_octets (Suc n) first s =
    (case (if first then Some s else read_given_char 46 s) of
       None \<Rightarrow> None
     | Some s1 \<Rightarrow>
         (case read_number 10 3 0x100 s1 of
            None \<Rightarrow> None
          | Some (b, s2) \<Rightarrow>
              (case read_octets n False s2 of None \<Rightarrow> None | Some (bs, s3) \<Rightarrow> Some (b # bs, s3))))"

definition read_ipv4 :: "ustring \<Rightarrow> (nat list \<times> ustring) option" where
  "read_ipv4 s = read_octets 4 True s"

text \<open>
  Groups until \<open>limit\<close> of them are read or the next one is none: the groups, whether they
  end in an IPv4 address, and the rest.
\<close>

definition read_separated :: "nat \<Rightarrow> ustring \<Rightarrow> ustring option" where
  "read_separated i s = (if i = 0 then Some s else read_given_char 58 s)"

function read_groups :: "nat \<Rightarrow> nat \<Rightarrow> ustring \<Rightarrow> nat list \<times> bool \<times> ustring" where
  "read_groups limit i s =
    (if i < limit then
       (case (if i < limit - 1 then Option.bind (read_separated i s) read_ipv4 else None) of
          Some (bs, s1) \<Rightarrow> ([bs ! 0 * 256 + bs ! 1, bs ! 2 * 256 + bs ! 3], True, s1)
        | None \<Rightarrow>
            (case Option.bind (read_separated i s) (read_number 16 4 0x10000) of
               Some (g, s1) \<Rightarrow> (let (gs, v4, s2) = read_groups limit (Suc i) s1 in (g # gs, v4, s2))
             | None \<Rightarrow> ([], False, s)))
     else ([], False, s))"
  by pat_completeness auto

termination by (relation "measure (\<lambda>(limit, i, _). limit - i)") auto

declare read_groups.simps [simp del]

definition read_ipv6 :: "ustring \<Rightarrow> (nat list \<times> ustring) option" where
  "read_ipv6 s =
    (let (hd_groups, hd_v4, s1) = read_groups 8 0 s
     in if length hd_groups = 8 then Some (hd_groups, s1)
        else if hd_v4 then None
        else Option.bind (Option.bind (read_given_char 58 s1) (read_given_char 58)) (\<lambda>s2.
          let (tl_groups, _, s3) = read_groups (8 - length hd_groups) 0 s2
          in Some (hd_groups @ replicate (8 - length hd_groups - length tl_groups) 0 @ tl_groups, s3)))"

definition from_digits :: "nat \<Rightarrow> nat list \<Rightarrow> nat" where
  "from_digits b ds = foldl (\<lambda>v d. v * b + d) 0 ds"

definition parse_ip :: "ustring \<Rightarrow> ip_addr option" where
  "parse_ip s =
    (case read_ipv4 s of
       Some (bs, s1) \<Rightarrow> if s1 = [] then Some (V4 (of_nat (from_digits 256 bs))) else None
     | None \<Rightarrow>
         (case read_ipv6 s of
            Some (gs, s1) \<Rightarrow> if s1 = [] then Some (V6 (of_nat (from_digits 65536 gs))) else None
          | None \<Rightarrow> None))"

section \<open>Printing and parsing\<close>

text \<open>\<open>Display\<close> of an \<open>Ipv4Addr\<close>\<close>

definition octet :: "nat \<Rightarrow> u32 \<Rightarrow> nat" where
  "octet i a = unat a div 256 ^ (3 - i) mod 256"

definition fmt_ipv4 :: "u32 \<Rightarrow> ustring" where
  "fmt_ipv4 a = str (fmt_nat (octet 0 a) @ ''.'' @ fmt_nat (octet 1 a) @ ''.'' @ fmt_nat (octet 2 a) @ ''.'' @
     fmt_nat (octet 3 a))"

lemma read_digits_decimal:
  assumes "\<forall>c \<in> set ds. 48 \<le> c \<and> c \<le> 57" and "rest = [] \<or> digit_value 10 (hd rest) = None"
    and "k + length ds \<le> max_digits" and "foldl (\<lambda>v c. v * 10 + (c - 48)) r ds < bound" and "0 < k + length ds"
  shows "read_digits 10 max_digits bound r k (ds @ rest) = Some (foldl (\<lambda>v c. v * 10 + (c - 48)) r ds, rest)"
  using assms
proof (induction ds arbitrary: r k)
  case Nil
  then show ?case by (cases rest) simp_all
next
  case (Cons c ds)
  have "r * 10 + (c - 48) < bound"
    using Cons.prems(4) foldl_decimal_mono [of "r * 10 + (c - 48)" ds] by simp
  moreover have "digit_value 10 c = Some (c - 48)" using Cons.prems(1) by (simp add: digit_value_def)
  ultimately show ?case using Cons.IH [of "Suc k" "r * 10 + (c - 48)"] Cons.prems by simp
qed

lemma fmt_nat_length: "n < 256 \<Longrightarrow> length (fmt_nat n) \<le> 3"
  by (simp add: fmt_nat.simps [of n] fmt_nat.simps [of "n div 10"] fmt_nat.simps [of "n div 10 div 10"])

lemma read_number_fmt_nat:
  assumes "n < 256" and "rest = [] \<or> digit_value 10 (hd rest) = None"
  shows "read_number 10 3 256 (str (fmt_nat n) @ rest) = Some (n, rest)"
proof -
  have d: "is_digits (str (fmt_nat n))" "decimal (str (fmt_nat n)) = n" using fmt_nat_decimal by simp_all
  then have "foldl (\<lambda>v c. v * 10 + (c - 48)) 0 (str (fmt_nat n)) < 256" using assms(1) by (simp add: decimal_def)
  with d show ?thesis
    using read_digits_decimal [of "str (fmt_nat n)" rest 0 3 0 256] assms(2) fmt_nat_length [OF assms(1)]
    by (simp add: read_number_def is_digits_def decimal_def str_def)
qed

lemma octet_bound: "octet i a < 256"
  by (simp add: octet_def)

lemma from_octets: "from_digits 256 [octet 0 a, octet 1 a, octet 2 a, octet 3 a] = unat a"
proof -
  define n where "n = unat a"
  define n1 where "n1 = n div 256"
  define n2 where "n2 = n1 div 256"
  define n3 where "n3 = n2 div 256"
  have "n < 256 * 256 * 256 * 256" unfolding n_def using unsigned_less [of a] by simp
  then have "n3 < 256" by (simp add: n3_def n2_def n1_def less_mult_imp_div_less)
  moreover have "octet 0 a = n3 mod 256" "octet 1 a = n2 mod 256" "octet 2 a = n1 mod 256" "octet 3 a = n mod 256"
    by (simp_all add: octet_def n_def n1_def n2_def n3_def div_mult2_eq [symmetric])
  moreover have "n3 * 256 + n2 mod 256 = n2" "n2 * 256 + n1 mod 256 = n1" "n1 * 256 + n mod 256 = n"
    by (simp_all add: n1_def n2_def n3_def)
  ultimately show ?thesis by (simp add: from_digits_def n_def)
qed

theorem parse_fmt_ipv4: "parse_ip (fmt_ipv4 a) = Some (V4 a)"
proof -
  have four: "read_octets 4 = read_octets (Suc (Suc (Suc (Suc 0))))" by (simp add: eval_nat_numeral)
  have dot: "digit_value 10 46 = None" by (simp add: digit_value_def)
  have "fmt_ipv4 a = str (fmt_nat (octet 0 a)) @ 46 # str (fmt_nat (octet 1 a)) @ 46 # str (fmt_nat (octet 2 a)) @
      46 # str (fmt_nat (octet 3 a)) @ []"
    by (simp add: fmt_ipv4_def str_def)
  then have "read_ipv4 (fmt_ipv4 a) = Some ([octet 0 a, octet 1 a, octet 2 a, octet 3 a], [])"
    by (simp only: read_ipv4_def four) (simp add: read_number_fmt_nat octet_bound dot del: append_Nil2)
  then show ?thesis using from_octets [of a] by (simp add: parse_ip_def)
qed

end
