(* ===== verification/Bootstrap_Node.thy ===== *)
theory Bootstrap_Node
  imports Api_Calls "HOL-Library.Multiset"
begin

text \<open>
  The example \<open>examples/bootstrap\_node.rs\<close>: a node that collects the peers that
  connect to it and, once it has the expected number, sends all of them the list of
  contacts. The events of the library drive it; what it asks of the library is
  collected in \<open>bn_calls\<close>.
\<close>

section \<open>Data\<close>

text \<open>\<open>examples/common/mod.rs\<close>\<close>

datatype rpc = StartTest "peer list"

record bootstrap_node_config =
  bnc_ip :: u32
  bnc_port :: u16
  bnc_expected_conns :: nat

text \<open>\<open>impl Default for BootstrapNodeConfig\<close>: 127.0.0.1, port 5000, three connections\<close>

definition bootstrap_node_config_default :: bootstrap_node_config where
  "bootstrap_node_config_default = \<lparr>bnc_ip = 0x7F000001, bnc_port = 5000, bnc_expected_conns = 3\<rparr>"

datatype bn_log =
    LogTriggering nat
  | LogMoreThanExpected
  | LogUnexpectedEvent event

text \<open>
  The variables of \<open>main\<close> while it handles events. The \<open>HashMap\<close> of connected
  peers is an association list; the order in which Rust iterates over it is the
  argument \<open>iter\<close> of the functions below.
\<close>

record bootstrap_node =
  connected_peers :: "(socket_addr \<times> peer) list"
  test_triggered :: bool
  bn_calls :: "api_call list"
  bn_logs :: "bn_log list"

section \<open>Start-up\<close>

text \<open>
  \<open>handler\<close> is what the \<open>config_file_handler\<close> crate answers: an error making the
  handler, or the result of reading the file.
\<close>

definition bn_read_config ::
  "string + (string + bootstrap_node_config) \<Rightarrow> string + bootstrap_node_config" where
  "bn_read_config handler =
    (case handler of
       Inl e \<Rightarrow> Inl e
     | Inr read_file \<Rightarrow>
         Inr (case read_file of Inl _ \<Rightarrow> bootstrap_node_config_default | Inr cfg \<Rightarrow> cfg))"

definition bn_library_config :: "serialisable_certificate \<Rightarrow> bootstrap_node_config \<Rightarrow> config" where
  "bn_library_config own_cert cfg =
    config_default\<lparr>cfg_our_complete_cert := Some own_cert, cfg_port := Some (bnc_port cfg),
      cfg_ip := Some (V4 (bnc_ip cfg))\<rparr>"

text \<open>The handle, the contact the program prints, and the disk after building the handle.\<close>

definition bn_start ::
  "extern \<Rightarrow> sockets \<Rightarrow> config codec \<Rightarrow> project_dirs option \<Rightarrow> serialisable_certificate
    \<Rightarrow> serialisable_certificate \<Rightarrow> bootstrap_node_config \<Rightarrow> disk
    \<Rightarrow> panic + quic_p2p \<times> node_info \<times> disk" where
  "bn_start E N C dirs generated own_cert cfg d =
    (case build E N C dirs generated
            (with_config (bn_library_config own_cert cfg) builder_new) d of
       Inl p \<Rightarrow> Inl p
     | Inr (Inl e, _) \<Rightarrow> Inl UnwrapOnError
     | Inr (Inr qp2p, d') \<Rightarrow>
         Inr (qp2p,
              \<lparr>ni_peer_addr = SocketAddrV4 (bnc_ip cfg) (bnc_port cfg),
               ni_peer_cert_der = cert_der own_cert\<rparr>, d'))"

definition bn_initial :: bootstrap_node where
  "bn_initial = \<lparr>connected_peers = [], test_triggered = False, bn_calls = [], bn_logs = []\<rparr>"

section \<open>Events\<close>

definition bn_on_event ::
  "rpc codec \<Rightarrow> ((socket_addr \<times> peer) list \<Rightarrow> (socket_addr \<times> peer) list) \<Rightarrow> nat \<Rightarrow> event
    \<Rightarrow> bootstrap_node \<Rightarrow> panic + bootstrap_node" where
  "bn_on_event C iter expected_connections e s =
    (case e of
       ConnectedTo p \<Rightarrow>
         (case p of
            PeerClient _ \<Rightarrow> Inl OnlyNodePeersExpected
          | PeerNode ni \<Rightarrow>
              let s1 = s\<lparr>connected_peers := AList.update (ni_peer_addr ni) p (connected_peers s)\<rparr>;
                  len = length (connected_peers s1)
              in if len = expected_connections \<and> \<not> test_triggered s1 then
                   (let s2 = s1\<lparr>bn_logs := bn_logs s1 @ [LogTriggering expected_connections]\<rparr>;
                        contacts = map snd (iter (connected_peers s2))
                    in case serialize C (StartTest contacts) of
                         Inl _ \<Rightarrow> Inl UnwrapOnError
                       | Inr msg \<Rightarrow>
                           Inr (s2\<lparr>bn_calls := bn_calls s2 @ map (\<lambda>q. CallSend q msg) contacts,
                                   test_triggered := True\<rparr>))
                 else if len \<ge> expected_connections then
                   Inr (s1\<lparr>bn_logs := bn_logs s1 @ [LogMoreThanExpected]\<rparr>)
                 else Inr s1)
     | _ \<Rightarrow> Inr (s\<lparr>bn_logs := bn_logs s @ [LogUnexpectedEvent e]\<rparr>))"

text \<open>\<open>for event in ev_rx.iter()\<close>\<close>

definition bn_run ::
  "rpc codec \<Rightarrow> ((socket_addr \<times> peer) list \<Rightarrow> (socket_addr \<times> peer) list) \<Rightarrow> nat \<Rightarrow> event list
    \<Rightarrow> panic + bootstrap_node" where
  "bn_run C iter expected_connections es =
    fold_p (bn_on_event C iter expected_connections) es bn_initial"

section \<open>The announced peers\<close>

text \<open>What the events say about connected peers: the latest announcement of each address.\<close>

fun announce :: "event \<Rightarrow> (socket_addr \<rightharpoonup> peer) \<Rightarrow> (socket_addr \<rightharpoonup> peer)" where
  "announce (ConnectedTo p) m = m(peer_addr p \<mapsto> p)"
| "announce _ m = m"

definition announced :: "event list \<Rightarrow> socket_addr \<rightharpoonup> peer" where
  "announced es = fold announce es Map.empty"

lemma announced_Nil [simp]: "announced [] = Map.empty"
  by (simp add: announced_def)

lemma announced_snoc [simp]: "announced (es @ [e]) = announce e (announced es)"
  by (simp add: announced_def)

lemma bn_run_snoc:
  "bn_run C iter n (es @ [e]) = bind_p (bn_run C iter n es) (bn_on_event C iter n e)"
  by (simp add: bn_run_def fold_p_snoc)

text \<open>A table with distinct keys is its map, with as many entries as keys.\<close>

lemma distinct_keys_card: "distinct (map fst t) \<Longrightarrow> length t = card (dom (map_of t))"
  using distinct_card [of "map fst t"] by (simp add: dom_map_of_conv_image_fst)

lemma distinct_keys_ran: "distinct (map fst t) \<Longrightarrow> set (map snd t) = ran (map_of t)"
  by (simp add: ran_distinct)

text \<open>
  The invariant of the event loop of \<open>main\<close>: the table is what was announced, the
  test has been triggered exactly if enough peers were announced, and the calls made
  are those of the moment the number was reached.
\<close>

definition bn_sent ::
  "rpc codec \<Rightarrow> nat \<Rightarrow> event list \<Rightarrow> api_call list \<Rightarrow> bool" where
  "bn_sent C n es calls \<longleftrightarrow>
    (\<exists>pre post contacts msg. es = pre @ post \<and>
       card (dom (announced pre)) = n \<and> card (dom (announced (butlast pre))) < n \<and>
       set contacts = ran (announced pre) \<and> length contacts = n \<and>
       serialize C (StartTest contacts) = Inr msg \<and> calls = map (\<lambda>p. CallSend p msg) contacts)"

definition bn_inv :: "rpc codec \<Rightarrow> nat \<Rightarrow> event list \<Rightarrow> bootstrap_node \<Rightarrow> bool" where
  "bn_inv C n es s \<longleftrightarrow>
    distinct (map fst (connected_peers s)) \<and> map_of (connected_peers s) = announced es \<and>
    (test_triggered s \<longleftrightarrow> 0 < n \<and> n \<le> card (dom (announced es))) \<and>
    (if test_triggered s then bn_sent C n es (bn_calls s) else bn_calls s = [])"

lemma bn_sent_snoc: "bn_sent C n es calls \<Longrightarrow> bn_sent C n (es @ [e]) calls"
  unfolding bn_sent_def by (metis append.assoc)

lemma bn_inv_skip:
  assumes "bn_inv C n es s" and "announced (es @ [e]) = announced es"
    and "connected_peers s' = connected_peers s" "test_triggered s' = test_triggered s" "bn_calls s' = bn_calls s"
  shows "bn_inv C n (es @ [e]) s'"
  using assms bn_sent_snoc [of C n es "bn_calls s" e] by (auto simp: bn_inv_def simp del: announced_snoc)

lemma card_dom_upd: "finite (dom m) \<Longrightarrow> card (dom (m(a \<mapsto> p))) = (if a \<in> dom m then card (dom m) else Suc (card (dom m)))"
  by (simp add: insert_absorb)

lemma bn_inv_step:
  assumes iter: "\<And>t. mset (iter t) = mset t"
    and inv: "bn_inv C n es s" and step: "bn_on_event C iter n e s = Inr s'"
  shows "bn_inv C n (es @ [e]) s'"
proof (cases "\<exists>ni. e = ConnectedTo (PeerNode ni)")
  case False
  then have "connected_peers s' = connected_peers s" "test_triggered s' = test_triggered s"
      "bn_calls s' = bn_calls s" "announce e (announced es) = announced es"
    using step by (auto simp: bn_on_event_def split: event.splits peer.splits)
  then show ?thesis using inv by (auto intro: bn_inv_skip)
next
  case True
  then obtain ni where e: "e = ConnectedTo (PeerNode ni)" by blast
  let ?t = "AList.update (ni_peer_addr ni) (PeerNode ni) (connected_peers s)"
  let ?m = "announced (es @ [e])"
  have d: "distinct (map fst ?t)" and m: "map_of ?t = ?m"
    using inv by (auto simp: bn_inv_def e update_conv' intro: distinct_update)
  have len: "length ?t = card (dom ?m)" using distinct_keys_card [OF d] unfolding m .
  have fin: "finite (dom (announced es))" using inv unfolding bn_inv_def by (metis finite_dom_map_of)
  have grow: "card (dom ?m) = card (dom (announced es)) \<or> card (dom ?m) = Suc (card (dom (announced es)))"
    using card_dom_upd [OF fin, of "ni_peer_addr ni" "PeerNode ni"] by (auto simp: e)
  show ?thesis
  proof (cases "length ?t = n \<and> \<not> test_triggered s")
    case trig: True
    let ?cs = "map snd (iter ?t)"
    obtain msg where s': "serialize C (StartTest ?cs) = Inr msg" "test_triggered s'" "connected_peers s' = ?t"
        "bn_calls s' = bn_calls s @ map (\<lambda>q. CallSend q msg) ?cs"
      using step trig by (auto simp: bn_on_event_def e Let_def split: sum.splits)
    have old: "card (dom (announced es)) < n" "bn_calls s = []" "0 < n"
      using inv trig len grow by (auto simp: bn_inv_def)
    have "set ?cs = ran ?m"
      using distinct_keys_ran [OF d] mset_eq_setD [OF iter [of ?t]] unfolding m by simp
    moreover have "length ?cs = n" using trig size_mset [of "iter ?t"] iter [of ?t] by simp
    ultimately have "bn_sent C n (es @ [e]) (bn_calls s')"
      unfolding bn_sent_def using s' old len trig
      by (intro exI [of _ "es @ [e]"] exI [of _ "[]"] exI [of _ ?cs] exI [of _ msg]) auto
    then show ?thesis using s'(2,3) d m old len trig by (simp add: bn_inv_def del: announced_snoc)
  next
    case no: False
    then have s': "test_triggered s' = test_triggered s" "connected_peers s' = ?t" "bn_calls s' = bn_calls s"
      using step by (auto simp: bn_on_event_def e Let_def split: if_splits)
    have "test_triggered s \<longleftrightarrow> 0 < n \<and> n \<le> card (dom ?m)"
      using inv no len grow by (auto simp: bn_inv_def)
    then show ?thesis
      using inv s' d m bn_sent_snoc [of C n es "bn_calls s" e] by (auto simp: bn_inv_def simp del: announced_snoc)
  qed
qed

lemma bn_run_inv:
  assumes "\<And>t. mset (iter t) = mset t" and "bn_run C iter n es = Inr s"
  shows "bn_inv C n es s"
  using assms(2)
proof (induction es arbitrary: s rule: rev_induct)
  case Nil
  then show ?case by (auto simp: bn_run_def bn_initial_def bn_inv_def)
next
  case (snoc e es)
  then show ?case using bn_inv_step [OF assms(1)] by (auto simp: bn_run_snoc bind_p_Inr_conv)
qed

text \<open>It panics exactly when a client is announced, as long as contacts can be serialised.\<close>

lemma bn_run_returns:
  assumes "\<And>ps. \<exists>msg. serialize C (StartTest ps) = Inr msg"
    and "\<And>a. ConnectedTo (PeerClient a) \<notin> set es"
  shows "\<exists>s. bn_run C iter n es = Inr s"
  using assms(2)
proof (induction es rule: rev_induct)
  case Nil
  then show ?case by (simp add: bn_run_def)
next
  case (snoc e es)
  then obtain s where "bn_run C iter n es = Inr s" by auto
  moreover have "\<exists>s'. bn_on_event C iter n e s = Inr s'"
    using snoc.prems assms(1) [of "map snd (iter (AList.update a p t))" for a p t]
    by (cases e) (auto simp: bn_on_event_def Let_def split: peer.splits sum.splits, metis sum.distinct(1))
  ultimately show ?case by (simp add: bn_run_snoc)
qed

text \<open>The log is only written, so what it holds does not matter.\<close>

lemma bn_on_event_logs:
  "bn_on_event C iter n e (s\<lparr>bn_logs := l\<rparr>) =
    bind_p (bn_on_event C iter n e s)
      (\<lambda>s'. Inr (s'\<lparr>bn_logs := l @ drop (length (bn_logs s)) (bn_logs s')\<rparr>))"
  by (cases s) (simp add: bn_on_event_def Let_def bind_p_def split: event.split peer.split sum.split)

lemma bn_fold_logs:
  "bind_p (fold_p (bn_on_event C iter n) es (s\<lparr>bn_logs := l\<rparr>)) (\<lambda>s. Inr (connected_peers s, bn_calls s)) =
   bind_p (fold_p (bn_on_event C iter n) es s) (\<lambda>s. Inr (connected_peers s, bn_calls s))"
proof (induction es arbitrary: s l)
  case (Cons e es)
  then show ?case by (cases "bn_on_event C iter n e s") (simp_all add: bn_on_event_logs)
qed simp

text \<open>Who was announced, and that only nodes were if the program did not panic\<close>

lemma ran_announced: "ran (announced es) \<subseteq> {p. ConnectedTo p \<in> set es}"
proof (induction es rule: rev_induct)
  case (snoc e es)
  then show ?case by (cases e) (auto dest: ran_map_upd_Some simp: ran_def split: if_splits)
qed simp

lemma bn_run_nodes_only:
  assumes "bn_run C iter n es = Inr s" and "ConnectedTo p \<in> set es"
  shows "\<exists>ni. p = PeerNode ni"
  using assms
proof (induction es arbitrary: s rule: rev_induct)
  case (snoc e es)
  then obtain s1 where s1: "bn_run C iter n es = Inr s1" "bn_on_event C iter n e s1 = Inr s"
    by (auto simp: bn_run_snoc bind_p_Inr_conv)
  then show ?case
    using snoc.IH [OF s1(1)] snoc.prems(2) by (cases p) (auto simp: bn_on_event_def)
qed (simp add: bn_run_def)

end
