(* ===== verification/Client_Node.thy ===== *)
theory Client_Node
  imports Bootstrap_Node
begin

unbundle bit_operations_syntax

text \<open>
  The example \<open>examples/client\_node.rs\<close>: a node that contacts the bootstrap node,
  receives the contacts of the other nodes from it, connects to them and exchanges
  one large and one small message with each. The crate \<open>crc\<close> is the argument
  \<open>crc\<close>, the random generator the argument \<open>rng\<close>.
\<close>

section \<open>Data\<close>

definition LARGE_MSG_SIZE :: nat where
  "LARGE_MSG_SIZE = 20 * 1024 * 1024"

definition SMALL_MSG_SIZE :: nat where
  "SMALL_MSG_SIZE = 16 * 1024"

datatype cn_log =
    LogConnectedBootstrap
  | LogLargeBeforeSmall socket_addr
  | LogSmallTwice socket_addr
  | LogDone
  | LogUnexpected event

text \<open>
  \<open>ClientNode\<close>; the handle is represented by the calls made on it. The two counters are
  \<open>usize\<close> in the code: they count messages and connections and are kept as numbers without a bound.
\<close>

record client_node =
  cn_bootstrap_node_info :: node_info
  client_nodes :: "node_info list"
  our_ci :: node_info
  sent_messages :: nat
  received_messages :: nat
  large_msg :: bytes
  small_msg :: bytes
  peer_states :: "socket_addr \<rightharpoonup> bool"
  cn_calls :: "api_call list"
  cn_logs :: "cn_log list"

section \<open>Messages with a checksum\<close>

definition random_vec :: "(nat \<Rightarrow> bytes) \<Rightarrow> nat \<Rightarrow> bytes" where
  "random_vec rng sz = rng sz"

text \<open>The hash of the rest, in big endian, in the first four bytes\<close>

definition random_data_with_hash :: "(bytes \<Rightarrow> u32) \<Rightarrow> (nat \<Rightarrow> bytes) \<Rightarrow> nat \<Rightarrow> bytes" where
  "random_data_with_hash crc rng sz =
    (let data = random_vec rng (sz + 4);
         hash = crc (drop 4 data)
     in data[0 := ucast (drop_bit 24 hash), 1 := ucast (drop_bit 16 hash AND 0xff),
             2 := ucast (drop_bit 8 hash AND 0xff), 3 := ucast (hash AND 0xff)])"

text \<open>Indexing panics when there are fewer than four bytes.\<close>

definition hash_correct :: "(bytes \<Rightarrow> u32) \<Rightarrow> bytes \<Rightarrow> panic + bool" where
  "hash_correct crc data =
    (if length data < 4 then Inl IndexOutOfBounds
     else let encoded_hash = push_bit 24 (ucast (data ! 0)) OR push_bit 16 (ucast (data ! 1))
                OR push_bit 8 (ucast (data ! 2)) OR ucast (data ! 3);
              actual_hash = crc (drop 4 data)
          in Inr (encoded_hash = actual_hash))"

section \<open>Start-up\<close>

definition cn_library_config :: "node_info \<Rightarrow> config" where
  "cn_library_config bootstrap_info =
    config_default\<lparr>cfg_port := Some 0, cfg_hard_coded_contacts := [bootstrap_info],
      cfg_idle_timeout_msec := Some 0\<rparr>"

text \<open>
  \<open>parse_cli_args\<close>: \<open>val\<close> is what \<open>clap\<close> found for the option and \<open>from_json\<close>
  is \<open>serde_json\<close>; the error makes \<open>main\<close> exit.
\<close>

datatype cli_error = MissingRequiredArgument

definition cn_parse_cli_args ::
  "(string \<Rightarrow> string + node_info) \<Rightarrow> string option \<Rightarrow> panic + (cli_error + node_info)" where
  "cn_parse_cli_args from_json val =
    (case val of
       None \<Rightarrow> Inr (Inl MissingRequiredArgument)
     | Some str_info \<Rightarrow>
         (case from_json str_info of Inl _ \<Rightarrow> Inl UnwrapOnError | Inr info \<Rightarrow> Inr (Inr info)))"

text \<open>
  \<open>ClientNode::new\<close>: \<open>ch\<close>, \<open>answer\<close> and \<open>cell\<close> are the channel and the answer of
  the echo service and the context, as \<open>our_connection_info\<close> takes them.
\<close>

definition client_node_new ::
  "extern \<Rightarrow> sockets \<Rightarrow> config codec \<Rightarrow> project_dirs option \<Rightarrow> serialisable_certificate
    \<Rightarrow> (bytes \<Rightarrow> u32) \<Rightarrow> (nat \<Rightarrow> bytes) \<Rightarrow> (nat \<Rightarrow> bytes) \<Rightarrow> nat \<Rightarrow> unit + socket_addr \<Rightarrow> ctx_cell
    \<Rightarrow> node_info \<Rightarrow> disk \<Rightarrow> panic + client_node \<times> quic_p2p \<times> disk" where
  "client_node_new E N C dirs generated crc rng1 rng2 ch answer cell bootstrap_info d =
    bind_p (build E N C dirs generated (with_config (cn_library_config bootstrap_info) builder_new) d)
      (\<lambda>(built, d').
    bind_p (unwrap_p built) (\<lambda>qp2p.
    let large = random_data_with_hash crc rng1 LARGE_MSG_SIZE
    in bind_p (bind_p (hash_correct crc large) assert_p) (\<lambda>_.
    let small = random_data_with_hash crc rng2 SMALL_MSG_SIZE
    in bind_p (bind_p (hash_correct crc small) assert_p) (\<lambda>_.
    bind_p (our_connection_info E N ch answer cell qp2p) (\<lambda>(info, qp2p').
    bind_p (unwrap_p info) (\<lambda>ci.
      Inr (\<lparr>cn_bootstrap_node_info = bootstrap_info, client_nodes = [], our_ci = ci,
            sent_messages = 0, received_messages = 0, large_msg = large, small_msg = small,
            peer_states = Map.empty, cn_calls = [], cn_logs = []\<rparr>, qp2p', d')))))))"

section \<open>Events\<close>

definition cn_call :: "api_call \<Rightarrow> client_node \<Rightarrow> client_node" where
  "cn_call c s = s\<lparr>cn_calls := cn_calls s @ [c]\<rparr>"

definition cn_log :: "cn_log \<Rightarrow> client_node \<Rightarrow> client_node" where
  "cn_log l s = s\<lparr>cn_logs := cn_logs s @ [l]\<rparr>"

definition on_connect :: "peer \<Rightarrow> client_node \<Rightarrow> panic + client_node" where
  "on_connect p s =
    (case p of
       PeerClient _ \<Rightarrow> Inl OnlyNodePeersExpected
     | PeerNode peer_info \<Rightarrow>
         if peer_info = cn_bootstrap_node_info s then Inr (cn_log LogConnectedBootstrap s)
         else if peer_info \<in> set (client_nodes s) then
           (let s1 = cn_call (CallSend p (large_msg s)) s;
                s2 = cn_call (CallSend p (small_msg s1)) s1
            in Inr (s2\<lparr>sent_messages := sent_messages s2 + 1\<rparr>))
         else Inr s)"

definition response_from_bootstrap_node :: "socket_addr \<Rightarrow> client_node \<Rightarrow> bool" where
  "response_from_bootstrap_node a s \<longleftrightarrow> a = ni_peer_addr (cn_bootstrap_node_info s)"

text \<open>One round of the loop of \<open>connect_to_peers\<close>, and the loop\<close>

definition connect_to_one :: "peer \<Rightarrow> client_node \<Rightarrow> panic + client_node" where
  "connect_to_one p s =
    (case p of
       PeerClient _ \<Rightarrow> Inl OnlyNodePeersExpected
     | PeerNode conn_info \<Rightarrow>
         if conn_info \<noteq> our_ci s then
           (let s1 = cn_call (CallConnectTo conn_info) s
            in Inr (s1\<lparr>client_nodes := List.insert conn_info (client_nodes s1)\<rparr>))
         else Inr s)"

definition connect_to_peers :: "peer list \<Rightarrow> client_node \<Rightarrow> panic + client_node" where
  "connect_to_peers ps s = fold_p connect_to_one ps s"

text \<open>The branches for a message of another node, after the checksum was found correct\<close>

definition count_message :: "socket_addr \<Rightarrow> bool \<Rightarrow> nat \<Rightarrow> client_node \<Rightarrow> client_node" where
  "count_message a small_msg_rcvd payload_size s =
    (if payload_size = LARGE_MSG_SIZE then
       (if \<not> small_msg_rcvd then cn_log (LogLargeBeforeSmall a) s
        else
          let s1 = s\<lparr>received_messages := received_messages s + 1\<rparr>
          in if received_messages s1 = length (client_nodes s1) \<and>
                sent_messages s1 = length (client_nodes s1)
             then cn_log LogDone s1 else s1)
     else if payload_size = SMALL_MSG_SIZE then
       (let s1 = (if small_msg_rcvd then cn_log (LogSmallTwice a) s else s)
        in s1\<lparr>peer_states := (peer_states s1)(a \<mapsto> True)\<rparr>)
     else s)"

definition on_msg_receive ::
  "(bytes \<Rightarrow> u32) \<Rightarrow> rpc codec \<Rightarrow> socket_addr \<Rightarrow> bytes \<Rightarrow> client_node \<Rightarrow> panic + client_node" where
  "on_msg_receive crc C a msg s =
    (if response_from_bootstrap_node a s then
       (case deserialize C msg of
          Inl _ \<Rightarrow> Inl UnwrapOnError
        | Inr (StartTest ps) \<Rightarrow> connect_to_peers ps s)
     else
       let small_msg_rcvd = (case peer_states s a of Some b \<Rightarrow> b | None \<Rightarrow> False);
           s1 = s\<lparr>peer_states := (peer_states s)(a \<mapsto> small_msg_rcvd)\<rparr>
       in bind_p (bind_p (hash_correct crc msg) assert_p)
            (\<lambda>_. Inr (count_message a small_msg_rcvd (length msg - 4) s1)))"

definition cn_on_event ::
  "(bytes \<Rightarrow> u32) \<Rightarrow> rpc codec \<Rightarrow> event \<Rightarrow> client_node \<Rightarrow> panic + client_node" where
  "cn_on_event crc C e s =
    (case e of
       ConnectedTo p \<Rightarrow> on_connect p s
     | NewMessage a msg \<Rightarrow> on_msg_receive crc C a msg s
     | _ \<Rightarrow> Inr (cn_log (LogUnexpected e) s))"

definition poll_qp2p_events ::
  "(bytes \<Rightarrow> u32) \<Rightarrow> rpc codec \<Rightarrow> event list \<Rightarrow> client_node \<Rightarrow> panic + client_node" where
  "poll_qp2p_events crc C es s = fold_p (cn_on_event crc C) es s"

text \<open>\<open>ClientNode::run\<close>: a dummy message makes the library connect to the bootstrap node.\<close>

definition cn_run ::
  "(bytes \<Rightarrow> u32) \<Rightarrow> rpc codec \<Rightarrow> event list \<Rightarrow> client_node \<Rightarrow> panic + client_node" where
  "cn_run crc C es s =
    poll_qp2p_events crc C es (cn_call (CallSend (PeerNode (cn_bootstrap_node_info s)) [1, 2, 3]) s)"

section \<open>Checksums\<close>

text \<open>The four bytes read as a number, most significant first\<close>

definition be_value :: "bytes \<Rightarrow> nat" where
  "be_value bs = foldl (\<lambda>v b. v * 256 + unat b) 0 bs"

lemma bit_byteD: "bit (b :: byte) n \<Longrightarrow> n < 8"
  using bit_imp_le_length [of b n] by simp

lemma ucast_and_ff: "(ucast (x AND 0xff) :: byte) = ucast (x :: u32)"
proof -
  have ff: "(0xff :: u32) = mask 8" by (simp add: mask_eq_exp_minus_1)
  show ?thesis unfolding ff by (auto intro!: bit_word_eqI simp: bit_simps)
qed

text \<open>Bytes that do not overlap: \<open>OR\<close> adds\<close>

lemma or_shifted_bytes:
  fixes b0 b1 b2 b3 :: byte
  shows "(push_bit 8 (ucast b2) OR ucast b3 :: u32) = push_bit 8 (ucast b2) + ucast b3"
    and "(push_bit 16 (ucast b1) OR (push_bit 8 (ucast b2) OR ucast b3) :: u32) =
      push_bit 16 (ucast b1) + (push_bit 8 (ucast b2) OR ucast b3)"
    and "(push_bit 24 (ucast b0) OR (push_bit 16 (ucast b1) OR (push_bit 8 (ucast b2) OR ucast b3)) :: u32) =
      push_bit 24 (ucast b0) + (push_bit 16 (ucast b1) OR (push_bit 8 (ucast b2) OR ucast b3))"
  by (rule disjunctive_add [symmetric]; force simp: bit_simps dest: bit_byteD)+

lemma be_bytes_word:
  fixes b0 b1 b2 b3 :: byte
  shows "(push_bit 24 (ucast b0) OR push_bit 16 (ucast b1) OR push_bit 8 (ucast b2) OR ucast b3 :: u32)
    = of_nat (be_value [b0, b1, b2, b3])"
proof -
  note a = or_shifted_bytes(1) and b = or_shifted_bytes(2) [unfolded or_shifted_bytes(1)]
  note c = or_shifted_bytes(3) [unfolded a b]
  show ?thesis unfolding or.assoc a b c by (simp add: be_value_def push_bit_eq_mult)
qed

lemma word_of_be_bytes:
  fixes h :: u32
  shows "push_bit 24 (ucast (ucast (drop_bit 24 h) :: byte)) OR
    push_bit 16 (ucast (ucast (drop_bit 16 h) :: byte)) OR
    push_bit 8 (ucast (ucast (drop_bit 8 h) :: byte)) OR ucast (ucast h :: byte) = h"
proof (rule bit_word_eqI)
  fix n assume "n < LENGTH(32)"
  then have "n < 32" by simp
  then consider "n < 8" | "8 \<le> n" "n < 16" | "16 \<le> n" "n < 24" | "24 \<le> n" "n < 32"
    by (meson not_less)
  then show "bit (push_bit 24 (ucast (ucast (drop_bit 24 h) :: byte)) OR
      push_bit 16 (ucast (ucast (drop_bit 16 h) :: byte)) OR
      push_bit 8 (ucast (ucast (drop_bit 8 h) :: byte)) OR ucast (ucast h :: byte) :: u32) n
    = bit h n"
    by cases (auto simp: bit_simps)
qed

lemma hash_correct_be_value:
  assumes "4 \<le> length d"
  shows "hash_correct crc d = Inr (of_nat (be_value (take 4 d)) = crc (drop 4 d))"
proof -
  obtain b0 b1 b2 b3 r where d: "d = [b0, b1, b2, b3] @ r"
    using assms by (auto simp: numeral_eq_Suc Suc_le_length_iff)
  have "be_value (take 4 d) = be_value [b0, b1, b2, b3]" by (simp add: d)
  then show ?thesis using assms be_bytes_word [of b0 b1 b2 b3] by (simp add: d hash_correct_def Let_def)
qed

lemma random_data_with_hash_correct:
  assumes "\<And>n. length (rng n) = n"
  shows "hash_correct crc (random_data_with_hash crc rng sz) = Inr True"
    and "length (random_data_with_hash crc rng sz) = sz + 4"
proof -
  show len: "length (random_data_with_hash crc rng sz) = sz + 4"
    by (simp add: random_data_with_hash_def random_vec_def assms Let_def)
  have rest: "drop 4 (random_data_with_hash crc rng sz) = drop 4 (rng (sz + 4))"
    by (simp add: random_data_with_hash_def random_vec_def Let_def)
  show "hash_correct crc (random_data_with_hash crc rng sz) = Inr True"
    using word_of_be_bytes [of "crc (drop 4 (rng (sz + 4)))"] assms [of "sz + 4"] rest len
    by (simp add: hash_correct_def Let_def)
      (simp add: random_data_with_hash_def random_vec_def Let_def ucast_and_ff)
qed

section \<open>Contacts\<close>

lemma connect_to_peers_nodes:
  "\<exists>s'. connect_to_peers (map PeerNode nis) s = Inr s' \<and>
    set (client_nodes s') = set (client_nodes s) \<union> (set nis - {our_ci s}) \<and>
    cn_calls s' = cn_calls s @ map CallConnectTo (filter (\<lambda>ni. ni \<noteq> our_ci s) nis)"
  unfolding connect_to_peers_def
proof (induction nis arbitrary: s)
  case (Cons ni nis)
  let ?s1 = "if ni = our_ci s then s
    else s\<lparr>cn_calls := cn_calls s @ [CallConnectTo ni], client_nodes := List.insert ni (client_nodes s)\<rparr>"
  have "connect_to_one (PeerNode ni) s = Inr ?s1" by (simp add: connect_to_one_def cn_call_def Let_def)
  moreover obtain s' where "fold_p connect_to_one (map PeerNode nis) ?s1 = Inr s'"
      "set (client_nodes s') = set (client_nodes ?s1) \<union> (set nis - {our_ci ?s1})"
      "cn_calls s' = cn_calls ?s1 @ map CallConnectTo (filter (\<lambda>ni. ni \<noteq> our_ci ?s1) nis)"
    using Cons.IH [of ?s1] by blast
  ultimately show ?case by (intro exI [of _ s']) auto
qed simp

lemma connect_to_one_adds:
  assumes "connect_to_one q s = Inr s'"
  shows "our_ci s' = our_ci s" and "set (client_nodes s) \<subseteq> set (client_nodes s')"
    and "q = PeerNode p \<Longrightarrow> p \<noteq> our_ci s \<Longrightarrow> p \<in> set (client_nodes s')"
  using assms by (auto simp: connect_to_one_def cn_call_def Let_def split: peer.splits if_splits)

lemma connect_to_peers_adds:
  assumes "connect_to_peers ps s = Inr s'" and "PeerNode p \<in> set ps" and "p \<noteq> our_ci s"
  shows "p \<in> set (client_nodes s')"
proof -
  obtain qs rs where ps: "ps = qs @ PeerNode p # rs" using assms(2) by (meson split_list)
  obtain t1 t2 where t: "fold_p connect_to_one qs s = Inr t1" "connect_to_one (PeerNode p) t1 = Inr t2"
      "fold_p connect_to_one rs t2 = Inr s'"
    using assms(1) by (auto simp: connect_to_peers_def ps fold_p_append bind_p_Inr_conv)
  have "our_ci t1 = our_ci s"
    by (rule fold_p_invariant [OF t(1), where I = "\<lambda>t. our_ci t = our_ci s"]) (auto dest: connect_to_one_adds(1))
  then have "p \<in> set (client_nodes t2)" using connect_to_one_adds(3) [OF t(2)] assms(3) by simp
  then show ?thesis
    by (rule fold_p_invariant [OF t(3), where I = "\<lambda>t. p \<in> set (client_nodes t)"])
      (auto dest: connect_to_one_adds(2))
qed

section \<open>Contacts that connect early\<close>

lemma connect_to_one_keeps:
  assumes "connect_to_one q s = Inr s'" and "distinct (client_nodes s)"
  shows "sent_messages s' = sent_messages s \<and> cn_logs s' = cn_logs s \<and> distinct (client_nodes s') \<and>
    set (client_nodes s) \<subseteq> set (client_nodes s')"
  using assms by (auto simp: connect_to_one_def cn_call_def Let_def split: peer.splits if_splits)

lemma connect_to_peers_keeps:
  assumes "connect_to_peers ps s = Inr s'" and "distinct (client_nodes s)"
  shows "sent_messages s' = sent_messages s \<and> cn_logs s' = cn_logs s \<and> distinct (client_nodes s') \<and>
    set (client_nodes s) \<subseteq> set (client_nodes s')"
proof (rule fold_p_invariant [OF assms(1) [unfolded connect_to_peers_def],
      where I = "\<lambda>s'. sent_messages s' = sent_messages s \<and> cn_logs s' = cn_logs s \<and>
        distinct (client_nodes s') \<and> set (client_nodes s) \<subseteq> set (client_nodes s')"])
  fix x t t'
  assume "sent_messages t = sent_messages s \<and> cn_logs t = cn_logs s \<and> distinct (client_nodes t) \<and>
      set (client_nodes s) \<subseteq> set (client_nodes t)" and "connect_to_one x t = Inr t'"
  then show "sent_messages t' = sent_messages s \<and> cn_logs t' = cn_logs s \<and> distinct (client_nodes t') \<and>
      set (client_nodes s) \<subseteq> set (client_nodes t')"
    using connect_to_one_keeps [of x t t'] by auto
qed (use assms(2) in simp)

text \<open>
  \<open>served A s\<close>: the nodes in \<open>A\<close>, and no others, have been counted as served, and
  \<open>p\<close> is a contact not among them.
\<close>

definition served :: "node_info \<Rightarrow> node_info set \<Rightarrow> client_node \<Rightarrow> bool" where
  "served p A s \<longleftrightarrow> p \<in> set (client_nodes s) \<and> distinct (client_nodes s) \<and> p \<notin> A \<and>
    A \<subseteq> set (client_nodes s) \<and> card A = sent_messages s"

lemma served_not_all:
  assumes "served p A s"
  shows "sent_messages s < length (client_nodes s)"
proof -
  have "A \<subset> set (client_nodes s)" using assms by (auto simp: served_def)
  then have "card A < card (set (client_nodes s))" by (simp add: psubset_card_mono)
  then show ?thesis using assms by (simp add: served_def distinct_card)
qed

lemma count_message_served:
  assumes "served p A s"
  shows "served p A (count_message a b n s)" and
    "LogDone \<in> set (cn_logs (count_message a b n s)) \<Longrightarrow> LogDone \<in> set (cn_logs s)"
  using assms served_not_all [OF assms]
  by (auto simp: count_message_def cn_log_def served_def Let_def split: if_splits)

lemma served_logged:
  assumes "served p A s" and "l \<noteq> LogDone"
  shows "served p A (cn_log l s)" and
    "LogDone \<in> set (cn_logs (cn_log l s)) \<Longrightarrow> LogDone \<in> set (cn_logs s)"
  using assms by (auto simp: served_def cn_log_def)

lemma served_on_connect:
  assumes s: "served p A s" and step: "on_connect (PeerNode ni) s = Inr s'"
    and fresh: "ni \<noteq> p" "ni \<notin> A"
  shows "\<exists>A'. served p A' s' \<and> A' \<subseteq> insert ni A"
    and "LogDone \<in> set (cn_logs s') \<Longrightarrow> LogDone \<in> set (cn_logs s)"
proof -
  have fin: "finite A" using s by (auto simp: served_def intro: finite_subset)
  have "(\<exists>A'. served p A' s' \<and> A' \<subseteq> insert ni A) \<and>
      (LogDone \<in> set (cn_logs s') \<longrightarrow> LogDone \<in> set (cn_logs s))"
  proof (cases "ni \<noteq> cn_bootstrap_node_info s \<and> ni \<in> set (client_nodes s)")
    case True
    then have "served p (insert ni A) s'" and "cn_logs s' = cn_logs s"
      using step s fresh fin by (auto simp: on_connect_def served_def cn_call_def Let_def)
    then show ?thesis by auto
  next
    case False
    then have "s' = s \<or> s' = cn_log LogConnectedBootstrap s"
      using step by (auto simp: on_connect_def split: if_splits)
    then show ?thesis using s served_logged [OF s, of LogConnectedBootstrap] by auto
  qed
  then show "\<exists>A'. served p A' s' \<and> A' \<subseteq> insert ni A"
    and "LogDone \<in> set (cn_logs s') \<Longrightarrow> LogDone \<in> set (cn_logs s)" by blast+
qed

lemma served_on_msg:
  assumes s: "served p A s" and step: "on_msg_receive crc C a m s = Inr s'"
  shows "served p A s'" and "LogDone \<in> set (cn_logs s') \<Longrightarrow> LogDone \<in> set (cn_logs s)"
proof -
  have "served p A s' \<and> (LogDone \<in> set (cn_logs s') \<longrightarrow> LogDone \<in> set (cn_logs s))"
  proof (cases "response_from_bootstrap_node a s")
    case True
    then obtain ps where "connect_to_peers ps s = Inr s'"
      using step by (auto simp: on_msg_receive_def split: sum.splits rpc.splits)
    moreover have "distinct (client_nodes s)" using s by (simp add: served_def)
    ultimately have "sent_messages s' = sent_messages s" "cn_logs s' = cn_logs s"
        "distinct (client_nodes s')" "set (client_nodes s) \<subseteq> set (client_nodes s')"
      using connect_to_peers_keeps by blast+
    then show ?thesis using s by (auto simp: served_def)
  next
    case False
    let ?b = "case peer_states s a of Some b \<Rightarrow> b | None \<Rightarrow> False"
    let ?s1 = "s\<lparr>peer_states := (peer_states s)(a \<mapsto> ?b)\<rparr>"
    have s': "s' = count_message a ?b (length m - 4) ?s1"
      using step False by (auto simp: on_msg_receive_def bind_p_Inr_conv Let_def)
    have "served p A ?s1" using s by (simp add: served_def)
    then show ?thesis using count_message_served [of p A ?s1] unfolding s' by auto
  qed
  then show "served p A s'" and "LogDone \<in> set (cn_logs s') \<Longrightarrow> LogDone \<in> set (cn_logs s)" by blast+
qed

lemma served_step:
  assumes s: "served p A s" and step: "cn_on_event crc C e s = Inr s'"
    and fresh: "e \<noteq> ConnectedTo (PeerNode p)" "\<And>q. e = ConnectedTo (PeerNode q) \<Longrightarrow> q \<notin> A"
  shows "\<exists>A'. served p A' s' \<and> A' \<subseteq> A \<union> {q. e = ConnectedTo (PeerNode q)}"
    and "LogDone \<in> set (cn_logs s') \<Longrightarrow> LogDone \<in> set (cn_logs s)"
proof -
  consider (connect) ni where "e = ConnectedTo (PeerNode ni)" "on_connect (PeerNode ni) s = Inr s'"
    | (msg) a m where "on_msg_receive crc C a m s = Inr s'"
    | (other) "s' = cn_log (LogUnexpected e) s"
    using step by (auto simp: cn_on_event_def on_connect_def split: event.splits peer.splits)
  then have "(\<exists>A'. served p A' s' \<and> A' \<subseteq> A \<union> {q. e = ConnectedTo (PeerNode q)}) \<and>
      (LogDone \<in> set (cn_logs s') \<longrightarrow> LogDone \<in> set (cn_logs s))"
  proof cases
    case connect
    then show ?thesis using served_on_connect [OF s connect(2)] fresh by auto
  next
    case msg
    then show ?thesis using served_on_msg [OF s msg] by blast
  next
    case other
    then show ?thesis using served_logged [OF s, of "LogUnexpected e"] by blast
  qed
  then show "\<exists>A'. served p A' s' \<and> A' \<subseteq> A \<union> {q. e = ConnectedTo (PeerNode q)}"
    and "LogDone \<in> set (cn_logs s') \<Longrightarrow> LogDone \<in> set (cn_logs s)" by blast+
qed

fun is_announcement :: "event \<Rightarrow> bool" where
  "is_announcement (ConnectedTo p) = True"
| "is_announcement _ = False"

lemma never_done_without:
  assumes "poll_qp2p_events crc C es s = Inr s'" and "served p A s"
    and "ConnectedTo (PeerNode p) \<notin> set es" and "distinct (filter is_announcement es)"
    and "\<And>q. q \<in> A \<Longrightarrow> ConnectedTo (PeerNode q) \<notin> set es"
  shows "LogDone \<in> set (cn_logs s') \<Longrightarrow> LogDone \<in> set (cn_logs s)"
    and "sent_messages s' < length (client_nodes s')"
proof -
  have "(LogDone \<in> set (cn_logs s') \<longrightarrow> LogDone \<in> set (cn_logs s)) \<and> (\<exists>A'. served p A' s')"
    using assms unfolding poll_qp2p_events_def
  proof (induction es arbitrary: s A)
    case Nil
    then show ?case by auto
  next
    case (Cons e es)
    then obtain t where t: "cn_on_event crc C e s = Inr t" "fold_p (cn_on_event crc C) es t = Inr s'"
      by (auto simp: bind_p_Inr_conv)
    have fresh: "e \<noteq> ConnectedTo (PeerNode p)" "\<And>q. e = ConnectedTo (PeerNode q) \<Longrightarrow> q \<notin> A"
      using Cons.prems by auto
    obtain A' where A': "served p A' t" "A' \<subseteq> A \<union> {q. e = ConnectedTo (PeerNode q)}"
      using served_step(1) [OF Cons.prems(2) t(1) fresh] by blast
    have "ConnectedTo (PeerNode q) \<notin> set es" if "q \<in> A'" for q
      using that A'(2) Cons.prems(4,5) by fastforce
    moreover have "distinct (filter is_announcement es)" using Cons.prems(4) by (auto split: if_splits)
    ultimately show ?case
      using Cons.IH [OF t(2) A'(1)] Cons.prems(3) served_step(2) [OF Cons.prems(2) t(1) fresh] by auto
  qed
  then show "LogDone \<in> set (cn_logs s') \<Longrightarrow> LogDone \<in> set (cn_logs s)"
    and "sent_messages s' < length (client_nodes s')" using served_not_all by blast+
qed

end
