(* ===== verification/Chat.thy ===== *)
theory Chat
  imports Ip_Text Api_Calls
begin

text \<open>
  The example \<open>examples/chat.rs\<close>: a list of known peers, commands read from the
  terminal, and a thread that prints what the library reports. \<open>serde_json\<close>, the
  random generator, the text of a \<open>SocketAddr\<close> and of an event and the results of
  \<open>our_connection_info\<close> are parameters.
\<close>

section \<open>The list of peers\<close>

record peer_list =
  pl_peers :: "peer list"

definition peer_list_new :: peer_list where
  "peer_list_new = \<lparr>pl_peers = []\<rparr>"

definition peer_list_insert :: "peer \<Rightarrow> peer_list \<Rightarrow> peer_list" where
  "peer_list_insert p self =
    (if p \<in> set (pl_peers self) then self else self\<lparr>pl_peers := pl_peers self @ [p]\<rparr>)"

definition insert_from_json ::
  "(ustring \<Rightarrow> string + peer) \<Rightarrow> ustring \<Rightarrow> peer_list \<Rightarrow> (string + unit) \<times> peer_list" where
  "insert_from_json from_json peer_json self =
    (case from_json peer_json of
       Inl _ \<Rightarrow> (Inl ''Error parsing JSON'', self)
     | Inr p \<Rightarrow> (Inr (), peer_list_insert p self))"

definition peer_list_remove :: "nat \<Rightarrow> peer_list \<Rightarrow> (string + peer) \<times> peer_list" where
  "peer_list_remove peer_idx self =
    (if peer_idx < length (pl_peers self)
     then (Inr (pl_peers self ! peer_idx), self\<lparr>pl_peers := remove_at peer_idx (pl_peers self)\<rparr>)
     else (Inl ''Index out of bounds'', self))"

definition peer_list_get :: "nat \<Rightarrow> peer_list \<Rightarrow> peer option" where
  "peer_list_get peer_idx self =
    (if peer_idx < length (pl_peers self) then Some (pl_peers self ! peer_idx) else None)"

text \<open>\<open>{:3}\<close>: right aligned in three columns\<close>

definition fmt_3 :: "nat \<Rightarrow> string" where
  "fmt_3 n = (let s = fmt_nat n in replicate (3 - length s) CHR '' '' @ s)"

definition peer_list_list :: "(socket_addr \<Rightarrow> string) \<Rightarrow> peer_list \<Rightarrow> ustring list" where
  "peer_list_list show_addr self =
    map (\<lambda>(idx, p). str (fmt_3 idx @ '': '' @ show_addr (peer_addr p))) (enumerate 0 (pl_peers self))"

section \<open>The state\<close>

text \<open>The thread that handles events runs until an event makes it panic.\<close>

datatype rx_thread = RxRunning | RxPanicked

record chat =
  chat_peerlist :: peer_list
  chat_qp2p :: quic_p2p
  chat_rx :: rx_thread
  chat_out :: "ustring list"

record chat_env =
  ce_extern :: extern
  ce_from_json :: "ustring \<Rightarrow> string + peer"
  ce_to_json :: "peer \<Rightarrow> string + ustring"
  ce_show_addr :: "socket_addr \<Rightarrow> string"
  ce_show_event :: "event \<Rightarrow> string"
  ce_rng :: "nat \<Rightarrow> bytes"
  ce_ourinfo :: "quic_p2p \<Rightarrow> panic + node_info R \<times> quic_p2p"

definition println :: "ustring \<Rightarrow> chat \<Rightarrow> chat" where
  "println l s = s\<lparr>chat_out := chat_out s @ [l]\<rparr>"

definition chat_library_config :: "u16 option \<Rightarrow> ip_addr option \<Rightarrow> config" where
  "chat_library_config listening_port our_ip = config_default\<lparr>cfg_port := listening_port, cfg_ip := our_ip\<rparr>"

text \<open>
  The listening port of \<open>parse_cli_args\<close>; \<open>val\<close> is what \<open>clap\<close> found for the option. A
  value its validator rejects ends the program with the message.
\<close>

definition chat_port :: "ustring option \<Rightarrow> string + u16 option" where
  "chat_port val =
    (case val of
       None \<Rightarrow> Inr None
     | Some v \<Rightarrow>
         if parse_uint 16 v = None then Inl ''Invalid port''
         else Inr (map_option of_nat (parse_uint 16 v)))"

text \<open>
  \<open>parse_cli_args\<close>: \<open>clap\<close> validates the port first; an IP address that does not parse is
  a panic of \<open>unwrap!\<close>.
\<close>

record cli_args =
  cli_port :: "u16 option"
  cli_our_ip :: "ip_addr option"

definition chat_parse_cli_args :: "ustring option \<Rightarrow> ustring option \<Rightarrow> panic + (string + cli_args)" where
  "chat_parse_cli_args port_val ip_val =
    (case chat_port port_val of
       Inl e \<Rightarrow> Inr (Inl e)
     | Inr p \<Rightarrow>
         (case ip_val of
            None \<Rightarrow> Inr (Inr \<lparr>cli_port = p, cli_our_ip = None\<rparr>)
          | Some addr \<Rightarrow>
              (case parse_ip addr of
                 None \<Rightarrow> Inl UnwrapOnError
               | Some a \<Rightarrow> Inr (Inr \<lparr>cli_port = p, cli_our_ip = Some a\<rparr>))))"

section \<open>Commands\<close>

text \<open>The first argument as an index, and the arguments after it\<close>

definition index_arg :: "ustring list \<Rightarrow> string + nat \<times> ustring list" where
  "index_arg args =
    (case args of
       [] \<Rightarrow> Inl ''Missing index argument''
     | idx # rest \<Rightarrow>
         (case parse_uint 64 idx of
            None \<Rightarrow> Inl ''Invalid index argument''
          | Some i \<Rightarrow> Inr (i, rest)))"

definition on_cmd_send ::
  "extern \<Rightarrow> ustring list \<Rightarrow> peer_list \<Rightarrow> quic_p2p \<Rightarrow> (string + unit) \<times> quic_p2p" where
  "on_cmd_send E args pl qp2p =
    (case index_arg args of
       Inl e \<Rightarrow> (Inl e, qp2p)
     | Inr (idx, rest) \<Rightarrow>
         (case peer_list_get idx pl of
            None \<Rightarrow> (Inl ''Index out of bounds'', qp2p)
          | Some p \<Rightarrow> (Inr (), perform_call E (CallSend p (as_bytes (join_space rest))) qp2p)))"

definition on_cmd_send_rand ::
  "extern \<Rightarrow> (nat \<Rightarrow> bytes) \<Rightarrow> ustring list \<Rightarrow> peer_list \<Rightarrow> quic_p2p \<Rightarrow> (string + unit) \<times> quic_p2p" where
  "on_cmd_send_rand E rng args pl qp2p =
    (case index_arg args of
       Inl e \<Rightarrow> (Inl e, qp2p)
     | Inr (idx, rest) \<Rightarrow>
         (case peer_list_get idx pl of
            None \<Rightarrow> (Inl ''Index out of bounds'', qp2p)
          | Some p \<Rightarrow>
              (case rest of
                 [] \<Rightarrow> (Inl ''Missing bytes count'', qp2p)
               | cnt # _ \<Rightarrow>
                   (case parse_uint 64 cnt of
                      None \<Rightarrow> (Inl ''Invalid bytes count argument'', qp2p)
                    | Some n \<Rightarrow> (Inr (), perform_call E (CallSend p (rng n)) qp2p)))))"

definition on_cmd_delpeer :: "ustring list \<Rightarrow> peer_list \<Rightarrow> (string + unit) \<times> peer_list" where
  "on_cmd_delpeer args pl =
    (case index_arg args of
       Inl e \<Rightarrow> (Inl e, pl)
     | Inr (idx, _) \<Rightarrow>
         (case peer_list_remove idx pl of
            (Inl e, pl') \<Rightarrow> (Inl e, pl')
          | (Inr _, pl') \<Rightarrow> (Inr (), pl')))"

definition print_ourinfo :: "chat_env \<Rightarrow> chat \<Rightarrow> panic + chat" where
  "print_ourinfo V s =
    bind_p (ce_ourinfo V (chat_qp2p s)) (\<lambda>(res, qp2p).
      let s1 = s\<lparr>chat_qp2p := qp2p\<rparr>
      in case res of
           Inl e \<Rightarrow> Inr (println (str (''Error getting ourinfo: '' @ fmt_error (ce_show_addr V) e)) s1)
         | Inr ourinfo \<Rightarrow>
             (case ce_to_json V (node_info_into_peer ourinfo) of
                Inl _ \<Rightarrow> Inl UnwrapOnError
              | Inr j \<Rightarrow> Inr (println (str ''Our info:'' @ [10, 10] @ j @ [10]) s1)))"

text \<open>
  The match on the command: the result to report and the state, or \<open>None\<close> for the
  end of the loop.
\<close>

definition chat_command ::
  "chat_env \<Rightarrow> ustring \<Rightarrow> ustring list \<Rightarrow> chat \<Rightarrow> panic + ((string + unit) \<times> chat) option" where
  "chat_command V cmd args s =
    (let E = ce_extern V; pl = chat_peerlist s; qp2p = chat_qp2p s
     in if cmd = str ''ourinfo'' then bind_p (print_ourinfo V s) (\<lambda>s1. Inr (Some (Inr (), s1)))
     else if cmd = str ''addpeer'' then
       (let (r, pl') = insert_from_json (ce_from_json V) (join_space args) pl
        in Inr (Some (r, s\<lparr>chat_peerlist := pl'\<rparr>)))
     else if cmd = str ''listpeers'' then
       Inr (Some (Inr (), fold println (peer_list_list (ce_show_addr V) pl) s))
     else if cmd = str ''delpeer'' then
       (let (r, pl') = on_cmd_delpeer args pl in Inr (Some (r, s\<lparr>chat_peerlist := pl'\<rparr>)))
     else if cmd = str ''send'' then
       (let (r, qp) = on_cmd_send E args pl qp2p in Inr (Some (r, s\<lparr>chat_qp2p := qp\<rparr>)))
     else if cmd = str ''sendrand'' then
       (let (r, qp) = on_cmd_send_rand E (ce_rng V) args pl qp2p
        in Inr (Some (r, s\<lparr>chat_qp2p := qp\<rparr>)))
     else if cmd = str ''quit'' \<or> cmd = str ''exit'' then Inr None
     else if cmd = str ''help'' then
       Inr (Some (Inr (), println (str
         ''Commands: ourinfo, addpeer, listpeers, delpeer, send, quit, exit, help'') s))
     else Inr (Some (Inl ''Unknown command'', s)))"

datatype readline = RlLine ustring | RlEof | RlInterrupted | RlError string

text \<open>One round of the loop of \<open>main\<close>; \<open>None\<close> ends it.\<close>

definition chat_round :: "chat_env \<Rightarrow> readline \<Rightarrow> chat \<Rightarrow> panic + chat option" where
  "chat_round V rl s =
    (case rl of
       RlLine line \<Rightarrow>
         (case split_whitespace line of
            [] \<Rightarrow> Inr (Some s)
          | cmd # args \<Rightarrow>
              bind_p (chat_command V cmd args s) (\<lambda>r. case r of
                None \<Rightarrow> Inr None
              | Some (Inl msg, s1) \<Rightarrow> Inr (Some (println (str (''Error: '' @ msg)) s1))
              | Some (Inr _, s1) \<Rightarrow> Inr (Some s1)))
     | RlEof \<Rightarrow> Inr None
     | RlInterrupted \<Rightarrow> Inr None
     | RlError e \<Rightarrow> Inr (Some (println (str (''Error reading line: '' @ e)) s)))"

section \<open>Events\<close>

definition handle_qp2p_event :: "chat_env \<Rightarrow> event \<Rightarrow> chat \<Rightarrow> chat" where
  "handle_qp2p_event V e s =
    (case chat_rx s of
       RxPanicked \<Rightarrow> s
     | RxRunning \<Rightarrow>
         (case e of
            ConnectedTo p \<Rightarrow> s\<lparr>chat_peerlist := peer_list_insert p (chat_peerlist s)\<rparr>
          | NewMessage a msg \<Rightarrow>
              if length msg > 512
              then println (str (''['' @ ce_show_addr V a @ ''] received bytes: '' @ fmt_nat (length msg))) s
              else (case from_utf8 msg of
                      None \<Rightarrow> s\<lparr>chat_rx := RxPanicked\<rparr>
                    | Some t \<Rightarrow> println (str (''['' @ ce_show_addr V a @ ''] '') @ t) s)
          | _ \<Rightarrow> println (str (''Unexpected Crust event: '' @ ce_show_event V e)) s))"

section \<open>Running\<close>

text \<open>
  The two threads share the list of peers under a mutex, so their rounds interleave.
  At the end the handle is dropped and the other thread joined: it handles the events
  that are still to come, and joining panics if it did.
\<close>

datatype chat_input = UserInput readline | LibraryEvent event

fun library_events :: "chat_input list \<Rightarrow> event list" where
  "library_events [] = []"
| "library_events (LibraryEvent e # is) = e # library_events is"
| "library_events (UserInput _ # is) = library_events is"

definition chat_exit :: "chat_env \<Rightarrow> event list \<Rightarrow> chat \<Rightarrow> panic + chat" where
  "chat_exit V es s =
    (let s1 = s\<lparr>chat_qp2p := (chat_qp2p s)\<lparr>qp_el := drop_event_loop (qp_el (chat_qp2p s))\<rparr>\<rparr>;
         s2 = fold (handle_qp2p_event V) es s1
     in case chat_rx s2 of RxPanicked \<Rightarrow> Inl UnwrapOnError | RxRunning \<Rightarrow> Inr s2)"

fun chat_run :: "chat_env \<Rightarrow> chat_input list \<Rightarrow> chat \<Rightarrow> panic + chat" where
  "chat_run V [] s = Inr s"
| "chat_run V (LibraryEvent e # is) s = chat_run V is (handle_qp2p_event V e s)"
| "chat_run V (UserInput rl # is) s =
    bind_p (chat_round V rl s) (\<lambda>r. case r of
      None \<Rightarrow> chat_exit V (library_events is) s
    | Some s1 \<Rightarrow> chat_run V is s1)"

definition chat_start ::
  "extern \<Rightarrow> sockets \<Rightarrow> config codec \<Rightarrow> project_dirs option \<Rightarrow> serialisable_certificate
    \<Rightarrow> cli_args \<Rightarrow> disk \<Rightarrow> panic + chat \<times> disk" where
  "chat_start E N C dirs generated args d =
    (case build E N C dirs generated
        (with_config (chat_library_config (cli_port args) (cli_our_ip args)) builder_new) d of
       Inl p \<Rightarrow> Inl p
     | Inr (Inl e, _) \<Rightarrow> Inl UnwrapOnError
     | Inr (Inr qp2p, d') \<Rightarrow>
         Inr (\<lparr>chat_peerlist = peer_list_new, chat_qp2p = qp2p, chat_rx = RxRunning,
               chat_out = [str ''Type 'help' to get started.'']\<rparr>, d'))"

section \<open>The list of peers as an ordered set\<close>

text \<open>
  What a list of contacts promises its user: it has no duplicates, an insertion adds
  at the end and keeps the indices of the others, a removal takes out the entry at
  the index.
\<close>

locale contact_list =
  fixes contacts :: "'s \<Rightarrow> 'a list"
    and empty :: 's
    and ins :: "'a \<Rightarrow> 's \<Rightarrow> 's"
    and del :: "nat \<Rightarrow> 's \<Rightarrow> (string + 'a) \<times> 's"
    and get :: "nat \<Rightarrow> 's \<Rightarrow> 'a option"
  assumes contacts_empty: "contacts empty = []"
    and contacts_ins: "contacts (ins x s) = (if x \<in> set (contacts s) then contacts s else contacts s @ [x])"
    and contacts_del: "contacts (snd (del i s)) = take i (contacts s) @ drop (Suc i) (contacts s)"
    and del_found: "i < length (contacts s) \<Longrightarrow> fst (del i s) = Inr (contacts s ! i)"
    and del_missing: "length (contacts s) \<le> i \<Longrightarrow> \<exists>e. fst (del i s) = Inl e"
    and get_contacts: "get i s = (if i < length (contacts s) then Some (contacts s ! i) else None)"
begin

lemma distinct_ins: "distinct (contacts s) \<Longrightarrow> distinct (contacts (ins x s))"
  by (simp add: contacts_ins)

lemma distinct_del: "distinct (contacts s) \<Longrightarrow> distinct (contacts (snd (del i s)))"
  using set_take_disj_set_drop_if_distinct [of "contacts s" i "Suc i"] by (simp add: contacts_del)

lemma get_after_ins: "get i s = Some y \<Longrightarrow> get i (ins x s) = Some y"
  by (simp add: get_contacts contacts_ins nth_append split: if_split_asm)

lemma ins_found: "\<exists>i. get i (ins x s) = Some x"
proof (cases "x \<in> set (contacts s)")
  case True
  then show ?thesis by (auto simp: get_contacts contacts_ins in_set_conv_nth)
next
  case False
  then have "get (length (contacts s)) (ins x s) = Some x" by (simp add: get_contacts contacts_ins)
  then show ?thesis ..
qed

lemma get_unique: "distinct (contacts s) \<Longrightarrow> get i s = Some x \<Longrightarrow> get j s = Some x \<Longrightarrow> i = j"
  using nth_eq_iff_index_eq [of "contacts s" i j] by (auto simp: get_contacts split: if_split_asm)

end

interpretation chat_contacts:
  contact_list pl_peers peer_list_new peer_list_insert peer_list_remove peer_list_get
  by unfold_locales
    (auto simp: peer_list_new_def peer_list_insert_def peer_list_remove_def peer_list_get_def remove_at_def)

section \<open>Invariant\<close>

lemma chat_peerlist_println [simp]: "chat_peerlist (println l s) = chat_peerlist s"
  by (simp add: println_def)

lemma chat_peerlist_fold_println [simp]: "chat_peerlist (fold println ls s) = chat_peerlist s"
  by (induction ls arbitrary: s) simp_all

lemma print_ourinfo_peerlist: "print_ourinfo V s = Inr s' \<Longrightarrow> chat_peerlist s' = chat_peerlist s"
  by (cases "ce_ourinfo V (chat_qp2p s)") (auto simp: print_ourinfo_def Let_def split: sum.split_asm)

lemma insert_from_json_distinct:
  "distinct (pl_peers pl) \<Longrightarrow> distinct (pl_peers (snd (insert_from_json f j pl)))"
  by (simp add: insert_from_json_def chat_contacts.distinct_ins split: sum.splits)

lemma on_cmd_delpeer_distinct:
  "distinct (pl_peers pl) \<Longrightarrow> distinct (pl_peers (snd (on_cmd_delpeer args pl)))"
  using chat_contacts.distinct_del [of pl]
  by (simp add: on_cmd_delpeer_def split: sum.splits prod.splits) (metis snd_conv)

lemma chat_command_distinct:
  assumes "chat_command V cmd args s = Inr (Some (r, s'))" and "distinct (pl_peers (chat_peerlist s))"
  shows "distinct (pl_peers (chat_peerlist s'))"
  using assms insert_from_json_distinct [OF assms(2), of "ce_from_json V" "join_space args"]
    on_cmd_delpeer_distinct [OF assms(2), of args]
  by (auto simp: chat_command_def Let_def bind_p_Inr_conv print_ourinfo_peerlist
      split: if_split_asm prod.splits)

lemma chat_round_distinct:
  assumes "chat_round V rl s = Inr (Some s')" and "distinct (pl_peers (chat_peerlist s))"
  shows "distinct (pl_peers (chat_peerlist s'))"
proof (cases "\<exists>line cmd args. rl = RlLine line \<and> split_whitespace line = cmd # args")
  case True
  then obtain line cmd args where l: "rl = RlLine line" "split_whitespace line = cmd # args" by blast
  then obtain res where res: "chat_command V cmd args s = Inr res"
    using assms(1) by (auto simp: chat_round_def bind_p_Inr_conv)
  then obtain r s1 where r: "res = Some (r, s1)"
    using assms(1) l by (cases res) (auto simp: chat_round_def)
  then have "s' = s1 \<or> (\<exists>l. s' = println l s1)"
    using assms(1) l res by (cases r) (auto simp: chat_round_def)
  then show ?thesis using chat_command_distinct [OF res [unfolded r] assms(2)] by auto
next
  case False
  then have "s' = s \<or> (\<exists>l. s' = println l s)"
    using assms(1) by (auto simp: chat_round_def split: readline.split_asm list.split_asm)
  then show ?thesis using assms(2) by auto
qed

lemma handle_qp2p_event_distinct:
  "distinct (pl_peers (chat_peerlist s)) \<Longrightarrow> distinct (pl_peers (chat_peerlist (handle_qp2p_event V e s)))"
  by (simp add: handle_qp2p_event_def chat_contacts.distinct_ins
      split: rx_thread.splits event.splits option.splits)

lemma handle_qp2p_events_distinct:
  "distinct (pl_peers (chat_peerlist s)) \<Longrightarrow>
    distinct (pl_peers (chat_peerlist (fold (handle_qp2p_event V) es s)))"
  by (induction es arbitrary: s) (simp_all add: handle_qp2p_event_distinct)

lemma chat_run_distinct:
  "chat_run V is s = Inr s' \<Longrightarrow> distinct (pl_peers (chat_peerlist s)) \<Longrightarrow>
    distinct (pl_peers (chat_peerlist s'))"
proof (induction V "is" s rule: chat_run.induct)
  case (2 V e "is" s)
  then show ?case using handle_qp2p_event_distinct by simp
next
  case (3 V rl "is" s)
  then obtain r where r: "chat_round V rl s = Inr r" by (auto simp: bind_p_Inr_conv)
  show ?case
  proof (cases r)
    case None
    then show ?thesis
      using 3 r handle_qp2p_events_distinct [of "s\<lparr>chat_qp2p := _\<rparr>" V "library_events is"]
      by (auto simp: chat_exit_def Let_def split: rx_thread.splits)
  next
    case (Some s1)
    then show ?thesis using 3 r chat_round_distinct by auto
  qed
qed simp

section \<open>Messages between chats\<close>

lemma str_words: "is_word (str ''send'')" "is_word (str (fmt_nat n))"
  using fmt_nat_decimal [of n]
  by (auto simp: is_word_def str_def is_whitespace_def is_digits_def)

lemma command_names:
  "str ''send'' \<noteq> str ''ourinfo''" "str ''send'' \<noteq> str ''addpeer''" "str ''send'' \<noteq> str ''listpeers''"
  "str ''send'' \<noteq> str ''delpeer''"
  by (simp_all add: str_def)

lemma send_line:
  assumes "\<forall>w \<in> set ws. is_word w" and "peer_list_get i (chat_peerlist s) = Some p" and "i < 2 ^ 64"
  shows "chat_round V (RlLine (join_space (str ''send'' # str (fmt_nat i) # ws))) s =
    Inr (Some (s\<lparr>chat_qp2p := perform_call (ce_extern V) (CallSend p (as_bytes (join_space ws))) (chat_qp2p s)\<rparr>))"
proof -
  have "split_whitespace (join_space (str ''send'' # str (fmt_nat i) # ws)) =
      str ''send'' # str (fmt_nat i) # ws"
    using assms(1) str_words by (intro split_whitespace_join) auto
  then show ?thesis
    using assms(2,3)
    by (simp add: chat_round_def chat_command_def command_names on_cmd_send_def index_arg_def
        parse_uint_fmt_nat Let_def del: perform_call.simps)
qed

lemma receive_text:
  assumes "chat_rx s = RxRunning" and "\<forall>c \<in> set t. is_scalar c" and "length (as_bytes t) \<le> 512"
  shows "handle_qp2p_event V (NewMessage a (as_bytes t)) s =
    println (str (''['' @ ce_show_addr V a @ ''] '') @ t) s"
  using assms by (simp add: handle_qp2p_event_def from_utf8_as_bytes)

lemma event_kills_receiver:
  "chat_rx (handle_qp2p_event V e s) = RxPanicked \<longleftrightarrow>
    chat_rx s = RxPanicked \<or>
    (\<exists>a m. e = NewMessage a m \<and> length m \<le> 512 \<and> (\<nexists>t. as_bytes t = m \<and> (\<forall>c \<in> set t. is_scalar c)))"
proof -
  have "from_utf8 m = None \<longleftrightarrow> (\<nexists>t. as_bytes t = m \<and> (\<forall>c \<in> set t. is_scalar c))" for m
    by (metis from_utf8_iff not_None_eq)
  note u = this [symmetric]
  show ?thesis
    unfolding u
    by (auto simp: handle_qp2p_event_def println_def split: rx_thread.splits event.splits option.splits)
qed

end
