(* ===== verification/Rpc_Format.thy ===== *)
theory Rpc_Format
  imports Store_Format Bootstrap_Node
begin

text \<open>
  The bytes \<open>bincode\<close> makes of the remote procedure call the examples exchange
  (\<open>examples/common/mod.rs\<close>): variant index, then the list of peers, each with its
  variant index. The codec interprets \<open>faithful_codec\<close>.
\<close>

fun enc_peer :: "peer \<Rightarrow> bytes" where
  "enc_peer (PeerNode ni) = enc_le 4 0 @ enc_node ni"
| "enc_peer (PeerClient a) = enc_le 4 1 @ enc_addr a"

definition dec_peer :: "bytes \<Rightarrow> (peer \<times> bytes) option" where
  "dec_peer bs =
    (case dec_le 4 bs of
       None \<Rightarrow> None
     | Some (v, r) \<Rightarrow>
         if v = 0 then map_option (map_prod PeerNode id) (dec_node r)
         else if v = 1 then map_option (map_prod PeerClient id) (dec_addr r)
         else None)"

fun peer_ok :: "peer \<Rightarrow> bool" where
  "peer_ok (PeerNode ni) = node_ok ni"
| "peer_ok (PeerClient a) = addr_ok a"

interpretation peer: prefix_codec enc_peer dec_peer peer_ok
proof
  fix p and rest :: bytes
  assume "peer_ok p"
  then show "dec_peer (enc_peer p @ rest) = Some (p, rest)"
    by (cases p) (simp_all add: dec_peer_def dec_le_tag node.dec_enc sock_addr.dec_enc)
qed

fun enc_rpc :: "rpc \<Rightarrow> bytes" where
  "enc_rpc (StartTest ps) = enc_le 4 0 @ enc_list enc_peer ps"

definition dec_rpc :: "bytes \<Rightarrow> (rpc \<times> bytes) option" where
  "dec_rpc bs =
    (case dec_le 4 bs of
       None \<Rightarrow> None
     | Some (v, r) \<Rightarrow> if v = 0 then map_option (map_prod StartTest id) (dec_list dec_peer r) else None)"

fun rpc_ok :: "rpc \<Rightarrow> bool" where
  "rpc_ok (StartTest ps) = ok_list peer_ok ps"

interpretation rpc: prefix_codec enc_rpc dec_rpc rpc_ok
proof
  fix r and rest :: bytes
  assume "rpc_ok r"
  then show "dec_rpc (enc_rpc r @ rest) = Some (r, rest)"
    using prefix_codec.dec_enc [OF prefix_codec_list [OF peer.prefix_codec_axioms]]
    by (cases r) (simp add: dec_rpc_def dec_le_tag)
qed

definition bincode_rpc :: "rpc codec" where
  "bincode_rpc = prefix_to_codec enc_rpc dec_rpc"

interpretation rpc_message: faithful_codec bincode_rpc rpc_ok
  unfolding bincode_rpc_def by (rule faithful_of_prefix [OF rpc.prefix_codec_axioms])

lemma bincode_rpc_serialize [simp]: "serialize bincode_rpc r = Inr (enc_rpc r)"
  by (simp add: bincode_rpc_def prefix_to_codec_def)

end
