(* ===== verification/Example_Properties.thy ===== *)
theory Example_Properties
  imports Rpc_Format Client_Node Chat Handler_Properties
begin

text \<open>
  The properties of the example programs and of how they use the library.
\<close>

section \<open>Concrete states\<close>

text \<open>A client node as \<open>ClientNode::new\<close> makes it; \<open>node2\<close> is the bootstrap node.\<close>

definition sample_client :: client_node where
  "sample_client = \<lparr>cn_bootstrap_node_info = node2, client_nodes = [],
     our_ci = \<lparr>ni_peer_addr = SocketAddrV4 2130706433 5003, ni_peer_cert_der = [9]\<rparr>,
     sent_messages = 0, received_messages = 0, large_msg = [], small_msg = [],
     peer_states = Map.empty, cn_calls = [], cn_logs = []\<rparr>"

definition sample_chat_env :: chat_env where
  "sample_chat_env = \<lparr>ce_extern = sample_extern, ce_from_json = (\<lambda>_. Inl ''no''), ce_to_json = (\<lambda>_. Inl ''no''),
     ce_show_addr = (\<lambda>_. ''peer''), ce_show_event = (\<lambda>_. ''event''), ce_rng = (\<lambda>n. replicate n 0xFF),
     ce_ourinfo = (\<lambda>qp. Inr (Inl NoEndpointEchoServerFound, qp))\<rparr>"

definition sample_chat :: chat where
  "sample_chat = \<lparr>chat_peerlist = \<lparr>pl_peers = [PeerNode node1]\<rparr>,
     chat_qp2p = quic_p2p_with_config config_default, chat_rx = RxRunning, chat_out = []\<rparr>"

section \<open>Calls on the handle\<close>

text \<open>
  The methods of the handle are the steps of the event loop: if the event loop
  waits with an initialised context, then after any sequence of calls to
  \<open>bootstrap\<close>, \<open>connect_to\<close>, \<open>disconnect_from\<close> and \<open>send\<close> it waits with
  exactly the contexts that the corresponding steps of the transition system lead
  to.
\<close>

theorem calls_are_steps:
  assumes "run_event_loop (posted (qp_el qp)) None = LoopWaiting (Some w)"
  shows "run_event_loop (posted (qp_el (fold (perform_call E) cs qp))) None = LoopWaiting (Some w') \<longleftrightarrow>
    steps (el_step E) w (map call_label cs) w'"
  using assms by (rule calls_run_as_steps)

theorem calls_are_steps_witness:
  "\<exists>qp w w'. run_event_loop (posted (qp_el qp)) None = LoopWaiting (Some w) \<and>
     run_event_loop (posted (qp_el (fold (perform_call sample_extern) [CallConnectTo node1] qp))) None =
       LoopWaiting (Some w') \<and>
     steps (el_step sample_extern) w [PostConnectTo node1] w' \<and> connections w' addr1 \<noteq> None"
proof -
  let ?qp = "\<lparr>qp_cfg = config_default, qp_us = None,
      qp_el = \<lparr>posted = [event_loop_msg_new (\<lambda>_. Inr (Some (sample_start OurNode)))]\<rparr>\<rparr>"
  have qp: "run_event_loop (posted (qp_el ?qp)) None = LoopWaiting (Some (sample_start OurNode))"
    by (simp add: event_loop_msg_new_def)
  obtain w' where w': "qp2p_connect_to sample_extern node1 (sample_start OurNode) = Inr w'"
      "connections w' addr1 \<noteq> None"
    by (simp add: exec_defs sample_defs)
  then have "steps (el_step sample_extern) (sample_start OurNode) (map call_label [CallConnectTo node1]) w'"
    using steps_calls [of sample_extern "sample_start OurNode" "[CallConnectTo node1]" w'] by simp
  moreover from this have "run_event_loop (posted (qp_el (fold (perform_call sample_extern)
      [CallConnectTo node1] ?qp))) None = LoopWaiting (Some w')"
    using calls_are_steps [OF qp, of sample_extern "[CallConnectTo node1]" w'] by blast
  ultimately show ?thesis
    using qp w'(2) by (intro exI [of _ ?qp] exI [of _ "sample_start OurNode"] exI [of _ w'] conjI) simp_all
qed

section \<open>The bootstrap node\<close>

text \<open>
  C34. The bootstrap node starts the test once: as long as fewer than \<open>n\<close> addresses
  have been announced it has sent nothing; from the moment the \<open>n\<close>th is announced it
  has sent one and the same message, the list of the peers announced up to that
  moment, to each of these peers, whatever happens afterwards and in whatever order
  the table of peers is traversed.
\<close>

theorem start_test_sent_once:
  assumes "\<And>t. mset (iter t) = mset t" and "bn_run C iter n es = Inr s"
  shows "(n = 0 \<or> card (dom (announced es)) < n \<longrightarrow> bn_calls s = []) \<and>
    (0 < n \<and> n \<le> card (dom (announced es)) \<longrightarrow>
      (\<exists>pre post contacts msg. es = pre @ post \<and>
         card (dom (announced pre)) = n \<and> card (dom (announced (butlast pre))) < n \<and>
         set contacts = ran (announced pre) \<and> length contacts = n \<and>
         serialize C (StartTest contacts) = Inr msg \<and>
         bn_calls s = map (\<lambda>p. CallSend p msg) contacts))"
  using bn_run_inv [OF assms] unfolding bn_inv_def bn_sent_def by (auto simp: not_le)

theorem start_test_sent_once_witness:
  "\<exists>s contacts msg. bn_run bincode_rpc rev 2
       [ConnectedTo (PeerNode node1), ConnectionFailure addr1, ConnectedTo (PeerNode node2)] = Inr s \<and>
     length contacts = 2 \<and> serialize bincode_rpc (StartTest contacts) = Inr msg \<and>
     bn_calls s = map (\<lambda>p. CallSend p msg) contacts"
proof -
  let ?es = "[ConnectedTo (PeerNode node1), ConnectionFailure addr1, ConnectedTo (PeerNode node2)]"
  obtain s where s: "bn_run bincode_rpc rev 2 ?es = Inr s"
    by (simp add: bn_run_def bn_on_event_def bn_initial_def Let_def node1_def node2_def addr1_def addr2_def)
  have "announced ?es = [addr1 \<mapsto> PeerNode node1, addr2 \<mapsto> PeerNode node2]" "addr1 \<noteq> addr2"
    by (simp_all add: announced_def node1_def node2_def addr1_def addr2_def)
  then have "card (dom (announced ?es)) = 2" by simp
  moreover have "mset (rev t) = mset t" for t :: "(socket_addr \<times> peer) list" by simp
  ultimately show ?thesis using start_test_sent_once [OF _ s] s by fastforce
qed

text \<open>
  The bootstrap node never takes a peer back: a \<open>ConnectionFailure\<close> at any point
  changes neither its table nor what it sends, so a peer that has left still counts
  towards the expected number, is listed among the contacts and is sent the list.
\<close>

theorem failed_peers_still_count:
  "bind_p (bn_run C iter n (es1 @ ConnectionFailure a # es2)) (\<lambda>s. Inr (connected_peers s, bn_calls s)) =
   bind_p (bn_run C iter n (es1 @ es2)) (\<lambda>s. Inr (connected_peers s, bn_calls s))"
  by (cases "fold_p (bn_on_event C iter n) es1 bn_initial")
    (simp_all add: bn_run_def fold_p_append bn_on_event_def bn_fold_logs)

text \<open>
  C35. What the bootstrap node sends makes a client node connect to everybody: when
  the message reaches a client node from the bootstrap node's address, the client
  node takes every peer that had been announced when the test was started as a
  contact and asks the library to connect to it, except itself.
\<close>

theorem contacts_reach_client_node:
  assumes "\<And>t. mset (iter t) = mset t" and "faithful_codec C ok"
    and "\<And>ps. set ps \<subseteq> {p. ConnectedTo p \<in> set es} \<Longrightarrow> length ps = n \<Longrightarrow> ok (StartTest ps)"
    and "bn_run C iter n es = Inr b" and "CallSend p msg \<in> set (bn_calls b)"
  shows "\<exists>pre post s'. es = pre @ post \<and> card (dom (announced pre)) = n \<and>
    on_msg_receive crc C (ni_peer_addr (cn_bootstrap_node_info s)) msg s = Inr s' \<and>
    set (client_nodes s') =
      set (client_nodes s) \<union> ({ni. PeerNode ni \<in> ran (announced pre)} - {our_ci s}) \<and>
    (\<forall>ni. PeerNode ni \<in> ran (announced pre) \<and> ni \<noteq> our_ci s \<longrightarrow> CallConnectTo ni \<in> set (cn_calls s'))"
proof -
  have "bn_sent C n es (bn_calls b)"
    using bn_run_inv [OF assms(1,4)] assms(5) by (auto simp: bn_inv_def split: if_splits)
  then obtain pre post contacts m where sent: "es = pre @ post" "card (dom (announced pre)) = n"
      "set contacts = ran (announced pre)" "length contacts = n"
      "serialize C (StartTest contacts) = Inr m" "bn_calls b = map (\<lambda>p. CallSend p m) contacts"
    unfolding bn_sent_def by blast
  have sub: "set contacts \<subseteq> {p. ConnectedTo p \<in> set es}"
    using ran_announced [of pre] sent(1,3) by auto
  obtain bs where "serialize C (StartTest contacts) = Inr bs" "deserialize C bs = Inr (StartTest contacts)"
    using faithful_codec.codec_faithful [OF assms(2) assms(3) [OF sub sent(4)]] by blast
  then have des: "deserialize C msg = Inr (StartTest contacts)" using sent(5,6) assms(5) by auto
  have "\<forall>q \<in> set contacts. \<exists>ni. q = PeerNode ni" using sub bn_run_nodes_only [OF assms(4)] by blast
  then obtain nis where nis: "contacts = map PeerNode nis" by (metis ex_map_conv)
  obtain s' where s': "connect_to_peers contacts s = Inr s'"
      "set (client_nodes s') = set (client_nodes s) \<union> (set nis - {our_ci s})"
      "cn_calls s' = cn_calls s @ map CallConnectTo (filter (\<lambda>ni. ni \<noteq> our_ci s) nis)"
    using connect_to_peers_nodes [of nis s] nis by blast
  have "{ni. PeerNode ni \<in> ran (announced pre)} = set nis" using sent(3) nis by auto
  moreover have "on_msg_receive crc C (ni_peer_addr (cn_bootstrap_node_info s)) msg s = Inr s'"
    using des s'(1) by (simp add: on_msg_receive_def response_from_bootstrap_node_def)
  ultimately show ?thesis using sent(1,2) s'(2,3) by (intro exI [of _ pre] exI [of _ post] exI [of _ s']) auto
qed

theorem contacts_reach_client_node_witness:
  "\<exists>b msg s'. bn_run bincode_rpc rev 1 [ConnectedTo (PeerNode node1)] = Inr b \<and>
     CallSend (PeerNode node1) msg \<in> set (bn_calls b) \<and>
     on_msg_receive (\<lambda>_. 0) bincode_rpc addr2 msg sample_client = Inr s' \<and>
     CallConnectTo node1 \<in> set (cn_calls s')"
proof -
  let ?es = "[ConnectedTo (PeerNode node1)]"
  obtain b msg where b: "bn_run bincode_rpc rev 1 ?es = Inr b" "CallSend (PeerNode node1) msg \<in> set (bn_calls b)"
    by (simp add: bn_run_def bn_on_event_def bn_initial_def Let_def)
  have ok: "rpc_ok (StartTest ps)" if "set ps \<subseteq> {p. ConnectedTo p \<in> set ?es}" "length ps = 1" for ps
    using that by (cases ps) (auto simp: ok_list_def node_ok_def node1_def addr1_def)
  have iter: "mset (rev t) = mset t" for t :: "(socket_addr \<times> peer) list" by simp
  obtain pre post s' where r: "?es = pre @ post" "card (dom (announced pre)) = 1"
      "on_msg_receive (\<lambda>_. 0) bincode_rpc (ni_peer_addr (cn_bootstrap_node_info sample_client)) msg sample_client
        = Inr s'"
      "\<forall>ni. PeerNode ni \<in> ran (announced pre) \<and> ni \<noteq> our_ci sample_client \<longrightarrow> CallConnectTo ni \<in> set (cn_calls s')"
    using contacts_reach_client_node [OF iter rpc_message.faithful_codec_axioms ok b] by metis
  have "pre = ?es" using r(1,2) by (cases pre) auto
  then have "PeerNode node1 \<in> ran (announced pre)" by (simp add: announced_def ran_def)
  moreover have "node1 \<noteq> our_ci sample_client" "ni_peer_addr (cn_bootstrap_node_info sample_client) = addr2"
    by (simp_all add: sample_client_def node1_def node2_def addr1_def)
  ultimately show ?thesis using b r(3,4) by auto
qed

section \<open>The client nodes\<close>

text \<open>
  C36. Checksums: a message the client node makes, of any size and whatever the random
  generator and the checksum function, passes its own check; and for every byte string
  the check reads the first four bytes as a big endian number and compares it with
  the checksum of the rest, panicking if there are fewer than four.
\<close>

theorem checksum_is_big_endian:
  "((\<forall>k. length (rng k) = k) \<longrightarrow>
     hash_correct crc (random_data_with_hash crc rng sz) = Inr True \<and>
     length (random_data_with_hash crc rng sz) = sz + 4) \<and>
   hash_correct crc d =
     (if length d < 4 then Inl IndexOutOfBounds
      else Inr (of_nat (foldl (\<lambda>v b. v * 256 + unat b) 0 (take 4 d)) = crc (drop 4 d)))"
proof -
  have "hash_correct crc d = Inl IndexOutOfBounds" if "length d < 4" using that by (simp add: hash_correct_def)
  then show ?thesis
    using random_data_with_hash_correct [of rng crc sz] hash_correct_be_value [of d crc]
    by (auto simp: be_value_def)
qed

theorem checksum_is_big_endian_witness:
  "hash_correct (\<lambda>b. 0x01020304) (random_data_with_hash (\<lambda>b. 0x01020304) (\<lambda>n. replicate n 0) 3) = Inr True \<and>
   hash_correct (\<lambda>b. 0x01020304) [1, 2, 3, 4, 9] = Inr True"
  using checksum_is_big_endian [of "\<lambda>n. replicate n 0" "\<lambda>b. 0x01020304" 3 "[1, 2, 3, 4, 9]"] by simp



section \<open>The chat\<close>

text \<open>
  C39. What is typed in one chat is shown in the other: the command \<open>send\<close> with the
  index of a known peer and any words makes one call to \<open>send\<close>, for that peer, with
  the UTF-8 encoding of the words joined by single spaces, and changes nothing else;
  and a chat that receives these bytes, if they are at most 512, prints exactly that
  text.
\<close>

theorem chat_text_roundtrip:
  assumes "\<forall>w \<in> set ws. is_word w \<and> (\<forall>c \<in> set w. is_scalar c)"
    and "peer_list_get i (chat_peerlist s) = Some p" and "i < 2 ^ 64"
  shows "chat_round V (RlLine (join_space (str ''send'' # str (fmt_nat i) # ws))) s =
      Inr (Some (s\<lparr>chat_qp2p := send (ce_extern V) p (as_bytes (join_space ws)) (chat_qp2p s)\<rparr>)) \<and>
    (chat_rx r = RxRunning \<and> length (as_bytes (join_space ws)) \<le> 512 \<longrightarrow>
      handle_qp2p_event V' (NewMessage a (as_bytes (join_space ws))) r =
        println (str (''['' @ ce_show_addr V' a @ ''] '') @ join_space ws) r)"
proof -
  have "\<forall>c \<in> set (join_space ws). is_scalar c" using join_space_scalar assms(1) by blast
  then show ?thesis using send_line [of ws i s p V] receive_text [of r "join_space ws" V' a] assms by auto
qed

theorem chat_text_roundtrip_witness:
  "\<exists>qp. chat_round sample_chat_env (RlLine (join_space [str ''send'', str (fmt_nat 0), str ''hi'', str ''you'']))
      sample_chat = Inr (Some (sample_chat\<lparr>chat_qp2p := qp\<rparr>)) \<and>
    handle_qp2p_event sample_chat_env (NewMessage addr1 (as_bytes (str ''hi you''))) sample_chat =
      println (str ''[peer] hi you'') sample_chat"
proof -
  have w: "\<forall>w \<in> set [str ''hi'', str ''you'']. is_word w \<and> (\<forall>c \<in> set w. is_scalar c)"
    by (simp add: is_word_def str_def is_whitespace_def is_scalar_def)
  have g: "peer_list_get 0 (chat_peerlist sample_chat) = Some (PeerNode node1)" "chat_rx sample_chat = RxRunning"
    by (simp_all add: sample_chat_def peer_list_get_def)
  have j: "join_space [str ''hi'', str ''you''] = str ''hi you''" by (simp add: str_def)
  have "length (as_bytes (str ''hi you'')) \<le> 512" by (simp add: as_bytes_def str_def encode_char_def)
  then show ?thesis
    using chat_text_roundtrip [OF w g(1), of sample_chat_env sample_chat sample_chat_env addr1] g(2)
    unfolding j by (auto simp: sample_chat_env_def str_def)
qed

text \<open>
  C38. A short message that is not text ends the receiving thread of a chat, and only
  that does: the thread panics exactly on a message of at most 512 bytes that is not
  the UTF-8 encoding of a string. From then on no event is shown or added to the list
  of peers, and leaving the chat panics.
\<close>

theorem non_text_kills_chat_receiver:
  "(chat_rx (handle_qp2p_event V e s) = RxPanicked \<longleftrightarrow>
     chat_rx s = RxPanicked \<or>
     (\<exists>a m. e = NewMessage a m \<and> length m \<le> 512 \<and>
        \<not> (\<exists>t. as_bytes t = m \<and> list_all is_scalar t))) \<and>
   (chat_rx s = RxPanicked \<longrightarrow> chat_run V (map LibraryEvent es) s = Inr s \<and>
      chat_exit V es s = Inl UnwrapOnError)"
proof -
  have "chat_run V (map LibraryEvent es) s = Inr s" if "chat_rx s = RxPanicked"
    using that by (induction es) (simp_all add: handle_qp2p_event_def)
  moreover have "fold (handle_qp2p_event V) es s' = s'" if "chat_rx s' = RxPanicked" for s'
    using that by (induction es) (simp_all add: handle_qp2p_event_def)
  then have "chat_exit V es s = Inl UnwrapOnError" if "chat_rx s = RxPanicked"
    using that by (simp add: chat_exit_def Let_def)
  ultimately show ?thesis unfolding event_kills_receiver list_all_iff by blast
qed

theorem non_text_kills_chat_receiver_witness:
  "chat_rx (handle_qp2p_event sample_chat_env (NewMessage addr1 [0xFF]) sample_chat) = RxPanicked \<and>
   chat_exit sample_chat_env [] (handle_qp2p_event sample_chat_env (NewMessage addr1 [0xFF]) sample_chat) = Inl UnwrapOnError"
proof -
  let ?s = "handle_qp2p_event sample_chat_env (NewMessage addr1 [0xFF]) sample_chat"
  have "from_utf8 [0xFF] = None" by (simp add: from_utf8.simps decode_char_def)
  then have "\<not> (\<exists>t. as_bytes t = [0xFF] \<and> list_all is_scalar t)"
    using from_utf8_iff by (metis list_all_iff option.distinct(1))
  then have "chat_rx ?s = RxPanicked"
    using non_text_kills_chat_receiver [of sample_chat_env "NewMessage addr1 [0xFF]" sample_chat "[]"] by auto
  then show ?thesis using non_text_kills_chat_receiver [of sample_chat_env BootstrapFailure ?s "[]"] by blast
qed

text \<open>
  The list of peers of a chat never holds a peer twice, whatever lines are typed
  and whatever events arrive in between, so an index names at most one peer and a peer
  has at most one index.
\<close>

theorem chat_peers_distinct:
  assumes "chat_start E N C dirs g args d = Inr (s, d')" and "chat_run V inputs s = Inr s'"
  shows "distinct (pl_peers (chat_peerlist s')) \<and>
    (peer_list_get i (chat_peerlist s') = Some p \<and> peer_list_get j (chat_peerlist s') = Some p \<longrightarrow> i = j)"
proof -
  have "chat_peerlist s = peer_list_new"
    using assms(1) by (auto simp: chat_start_def split: sum.split_asm prod.split_asm)
  then have "distinct (pl_peers (chat_peerlist s'))"
    using chat_run_distinct [OF assms(2)] by (simp add: chat_contacts.contacts_empty)
  then show ?thesis using chat_contacts.get_unique by blast
qed

theorem chat_peers_distinct_witness:
  "\<exists>s d' s'. chat_start sample_extern sample_sockets bincode_config
       (Some \<lparr>pd_config_dir = [''c''], pd_cache_dir = [''k''], pd_data_dir = [''d'']\<rparr>)
       \<lparr>cert_der = [1], key_der = [2]\<rparr> \<lparr>cli_port = None, cli_our_ip = None\<rparr> sample_disk = Inr (s, d') \<and>
     chat_run sample_chat_env [LibraryEvent (ConnectedTo (PeerNode node1)), LibraryEvent (ConnectedTo (PeerNode node1))]
       s = Inr s' \<and> distinct (pl_peers (chat_peerlist s')) \<and> pl_peers (chat_peerlist s') \<noteq> []"
proof -
  let ?in = "[LibraryEvent (ConnectedTo (PeerNode node1)), LibraryEvent (ConnectedTo (PeerNode node1))]"
  obtain s d' where s: "chat_start sample_extern sample_sockets bincode_config
       (Some \<lparr>pd_config_dir = [''c''], pd_cache_dir = [''k''], pd_data_dir = [''d'']\<rparr>)
       \<lparr>cert_der = [1], key_der = [2]\<rparr> \<lparr>cli_port = None, cli_our_ip = None\<rparr> sample_disk = Inr (s, d')"
      "chat_rx s = RxRunning" "chat_peerlist s = peer_list_new"
    by (simp add: chat_start_def build_def with_config_def builder_new_def chat_library_config_def activate_def
        quic_p2p_with_config_def config_default_def obtain_priv_key_and_cert_def sample_extern_def
        bincode_extern_def bootstrap_cache_new_def project_dir_def path_exists_def sample_disk_def
        create_dir_all_def io_step_def path_join_def path_parent_def Let_def)
  obtain s' where s': "chat_run sample_chat_env ?in s = Inr s'" "pl_peers (chat_peerlist s') \<noteq> []"
    using s(2,3) by (simp add: handle_qp2p_event_def peer_list_insert_def peer_list_new_def)
  then show ?thesis using chat_peers_distinct [OF s(1) s'(1)] s(1) by blast
qed

text \<open>
  C40. Indices: an index given to \<open>send\<close> or \<open>delpeer\<close> is accepted exactly if it
  is a decimal number, with or without a plus sign, below both \<open>2 ^ 64\<close> and the
  number of known peers; a number too large for a \<open>usize\<close> is rejected as invalid and
  never wraps around to a smaller index. An accepted index removes the peer at that
  position and no other. A port on the command line is accepted exactly if it is such
  a number below \<open>2 ^ 16\<close>, and an IPv4 address given there is the one that is used.
\<close>

theorem index_bounds:
  "(let ds = unsigned_part a; i = decimal ds
    in fst (on_cmd_send E (a # rest) pl qp) =
         (if is_digits ds \<and> i < 2 ^ 64
          then if i < length (pl_peers pl) then Inr () else Inl ''Index out of bounds''
          else Inl ''Invalid index argument'') \<and>
       on_cmd_delpeer (a # rest) pl =
         (if is_digits ds \<and> i < 2 ^ 64
          then if i < length (pl_peers pl)
               then (Inr (), pl\<lparr>pl_peers := take i (pl_peers pl) @ drop (Suc i) (pl_peers pl)\<rparr>)
               else (Inl ''Index out of bounds'', pl)
          else (Inl ''Invalid index argument'', pl)) \<and>
       chat_parse_cli_args (Some a) (Some (fmt_ipv4 v)) = Inr
         (if is_digits ds \<and> i < 2 ^ 16
          then Inr \<lparr>cli_port = Some (of_nat i), cli_our_ip = Some (V4 v)\<rparr> else Inl ''Invalid port''))"
  by (simp add: chat_port_def chat_parse_cli_args_def parse_fmt_ipv4 on_cmd_send_def on_cmd_delpeer_def index_arg_def parse_uint_eq peer_list_get_def
      peer_list_remove_def remove_at_def Let_def del: perform_call.simps)

text \<open>Starting the chat with an IP address that is none panics, once the port is accepted.\<close>

theorem bad_ip_panics:
  "chat_parse_cli_args port_val ip_val = Inl p \<longleftrightarrow>
    p = UnwrapOnError \<and> (\<exists>lp addr. chat_port port_val = Inr lp \<and> ip_val = Some addr \<and> parse_ip addr = None)"
  by (auto simp: chat_parse_cli_args_def split: sum.splits option.splits)

end
